(* ===== verification/Dvt_Prelude.thy ===== *)
theory Dvt_Prelude
  imports Complex_Main "HOL-Library.Multiset" "HOL-Library.List_Lexorder" "HOL-Library.Char_ord"
    "HOL-Library.Product_Lexorder"
begin

text \<open>
  Shared vocabulary of the development: Python dictionaries as association lists in insertion
  order, SQL tables as lists of rows with a primary key, results of fallible code as sums, and
  labelled transition systems with their reachable states. The interfaces the components rely
  on (a keyed store, an inductive invariant) are locales whose
  client lemmas are proved once here.
\<close>

named_theorems dict_simps \<open>equations of the dictionary operations\<close>
named_theorems lifecycle_simps \<open>frame and effect equations of the task lifecycle\<close>

section \<open>Results of fallible code\<close>

type_synonym ('e, 'a) result = "'e + 'a"

definition bind_result :: "('e, 'a) result \<Rightarrow> ('a \<Rightarrow> ('e, 'b) result) \<Rightarrow> ('e, 'b) result" where
  "bind_result r f = (case r of Inl e \<Rightarrow> Inl e | Inr a \<Rightarrow> f a)"

lemma bind_result_simps [simp]:
  "bind_result (Inl e) f = Inl e"
  "bind_result (Inr a) f = f a"
  by (simp_all add: bind_result_def)

lemma bind_result_eq_Inr_iff:
  "bind_result r f = Inr b \<longleftrightarrow> (\<exists>a. r = Inr a \<and> f a = Inr b)"
  by (cases r) auto

lemma bind_result_eq_Inl_iff:
  "bind_result r f = Inl e \<longleftrightarrow> r = Inl e \<or> (\<exists>a. r = Inr a \<and> f a = Inl e)"
  by (cases r) auto

fun map_result :: "('a \<Rightarrow> ('e, 'b) result) \<Rightarrow> 'a list \<Rightarrow> ('e, 'b list) result" where
  "map_result f [] = Inr []"
| "map_result f (x # xs) =
     bind_result (f x) (\<lambda>y. bind_result (map_result f xs) (\<lambda>ys. Inr (y # ys)))"

lemma map_result_Inr_iff:
  "map_result f xs = Inr ys \<longleftrightarrow> list_all2 (\<lambda>x y. f x = Inr y) xs ys"
  by (induction xs arbitrary: ys) (auto simp: bind_result_eq_Inr_iff list_all2_Cons1)

lemma map_result_InlD: "map_result f xs = Inl e \<Longrightarrow> \<exists>x \<in> set xs. f x = Inl e"
  by (induction xs) (auto simp: bind_result_eq_Inl_iff)

section \<open>Keyed stores\<close>

text \<open>
  The contract of a dictionary: what a lookup returns after an insertion or a deletion. The
  task-execution registry, the worker registry, the reservation hash and the pipeline maps all
  rely on it.
\<close>

locale keyed_store =
  fixes empty :: "'m"
    and put :: "'k \<Rightarrow> 'v \<Rightarrow> 'm \<Rightarrow> 'm"
    and del :: "'k \<Rightarrow> 'm \<Rightarrow> 'm"
    and lookup :: "'m \<Rightarrow> 'k \<Rightarrow> 'v option"
    and invar :: "'m \<Rightarrow> bool"
  assumes invar_empty: "invar empty"
    and invar_put: "invar m \<Longrightarrow> invar (put k v m)"
    and invar_del: "invar m \<Longrightarrow> invar (del k m)"
    and lookup_empty: "lookup empty k = None"
    and lookup_put: "lookup (put k v m) = (lookup m)(k \<mapsto> v)"
    and lookup_del: "lookup (del k m) = (lookup m)(k := None)"
begin

definition put_all :: "('k \<times> 'v) list \<Rightarrow> 'm \<Rightarrow> 'm" where
  "put_all kvs m = fold (\<lambda>(k, v). put k v) kvs m"

definition del_all :: "'k list \<Rightarrow> 'm \<Rightarrow> 'm" where
  "del_all ks m = fold del ks m"

lemma lookup_put_all: "lookup (put_all kvs m) = lookup m ++ map_of (rev kvs)"
  unfolding put_all_def
  by (induction kvs arbitrary: m) (auto simp: lookup_put map_add_def fun_eq_iff split: option.splits)

lemma invar_put_all: "invar m \<Longrightarrow> invar (put_all kvs m)"
  unfolding put_all_def by (induction kvs arbitrary: m) (auto intro: invar_put)

lemma lookup_del_all: "lookup (del_all ks m) k = (if k \<in> set ks then None else lookup m k)"
  unfolding del_all_def by (induction ks arbitrary: m) (auto simp: lookup_del)

lemma dom_put: "dom (lookup (put k v m)) = insert k (dom (lookup m))"
  by (simp add: lookup_put)

lemma dom_del: "dom (lookup (del k m)) = dom (lookup m) - {k}"
  by (auto simp: lookup_del)

end

section \<open>Python dictionaries\<close>

text \<open>
  A dictionary keeps its keys in insertion order; assigning to a key that is present keeps the
  key's place. The model is an association list, \<open>map_of\<close> the lookup.
\<close>

type_synonym ('k, 'v) dict = "('k \<times> 'v) list"

fun dict_put :: "'k \<Rightarrow> 'v \<Rightarrow> ('k, 'v) dict \<Rightarrow> ('k, 'v) dict" where
  "dict_put k v [] = [(k, v)]"
| "dict_put k v ((k', v') # d) = (if k = k' then (k', v) # d else (k', v') # dict_put k v d)"

definition dict_del :: "'k \<Rightarrow> ('k, 'v) dict \<Rightarrow> ('k, 'v) dict" where
  "dict_del k d = filter (\<lambda>p. fst p \<noteq> k) d"

text \<open>\<open>d[k] = f(d[k])\<close> where the key is present; other entries are untouched.\<close>

fun dict_modify :: "'k \<Rightarrow> ('v \<Rightarrow> 'v) \<Rightarrow> ('k, 'v) dict \<Rightarrow> ('k, 'v) dict" where
  "dict_modify k f [] = []"
| "dict_modify k f ((k', v) # d) = (if k = k' then (k', f v) # d else (k', v) # dict_modify k f d)"

definition dict_keys :: "('k, 'v) dict \<Rightarrow> 'k list" where
  "dict_keys d = map fst d"

definition dict_values :: "('k, 'v) dict \<Rightarrow> 'v list" where
  "dict_values d = map snd d"

definition dict_get_default :: "'v \<Rightarrow> ('k, 'v) dict \<Rightarrow> 'k \<Rightarrow> 'v" where
  "dict_get_default v d k = (case map_of d k of None \<Rightarrow> v | Some x \<Rightarrow> x)"

definition dict_wf :: "('k, 'v) dict \<Rightarrow> bool" where
  "dict_wf d = distinct (dict_keys d)"

lemma map_of_dict_put [dict_simps]: "map_of (dict_put k v d) = (map_of d)(k \<mapsto> v)"
  by (induction k v d rule: dict_put.induct) (auto simp: fun_eq_iff)

lemma keys_dict_put [dict_simps]:
  "dict_keys (dict_put k v d) = (if k \<in> set (dict_keys d) then dict_keys d else dict_keys d @ [k])"
  by (induction k v d rule: dict_put.induct) (auto simp: dict_keys_def)

lemma map_of_dict_del [dict_simps]: "map_of (dict_del k d) = (map_of d)(k := None)"
  by (induction d) (auto simp: dict_del_def fun_eq_iff)

lemma keys_dict_del [dict_simps]: "dict_keys (dict_del k d) = filter (\<lambda>x. x \<noteq> k) (dict_keys d)"
  by (induction d) (auto simp: dict_del_def dict_keys_def)

lemma map_of_dict_modify [dict_simps]:
  "map_of (dict_modify k f d) = (map_of d)(k := map_option f (map_of d k))"
  by (induction k f d rule: dict_modify.induct) (auto simp: fun_eq_iff)

lemma keys_dict_modify [dict_simps]: "dict_keys (dict_modify k f d) = dict_keys d"
  by (induction k f d rule: dict_modify.induct) (auto simp: dict_keys_def)

lemma dict_wf_Nil [simp]: "dict_wf []"
  by (simp add: dict_wf_def dict_keys_def)

lemma dict_wf_put [intro]: "dict_wf d \<Longrightarrow> dict_wf (dict_put k v d)"
  by (simp add: dict_wf_def keys_dict_put)

lemma dict_wf_del [intro]: "dict_wf d \<Longrightarrow> dict_wf (dict_del k d)"
  by (simp add: dict_wf_def keys_dict_del)

lemma dict_wf_modify [intro]: "dict_wf d \<Longrightarrow> dict_wf (dict_modify k f d)"
  by (simp add: dict_wf_def keys_dict_modify)

lemma map_of_eq_None_iff_keys: "map_of d k = None \<longleftrightarrow> k \<notin> set (dict_keys d)"
  by (simp add: dict_keys_def map_of_eq_None_iff)

lemma in_keys_iff_map_of: "k \<in> set (dict_keys d) \<longleftrightarrow> (\<exists>v. map_of d k = Some v)"
  using map_of_eq_None_iff_keys [of d k] by (cases "map_of d k") auto

lemma map_of_Some_in_keys: "map_of d k = Some v \<Longrightarrow> k \<in> set (dict_keys d)"
  by (auto simp: in_keys_iff_map_of)

lemma dict_wf_map_of_iff: "dict_wf d \<Longrightarrow> map_of d k = Some v \<longleftrightarrow> (k, v) \<in> set d"
  by (auto simp: dict_wf_def dict_keys_def dest: map_of_SomeD)

lemma length_dict_put:
  "length (dict_put k v d) = (if k \<in> set (dict_keys d) then length d else Suc (length d))"
  by (induction k v d rule: dict_put.induct) (auto simp: dict_keys_def)

lemma length_dict_del_le: "length (dict_del k d) \<le> length d"
  by (simp add: dict_del_def)

interpretation pydict: keyed_store "[]" dict_put dict_del map_of dict_wf
  by unfold_locales (auto simp: dict_simps)

section \<open>Tables with a primary key\<close>

text \<open>
  A table is a list of rows; a primary key is a projection of the row. \<open>row_get\<close> is
  \<open>SELECT ... WHERE key = k\<close>, \<open>rows_update\<close> is \<open>UPDATE ... WHERE p\<close>.
\<close>

definition row_get :: "('r \<Rightarrow> 'k) \<Rightarrow> 'k \<Rightarrow> 'r list \<Rightarrow> 'r option" where
  "row_get key k t = find (\<lambda>r. key r = k) t"

definition rows_update :: "('r \<Rightarrow> bool) \<Rightarrow> ('r \<Rightarrow> 'r) \<Rightarrow> 'r list \<Rightarrow> 'r list" where
  "rows_update p f t = map (\<lambda>r. if p r then f r else r) t"

definition rowcount :: "('r \<Rightarrow> bool) \<Rightarrow> 'r list \<Rightarrow> nat" where
  "rowcount p t = length (filter p t)"

lemma row_get_Nil [simp]: "row_get key k [] = None"
  by (simp add: row_get_def)

lemma row_get_Cons [simp]:
  "row_get key k (r # t) = (if key r = k then Some r else row_get key k t)"
  by (simp add: row_get_def)

lemma row_get_append:
  "row_get key k (t @ u) = (case row_get key k t of None \<Rightarrow> row_get key k u | Some r \<Rightarrow> Some r)"
  by (induction t) auto

lemma row_get_SomeD: "row_get key k t = Some r \<Longrightarrow> r \<in> set t \<and> key r = k"
  by (induction t) (auto split: if_splits)

lemma row_get_None_iff: "row_get key k t = None \<longleftrightarrow> k \<notin> key ` set t"
  by (induction t) auto

lemma row_get_unique: "distinct (map key t) \<Longrightarrow> r \<in> set t \<Longrightarrow> row_get key (key r) t = Some r"
  by (induction t) (auto simp: image_iff)

lemma row_get_iff: "distinct (map key t) \<Longrightarrow> row_get key k t = Some r \<longleftrightarrow> r \<in> set t \<and> key r = k"
  by (auto dest: row_get_SomeD row_get_unique)

lemma set_rows_update: "set (rows_update p f t) = (\<lambda>r. if p r then f r else r) ` set t"
  by (simp add: rows_update_def)

lemma rowcount_pos_iff: "0 < rowcount p t \<longleftrightarrow> (\<exists>r \<in> set t. p r)"
  by (auto simp: rowcount_def filter_empty_conv)

lemma map_key_rows_update:
  "(\<And>r. p r \<Longrightarrow> key (f r) = key r) \<Longrightarrow> map key (rows_update p f t) = map key t"
  by (induction t) (auto simp: rows_update_def)

text \<open>What a query by primary key returns after an update that keeps the key.\<close>

lemma row_get_rows_update:
  "(\<And>r. p r \<Longrightarrow> key (f r) = key r) \<Longrightarrow> distinct (map key t) \<Longrightarrow>
   row_get key k (rows_update p f t) =
     map_option (\<lambda>r. if p r then f r else r) (row_get key k t)"
  by (induction t) (auto simp: rows_update_def)

text \<open>Writing one row back, as the session flushes a modified object.\<close>

definition row_put :: "('r \<Rightarrow> 'k) \<Rightarrow> 'r \<Rightarrow> 'r list \<Rightarrow> 'r list" where
  "row_put key r t = rows_update (\<lambda>x. key x = key r) (\<lambda>_. r) t"

lemma map_key_row_put [simp]: "map key (row_put key r t) = map key t"
  unfolding row_put_def by (rule map_key_rows_update) simp

lemma row_get_row_put:
  "distinct (map key t) \<Longrightarrow>
   row_get key k (row_put key r t) =
     (if k = key r then map_option (\<lambda>_. r) (row_get key k t) else row_get key k t)"
  unfolding row_put_def
  by (subst row_get_rows_update)
     (auto simp: map_option_case dest: row_get_SomeD split: option.splits)

lemma row_get_snoc:
  "row_get key k (t @ [r]) =
     (case row_get key k t of Some x \<Rightarrow> Some x | None \<Rightarrow> if key r = k then Some r else None)"
  by (auto simp: row_get_append split: option.splits)

section \<open>Transition systems\<close>

inductive reach :: "('s \<Rightarrow> bool) \<Rightarrow> ('s \<Rightarrow> 'l \<Rightarrow> 's \<Rightarrow> bool) \<Rightarrow> 's \<Rightarrow> bool"
  for init :: "'s \<Rightarrow> bool" and step :: "'s \<Rightarrow> 'l \<Rightarrow> 's \<Rightarrow> bool" where
  reach_init: "init s \<Longrightarrow> reach init step s"
| reach_step: "reach init step s \<Longrightarrow> step s l t \<Longrightarrow> reach init step t"

text \<open>A run from a state: the labels it takes and the state it ends in.\<close>

inductive run :: "('s \<Rightarrow> 'l \<Rightarrow> 's \<Rightarrow> bool) \<Rightarrow> 's \<Rightarrow> 'l list \<Rightarrow> 's \<Rightarrow> bool"
  for step :: "'s \<Rightarrow> 'l \<Rightarrow> 's \<Rightarrow> bool" where
  run_Nil: "run step s [] s"
| run_Cons: "step s l t \<Longrightarrow> run step t ls u \<Longrightarrow> run step s (l # ls) u"

inductive_cases run_NilE [elim!]: "run step s [] t"
inductive_cases run_ConsE [elim!]: "run step s (l # ls) t"

lemma run_reach: "run step s ls t \<Longrightarrow> reach init step s \<Longrightarrow> reach init step t"
  by (induction rule: run.induct) (auto intro: reach_step)

lemma run_append: "run step s xs t \<Longrightarrow> run step t ys u \<Longrightarrow> run step s (xs @ ys) u"
  by (induction rule: run.induct) (auto intro: run_Cons)

lemma run_snocD:
  "run step s (ls @ [l]) u \<Longrightarrow> \<exists>t. run step s ls t \<and> step t l u"
  by (induction ls arbitrary: s) (auto intro: run.intros, meson run_Cons)

text \<open>
  The contract of a safety argument: an invariant that holds initially and is kept by every
  step. What follows for reachable states and for runs is proved here.
\<close>

locale inductive_invariant =
  fixes init :: "'s \<Rightarrow> bool"
    and step :: "'s \<Rightarrow> 'l \<Rightarrow> 's \<Rightarrow> bool"
    and inv :: "'s \<Rightarrow> bool"
  assumes inv_init: "init s \<Longrightarrow> inv s"
    and inv_step: "inv s \<Longrightarrow> step s l t \<Longrightarrow> inv t"
begin

lemma inv_reach: "reach init step s \<Longrightarrow> inv s"
  by (induction rule: reach.induct) (auto intro: inv_init inv_step)

lemma inv_run: "run step s ls t \<Longrightarrow> inv s \<Longrightarrow> inv t"
  by (induction rule: run.induct) (auto intro: inv_step)

end

section \<open>Sorting\<close>

lemma sort_key_eq_Nil_iff [simp]: "sort_key f xs = [] \<longleftrightarrow> xs = []"
  by (metis length_0_conv length_sort)

lemma hd_sort_key_least: "x \<in> set xs \<Longrightarrow> f (hd (sort_key f xs)) \<le> f x"
proof -
  assume x: "x \<in> set xs"
  then obtain y ys where s: "sort_key f xs = y # ys"
    by (cases "sort_key f xs") auto
  have "sorted (map f (y # ys))"
    using sorted_sort_key [of f xs] by (simp add: s)
  moreover have "x \<in> set (y # ys)"
    using x by (metis s set_sort)
  ultimately show ?thesis by (auto simp: s)
qed

text \<open>A selection of rows in some order, cut at a limit, as the listing queries return it.\<close>

lemma distinct_ordered_rows:
  assumes "distinct (map f ts)"
  shows "distinct (map f (sort_key k (filter p ts)))"
proof -
  have "mset (map f (sort_key k (filter p ts))) = mset (map f (filter p ts))" by simp
  moreover have "distinct (map f (filter p ts))" using assms by (rule distinct_map_filter)
  ultimately show ?thesis by (rule mset_eq_imp_distinct_iff [THEN iffD2])
qed

lemma selected_rows:
  assumes "t \<in> set (take n (sort_key k (filter p ts)))"
  shows "t \<in> set ts \<and> p t"
  using in_set_takeD [OF assms] by simp

lemma distinct_selected_rows:
  "distinct (map f ts) \<Longrightarrow> distinct (map f (take n (sort_key k (filter p ts))))"
  using distinct_take [OF distinct_ordered_rows] by (simp add: take_map)

end
