(* ===== verification/Task_Types.thy ===== *)
theory Task_Types
  imports Dvt_Prelude
begin

text \<open>
  Domain types and policies of task execution
  (\<^verbatim>\<open>src/modules/task_execution/domain\<close>): lifecycle statuses, sources, termination
  reasons, the entities, the precedence of concurrent termination requests and the admission
  rule for synchronous nested waits.

  A termination reason is a \<^verbatim>\<open>StrEnum\<close> member or a historical string; the two compare as
  strings. A reason of the model is \<open>Known r\<close> for a member and \<open>Legacy s\<close> for any other
  string; \<open>reason_of_str\<close> reads the database column.
\<close>

type_synonym task_id = string
type_synonym worker_id = string
type_synonym json = string  \<comment> \<open>a serialised JSON document\<close>
type_synonym datetime = int  \<comment> \<open>UTC instants, in microseconds since the epoch\<close>

section \<open>Types\<close>

datatype PipelineExecutionMode = FULL | METADATA_ONLY

datatype TaskExecutionStatus =
    PENDING | QUEUED | ASSIGNED | STARTED | RUNNING | SUCCESS | ERROR | CANCELLED | CANCEL_REQUESTED

datatype TaskSource = UI | API | SCHEDULER | NODE | MCP

datatype TaskTerminationReason =
    USER_STOP | USER_HARD_STOP | OOM_GUARD | WORKER_LOST | NESTED_WAIT_CAPACITY_LOST
  | SUPERSEDED_BY_NEWER_EXECUTION

datatype reason = Known TaskTerminationReason | Legacy string

fun reason_value :: "TaskTerminationReason \<Rightarrow> string" where
  "reason_value USER_STOP = ''USER_STOP''"
| "reason_value USER_HARD_STOP = ''USER_HARD_STOP''"
| "reason_value OOM_GUARD = ''OOM_GUARD''"
| "reason_value WORKER_LOST = ''WORKER_LOST''"
| "reason_value NESTED_WAIT_CAPACITY_LOST = ''NESTED_WAIT_CAPACITY_LOST''"
| "reason_value SUPERSEDED_BY_NEWER_EXECUTION = ''SUPERSEDED_BY_NEWER_EXECUTION''"

definition ALL_REASONS :: "TaskTerminationReason list" where
  "ALL_REASONS = [USER_STOP, USER_HARD_STOP, OOM_GUARD, WORKER_LOST, NESTED_WAIT_CAPACITY_LOST,
     SUPERSEDED_BY_NEWER_EXECUTION]"

text \<open>\<^verbatim>\<open>TaskTerminationReason(value)\<close>, with the \<^verbatim>\<open>ValueError\<close> suppressed.\<close>

definition reason_of_str :: "string \<Rightarrow> reason" where
  "reason_of_str s =
     (case find (\<lambda>r. reason_value r = s) ALL_REASONS of Some r \<Rightarrow> Known r | None \<Rightarrow> Legacy s)"

fun str_of_reason :: "reason \<Rightarrow> string" where
  "str_of_reason (Known r) = reason_value r"
| "str_of_reason (Legacy s) = s"

definition ROOT_EXECUTION_SOURCES :: "TaskSource set" where
  "ROOT_EXECUTION_SOURCES = {UI, API, SCHEDULER, MCP}"

definition TERMINAL_STATUSES :: "TaskExecutionStatus set" where
  "TERMINAL_STATUSES = {SUCCESS, ERROR, CANCELLED}"

definition SUPERSEDABLE_STATUSES :: "TaskExecutionStatus set" where
  "SUPERSEDABLE_STATUSES = {PENDING, QUEUED}"

definition CLAIMABLE_STATUSES :: "TaskExecutionStatus set" where
  "CLAIMABLE_STATUSES = {QUEUED, ASSIGNED}"

definition WORKER_OWNED_ACTIVE_STATUSES :: "TaskExecutionStatus set" where
  "WORKER_OWNED_ACTIVE_STATUSES = {STARTED, RUNNING}"

definition RECONCILIATION_TERMINATION_REASONS :: "TaskTerminationReason set" where
  "RECONCILIATION_TERMINATION_REASONS =
     {USER_STOP, USER_HARD_STOP, OOM_GUARD, WORKER_LOST, NESTED_WAIT_CAPACITY_LOST}"

lemmas status_sets =
  ROOT_EXECUTION_SOURCES_def TERMINAL_STATUSES_def SUPERSEDABLE_STATUSES_def
  CLAIMABLE_STATUSES_def WORKER_OWNED_ACTIVE_STATUSES_def

section \<open>Entities\<close>

record TaskExecution =
  te_task_id :: task_id
  te_user_id :: string
  te_organization_id :: string
  te_project_id :: string
  te_mode :: PipelineExecutionMode
  te_source :: TaskSource
  te_status :: TaskExecutionStatus
  te_force_exec :: bool
  te_queued_at :: datetime
  te_schedule_run_id :: "string option"
  te_schedule_attempt :: "int option"
  te_assigned_worker_id :: "worker_id option"
  te_termination_reason :: "reason option"
  te_message :: "string option"
  te_updated_at :: "datetime option"

record DispatchOutboxItem =
  di_dispatch_id :: string
  di_task_id :: task_id
  di_payload :: json
  di_created_at :: datetime
  di_published_at :: "datetime option"
  di_attempts :: int

record EnqueueTaskResult =
  er_execution :: TaskExecution
  er_superseded :: "TaskExecution list"

record NestedWaitReservation =
  nw_parent_task_id :: task_id
  nw_child_task_id :: task_id
  nw_origin_worker_id :: worker_id
  nw_created_at :: datetime

datatype nested_wait_error =
    OriginNotAlive worker_id
  | NoOtherAliveWorker worker_id
  | WouldOccupyAll nat nat
  | ParentOwnsAnother task_id
  | CapacityReservedConcurrently

record NestedWaitDecision =
  nd_accepted :: bool
  nd_error :: "nested_wait_error option"

section \<open>Policies\<close>

fun TERMINATION_REASON_PRIORITY :: "TaskTerminationReason \<Rightarrow> nat" where
  "TERMINATION_REASON_PRIORITY SUPERSEDED_BY_NEWER_EXECUTION = 10"
| "TERMINATION_REASON_PRIORITY WORKER_LOST = 50"
| "TERMINATION_REASON_PRIORITY USER_STOP = 100"
| "TERMINATION_REASON_PRIORITY USER_HARD_STOP = 200"
| "TERMINATION_REASON_PRIORITY NESTED_WAIT_CAPACITY_LOST = 300"
| "TERMINATION_REASON_PRIORITY OOM_GUARD = 400"

text \<open>\<^verbatim>\<open>_TERMINATION_REASON_PRIORITY.get(reason)\<close>: strings outside the enum have no priority.\<close>

fun priority_get :: "reason \<Rightarrow> nat option" where
  "priority_get (Known r) = Some (TERMINATION_REASON_PRIORITY r)"
| "priority_get (Legacy s) = None"

definition FAILURE_TERMINATION_REASONS :: "reason set" where
  "FAILURE_TERMINATION_REASONS =
     {Known OOM_GUARD, Known WORKER_LOST, Known NESTED_WAIT_CAPACITY_LOST}"

definition can_supersede :: "TaskSource \<Rightarrow> TaskExecutionStatus \<Rightarrow> bool" where
  "can_supersede src st \<longleftrightarrow> src \<in> ROOT_EXECUTION_SOURCES \<and> st \<in> SUPERSEDABLE_STATUSES"

definition can_claim :: "TaskExecutionStatus \<Rightarrow> bool" where
  "can_claim st \<longleftrightarrow> st \<in> CLAIMABLE_STATUSES"

definition normalize_termination_request :: "reason \<Rightarrow> bool \<Rightarrow> reason" where
  "normalize_termination_request r hard =
     (if hard \<and> r = Known USER_STOP then Known USER_HARD_STOP else r)"

definition choose_termination_reason :: "reason option \<Rightarrow> reason \<Rightarrow> bool \<Rightarrow> reason" where
  "choose_termination_reason current req hard =
     (let requested = normalize_termination_request req hard in
      case current of
        None \<Rightarrow> requested
      | Some c \<Rightarrow>
          if c = requested then requested
          else (case priority_get requested of
                  None \<Rightarrow> c
                | Some requested_priority \<Rightarrow>
                    (case priority_get c of
                       None \<Rightarrow> requested
                     | Some current_priority \<Rightarrow>
                         if requested_priority > current_priority then requested else c)))"

definition terminal_status_for_termination_reason :: "reason option \<Rightarrow> TaskExecutionStatus" where
  "terminal_status_for_termination_reason r =
     (case r of
        None \<Rightarrow> CANCELLED
      | Some x \<Rightarrow> if x \<in> FAILURE_TERMINATION_REASONS then ERROR else CANCELLED)"

definition decide_nested_wait_reservation ::
    "worker_id \<Rightarrow> worker_id list \<Rightarrow> worker_id list \<Rightarrow> NestedWaitDecision" where
  "decide_nested_wait_reservation origin alive_worker_ids reserved_origin_worker_ids =
     (let alive = set alive_worker_ids in
      if origin \<notin> alive
      then \<lparr>nd_accepted = False, nd_error = Some (OriginNotAlive origin)\<rparr>
      else
        let other_alive = alive - {origin} in
        if other_alive = {}
        then \<lparr>nd_accepted = False, nd_error = Some (NoOtherAliveWorker origin)\<rparr>
        else
          let active_waiters = set reserved_origin_worker_ids \<inter> alive;
              prospective_waiters = active_waiters \<union> {origin} in
          if card prospective_waiters \<ge> card alive
          then \<lparr>nd_accepted = False,
                 nd_error = Some (WouldOccupyAll (card prospective_waiters) (card alive))\<rparr>
          else \<lparr>nd_accepted = True, nd_error = None\<rparr>)"

section \<open>Reasons as strings\<close>

lemma reason_of_str_value [simp]: "reason_of_str (reason_value r) = Known r"
  by (cases r) (simp_all add: reason_of_str_def ALL_REASONS_def)

lemma str_of_reason_of_str [simp]: "str_of_reason (reason_of_str s) = s"
  by (auto simp: reason_of_str_def find_Some_iff split: option.splits)

lemma reason_of_str_Legacy_iff:
  "reason_of_str s = Legacy t \<longleftrightarrow> s = t \<and> (\<forall>r. reason_value r \<noteq> s)"
proof -
  have "set ALL_REASONS = UNIV"
    using TaskTerminationReason.exhaust by (auto simp: ALL_REASONS_def)
  then show ?thesis
    by (auto simp: reason_of_str_def find_None_iff find_Some_iff split: option.splits)
qed

section \<open>Precedence of termination requests\<close>

lemma priority_inj: "TERMINATION_REASON_PRIORITY a = TERMINATION_REASON_PRIORITY b \<longleftrightarrow> a = b"
  by (cases a; cases b) simp_all

fun is_known :: "reason \<Rightarrow> bool" where
  "is_known (Known r) = True"
| "is_known (Legacy s) = False"

lemma is_known_normalize [simp]: "is_known (normalize_termination_request r h) = is_known r"
  by (cases r) (auto simp: normalize_termination_request_def)

lemma is_known_iff: "is_known r \<longleftrightarrow> (\<exists>k. r = Known k)"
  by (cases r) auto

lemma choose_known:
  "normalize_termination_request r h = Known a \<Longrightarrow>
   choose_termination_reason c r h =
     (case c of
        Some (Known k) \<Rightarrow>
          Known (if TERMINATION_REASON_PRIORITY a > TERMINATION_REASON_PRIORITY k then a else k)
      | _ \<Rightarrow> Known a)"
  by (auto simp: choose_termination_reason_def Let_def split: option.splits reason.splits)

lemma choose_of_legacy_request:
  "choose_termination_reason (Some c) (Legacy s) h = c"
  by (auto simp: choose_termination_reason_def normalize_termination_request_def Let_def)

text \<open>One more request, as \<open>request_stop\<close> applies it to a task's current reason.\<close>

definition add_request :: "reason \<times> bool \<Rightarrow> reason option \<Rightarrow> reason option" where
  "add_request q c = Some (choose_termination_reason c (fst q) (snd q))"

definition resolve_requests :: "reason option \<Rightarrow> (reason \<times> bool) list \<Rightarrow> reason option" where
  "resolve_requests current reqs = fold add_request reqs current"

lemma known_normalE:
  assumes "is_known r"
  obtains a where "normalize_termination_request r h = Known a"
  using assms is_known_iff is_known_normalize by metis

lemma add_request_known:
  "normalize_termination_request (fst q) (snd q) = Known a \<Longrightarrow>
   add_request q c =
     (case c of
        Some (Known k) \<Rightarrow>
          Some (Known (if TERMINATION_REASON_PRIORITY a > TERMINATION_REASON_PRIORITY k then a else k))
      | _ \<Rightarrow> Some (Known a))"
  by (auto simp: add_request_def choose_known split: option.splits reason.splits)

lemma add_request_commute:
  assumes "is_known (fst p)" and "is_known (fst q)"
  shows "add_request p \<circ> add_request q = add_request q \<circ> add_request p"
proof -
  obtain a where a: "normalize_termination_request (fst p) (snd p) = Known a"
    using assms(1) by (rule known_normalE)
  obtain b where b: "normalize_termination_request (fst q) (snd q) = Known b"
    using assms(2) by (rule known_normalE)
  show ?thesis
    using priority_inj [of a b]
    by (auto simp: fun_eq_iff add_request_known [OF a] add_request_known [OF b] priority_inj
        split: option.splits reason.splits)
qed

lemma resolve_requests_mset:
  assumes "\<forall>q \<in> set reqs. is_known (fst q)" and "mset reqs = mset reqs'"
  shows "resolve_requests c reqs = resolve_requests c reqs'"
  unfolding resolve_requests_def
  by (rule fold_multiset_equiv [THEN fun_cong]) (use assms in \<open>auto intro: add_request_commute\<close>)

lemma resolve_requests_upper:
  assumes "\<forall>q \<in> set reqs. is_known (fst q)"
  shows "(\<forall>k. c = Some (Known k) \<longrightarrow>
            (\<exists>w. resolve_requests c reqs = Some (Known w) \<and>
                 TERMINATION_REASON_PRIORITY k \<le> TERMINATION_REASON_PRIORITY w)) \<and>
         (\<forall>q \<in> set reqs. \<exists>a w. normalize_termination_request (fst q) (snd q) = Known a \<and>
            resolve_requests c reqs = Some (Known w) \<and>
            TERMINATION_REASON_PRIORITY a \<le> TERMINATION_REASON_PRIORITY w)"
  using assms
proof (induction reqs arbitrary: c)
  case Nil
  then show ?case by (auto simp: resolve_requests_def)
next
  case (Cons q reqs)
  from Cons.prems have "is_known (fst q)" by simp
  then obtain a where a: "normalize_termination_request (fst q) (snd q) = Known a"
    by (rule known_normalE)
  obtain m where m: "add_request q c = Some (Known m)"
      "TERMINATION_REASON_PRIORITY a \<le> TERMINATION_REASON_PRIORITY m"
      "\<forall>k. c = Some (Known k) \<longrightarrow> TERMINATION_REASON_PRIORITY k \<le> TERMINATION_REASON_PRIORITY m"
  proof (cases "\<exists>k. c = Some (Known k)")
    case True
    then obtain k where "c = Some (Known k)" by blast
    then show ?thesis
      using that [of "if TERMINATION_REASON_PRIORITY a > TERMINATION_REASON_PRIORITY k then a else k"]
      by (simp add: add_request_known [OF a])
  next
    case False
    then show ?thesis
      using that [of a] by (auto simp: add_request_known [OF a] split: option.splits reason.splits)
  qed
  have step: "resolve_requests c (q # reqs) = resolve_requests (Some (Known m)) reqs"
    by (simp add: resolve_requests_def m(1))
  from Cons.IH [of "Some (Known m)"] Cons.prems obtain w where
    w: "resolve_requests (Some (Known m)) reqs = Some (Known w)"
       "TERMINATION_REASON_PRIORITY m \<le> TERMINATION_REASON_PRIORITY w"
    by auto
  have "\<forall>p \<in> set reqs. \<exists>b. normalize_termination_request (fst p) (snd p) = Known b \<and>
          TERMINATION_REASON_PRIORITY b \<le> TERMINATION_REASON_PRIORITY w"
    using Cons.IH [of "Some (Known m)"] Cons.prems w(1) by fastforce
  then show ?case using a m w step by (auto intro: le_trans)
qed

lemma resolve_requests_source:
  assumes "\<forall>q \<in> set reqs. is_known (fst q)"
  shows "resolve_requests c reqs = c \<or>
         (\<exists>q \<in> set reqs. resolve_requests c reqs =
            Some (normalize_termination_request (fst q) (snd q)))"
  using assms
proof (induction reqs arbitrary: c)
  case Nil
  then show ?case by (simp add: resolve_requests_def)
next
  case (Cons q reqs)
  have "add_request q c = c \<or>
        add_request q c = Some (normalize_termination_request (fst q) (snd q))"
    by (auto simp: add_request_def choose_termination_reason_def Let_def split: option.splits)
  moreover have "resolve_requests c (q # reqs) = resolve_requests (add_request q c) reqs"
    by (simp add: resolve_requests_def)
  ultimately show ?case using Cons.IH [of "add_request q c"] Cons.prems by auto
qed

lemma terminal_status_cases:
  "terminal_status_for_termination_reason r \<in> {ERROR, CANCELLED}"
  by (auto simp: terminal_status_for_termination_reason_def split: option.splits)

lemma terminal_status_ERROR_iff:
  "terminal_status_for_termination_reason r = ERROR \<longleftrightarrow> (\<exists>x \<in> FAILURE_TERMINATION_REASONS. r = Some x)"
  by (auto simp: terminal_status_for_termination_reason_def split: option.splits)

section \<open>Admission of nested waits\<close>

lemma nested_wait_accepted_iff:
  "nd_accepted (decide_nested_wait_reservation origin alive reserved) \<longleftrightarrow>
     origin \<in> set alive \<and> (\<exists>w \<in> set alive. w \<noteq> origin \<and> w \<notin> set reserved)"
proof -
  let ?A = "set alive" and ?W = "insert origin (set reserved \<inter> set alive)"
  have "card ?W < card ?A \<longleftrightarrow> ?W \<subset> ?A" if "origin \<in> ?A"
  proof
    have sub: "?W \<subseteq> ?A" using that by auto
    assume "card ?W < card ?A"
    with sub show "?W \<subset> ?A" by (metis less_irrefl psubsetI)
  next
    assume "?W \<subset> ?A"
    then show "card ?W < card ?A" by (simp add: psubset_card_mono)
  qed
  then show ?thesis
    by (auto simp: decide_nested_wait_reservation_def Let_def not_le)
qed

end
