(* ===== verification/Task_Repository.thy ===== *)
theory Task_Repository
  imports Task_Types
begin

text \<open>
  The task table, the dispatch outbox and the repository over them
  (\<^verbatim>\<open>src/modules/task_execution/infra/db_models\<close> and
  \<^verbatim>\<open>src/modules/task_execution/infra/repositories/task_execution.py\<close>).

  Every repository method is one database transaction that locks the rows it changes, so a
  method is one function from the database state to the new one. The clock
  (\<^verbatim>\<open>datetime.now\<close>) and the UUID of a new outbox row are arguments. A violated table
  constraint aborts the transaction with \<open>IntegrityError\<close>. Task identifiers compare
  lexicographically in \<^verbatim>\<open>ORDER BY\<close>.
\<close>

section \<open>Tables\<close>

datatype OutboxStatus = OB_PENDING | OB_PUBLISHED | OB_CANCELLED

record TaskRecord =
  tr_task_id :: task_id
  tr_mode :: PipelineExecutionMode
  tr_force_exec :: bool
  tr_status :: TaskExecutionStatus
  tr_termination_reason :: "reason option"
  tr_source :: TaskSource
  tr_message :: "string option"
  tr_assigned_worker_id :: "worker_id option"
  tr_queued_at :: datetime
  tr_started_at :: "datetime option"
  tr_finished_at :: "datetime option"
  tr_updated_at :: datetime
  tr_user_id :: string
  tr_organization_id :: string
  tr_project_id :: string
  tr_schedule_run_id :: "string option"
  tr_schedule_attempt :: "int option"

record TaskDispatchOutboxRecord =
  ob_id :: string
  ob_task_id :: task_id
  ob_payload :: json
  ob_status :: OutboxStatus
  ob_created_at :: datetime
  ob_published_at :: "datetime option"
  ob_attempts :: int
  ob_last_error :: "string option"

record db =
  db_tasks :: "TaskRecord list"
  db_outbox :: "TaskDispatchOutboxRecord list"

datatype te_error =
    ValueError
  | IntegrityError
  | InvalidReconciliationTerminationReason
  | InvalidPendingExecutionFailureReason

definition empty_db :: db where
  "empty_db = \<lparr>db_tasks = [], db_outbox = []\<rparr>"

abbreviation task_of :: "db \<Rightarrow> task_id \<Rightarrow> TaskRecord option" where
  "task_of d tid \<equiv> row_get tr_task_id tid (db_tasks d)"

abbreviation dispatch_of :: "db \<Rightarrow> task_id \<Rightarrow> TaskDispatchOutboxRecord option" where
  "dispatch_of d tid \<equiv> row_get ob_task_id tid (db_outbox d)"

section \<open>Entities of rows\<close>

definition to_entity :: "TaskRecord \<Rightarrow> TaskExecution" where
  "to_entity t = \<lparr>
     te_task_id = tr_task_id t,
     te_user_id = tr_user_id t,
     te_organization_id = tr_organization_id t,
     te_project_id = tr_project_id t,
     te_mode = tr_mode t,
     te_source = tr_source t,
     te_status = tr_status t,
     te_force_exec = tr_force_exec t,
     te_queued_at = tr_queued_at t,
     te_schedule_run_id = tr_schedule_run_id t,
     te_schedule_attempt = tr_schedule_attempt t,
     te_assigned_worker_id = tr_assigned_worker_id t,
     te_termination_reason = tr_termination_reason t,
     te_message = tr_message t,
     te_updated_at = Some (tr_updated_at t)\<rparr>"

definition to_dispatch :: "TaskDispatchOutboxRecord \<Rightarrow> DispatchOutboxItem" where
  "to_dispatch r = \<lparr>
     di_dispatch_id = ob_id r,
     di_task_id = ob_task_id r,
     di_payload = ob_payload r,
     di_created_at = ob_created_at r,
     di_published_at = ob_published_at r,
     di_attempts = ob_attempts r\<rparr>"

text \<open>The row a repository method builds from an entity; the other columns take their defaults.\<close>

definition new_task_record ::
    "TaskExecution \<Rightarrow> TaskExecutionStatus \<Rightarrow> datetime \<Rightarrow> TaskRecord" where
  "new_task_record x st now = \<lparr>
     tr_task_id = te_task_id x,
     tr_mode = te_mode x,
     tr_force_exec = te_force_exec x,
     tr_status = st,
     tr_termination_reason = None,
     tr_source = te_source x,
     tr_message = None,
     tr_assigned_worker_id = None,
     tr_queued_at = te_queued_at x,
     tr_started_at = None,
     tr_finished_at = None,
     tr_updated_at = now,
     tr_user_id = te_user_id x,
     tr_organization_id = te_organization_id x,
     tr_project_id = te_project_id x,
     tr_schedule_run_id = te_schedule_run_id x,
     tr_schedule_attempt = te_schedule_attempt x\<rparr>"

definition new_outbox_record :: "string \<Rightarrow> task_id \<Rightarrow> json \<Rightarrow> datetime \<Rightarrow> TaskDispatchOutboxRecord" where
  "new_outbox_record oid tid payload now = \<lparr>
     ob_id = oid,
     ob_task_id = tid,
     ob_payload = payload,
     ob_status = OB_PENDING,
     ob_created_at = now,
     ob_published_at = None,
     ob_attempts = 0,
     ob_last_error = None\<rparr>"

text \<open>
  The constraints of the \<^verbatim>\<open>tasks\<close> table: the primary key, the unique pair of schedule run
  and attempt (rows with a NULL in the pair never collide) and the positive attempt.
\<close>

definition schedule_slot :: "TaskRecord \<Rightarrow> (string \<times> int) option" where
  "schedule_slot t =
     (case (tr_schedule_run_id t, tr_schedule_attempt t) of
        (Some rid, Some attempt) \<Rightarrow> Some (rid, attempt)
      | _ \<Rightarrow> None)"

definition task_insert_ok :: "TaskRecord \<Rightarrow> TaskRecord list \<Rightarrow> bool" where
  "task_insert_ok t ts \<longleftrightarrow>
     tr_task_id t \<notin> tr_task_id ` set ts \<and>
     (schedule_slot t = None \<or> schedule_slot t \<notin> schedule_slot ` set ts) \<and>
     (case tr_schedule_attempt t of None \<Rightarrow> True | Some n \<Rightarrow> n \<ge> 1)"

definition insert_task :: "TaskRecord \<Rightarrow> db \<Rightarrow> (te_error, db) result" where
  "insert_task t d =
     (if task_insert_ok t (db_tasks d) then Inr (d\<lparr>db_tasks := db_tasks d @ [t]\<rparr>)
      else Inl IntegrityError)"

text \<open>Flushing a modified task object.\<close>

definition put_task :: "TaskRecord \<Rightarrow> db \<Rightarrow> db" where
  "put_task t d = d\<lparr>db_tasks := row_put tr_task_id t (db_tasks d)\<rparr>"

text \<open>Unpublished dispatches of the given tasks are cancelled with them.\<close>

definition cancel_dispatches :: "task_id list \<Rightarrow> db \<Rightarrow> db" where
  "cancel_dispatches tids d =
     d\<lparr>db_outbox := rows_update (\<lambda>r. ob_task_id r \<in> set tids \<and> ob_published_at r = None)
                      (\<lambda>r. r\<lparr>ob_status := OB_CANCELLED\<rparr>) (db_outbox d)\<rparr>"

section \<open>Creation and admission to the outbox\<close>

definition create_pending ::
    "TaskExecution \<Rightarrow> datetime \<Rightarrow> db \<Rightarrow> (te_error, TaskExecution \<times> db) result" where
  "create_pending x now d =
     (case task_of d (te_task_id x) of
        Some existing \<Rightarrow> Inr (to_entity existing, d)
      | None \<Rightarrow>
          let task = new_task_record x PENDING now in
          bind_result (insert_task task d) (\<lambda>d'. Inr (to_entity task, d')))"

definition supersede_row :: "datetime \<Rightarrow> TaskRecord \<Rightarrow> TaskRecord" where
  "supersede_row now t = t\<lparr>
     tr_status := CANCELLED,
     tr_termination_reason := Some (Known SUPERSEDED_BY_NEWER_EXECUTION),
     tr_finished_at := Some now,
     tr_updated_at := now\<rparr>"

definition root_candidates :: "string \<Rightarrow> TaskRecord list \<Rightarrow> TaskRecord list" where
  "root_candidates project ts =
     rev (sort_key (\<lambda>t. (tr_queued_at t, tr_task_id t))
       (filter (\<lambda>t. tr_project_id t = project \<and> tr_source t \<in> ROOT_EXECUTION_SOURCES \<and>
                    tr_status t \<in> SUPERSEDABLE_STATUSES) ts))"

definition coalesce_root_executions ::
    "TaskRecord \<Rightarrow> datetime \<Rightarrow> db \<Rightarrow> TaskRecord \<times> TaskExecution list \<times> db" where
  "coalesce_root_executions current now d =
     (case root_candidates (tr_project_id current) (db_tasks d) of
        [] \<Rightarrow> (current, [], d)
      | freshest # stale \<Rightarrow>
          if stale = [] then (current, [], d)
          else
            let superseded = map to_entity stale;
                stale_ids = map tr_task_id stale;
                d1 = d\<lparr>db_tasks := rows_update (\<lambda>t. tr_task_id t \<in> set stale_ids)
                                     (supersede_row now) (db_tasks d)\<rparr>;
                d2 = cancel_dispatches stale_ids d1;
                current' = (if tr_task_id current \<in> set stale_ids
                            then supersede_row now current else current)
            in (current', superseded, d2))"

text \<open>
  The first half of \<^verbatim>\<open>enqueue_with_dispatch\<close>: a new row is inserted as QUEUED, a PENDING
  row becomes QUEUED, a QUEUED row is taken as it is, and any other row ends the method
  (\<open>None\<close>).
\<close>

definition enqueue_admit ::
    "TaskExecution \<Rightarrow> datetime \<Rightarrow> db \<Rightarrow> (te_error, (TaskRecord \<times> db) option) result" where
  "enqueue_admit x now d =
     (case task_of d (te_task_id x) of
        None \<Rightarrow>
          let task = new_task_record x QUEUED now in
          bind_result (insert_task task d) (\<lambda>d'. Inr (Some (task, d')))
      | Some task \<Rightarrow>
          if tr_status task = PENDING
          then let task' = task\<lparr>tr_status := QUEUED, tr_updated_at := now\<rparr>
               in Inr (Some (task', put_task task' d))
          else if tr_status task \<noteq> QUEUED then Inr None
          else Inr (Some (task, d)))"

definition add_outbox :: "task_id \<Rightarrow> json \<Rightarrow> string \<Rightarrow> datetime \<Rightarrow> db \<Rightarrow> db" where
  "add_outbox tid payload oid now d =
     (case dispatch_of d tid of
        Some r \<Rightarrow> d
      | None \<Rightarrow> d\<lparr>db_outbox := db_outbox d @ [new_outbox_record oid tid payload now]\<rparr>)"

definition enqueue_with_dispatch ::
    "TaskExecution \<Rightarrow> json \<Rightarrow> string \<Rightarrow> datetime \<Rightarrow> db \<Rightarrow>
     (te_error, EnqueueTaskResult \<times> db) result" where
  "enqueue_with_dispatch x payload oid now d =
     bind_result (enqueue_admit x now d) (\<lambda>admitted.
       case admitted of
         None \<Rightarrow> Inr (\<lparr>er_execution = to_entity (the (task_of d (te_task_id x))),
                         er_superseded = []\<rparr>, d)
       | Some (task, d1) \<Rightarrow>
           let (task', superseded, d2) =
                 (if te_source x \<in> ROOT_EXECUTION_SOURCES
                  then coalesce_root_executions task now d1 else (task, [], d1));
               res = \<lparr>er_execution = to_entity task', er_superseded = superseded\<rparr>
           in if te_source x \<in> ROOT_EXECUTION_SOURCES \<and> tr_status task' = CANCELLED
              then Inr (res, d2)
              else Inr (res, add_outbox (te_task_id x) payload oid now d2))"

section \<open>Worker transitions\<close>

definition claim :: "task_id \<Rightarrow> worker_id \<Rightarrow> datetime \<Rightarrow> db \<Rightarrow> bool \<times> db" where
  "claim tid wid now d =
     (let p = (\<lambda>t. tr_task_id t = tid \<and> tr_status t \<in> CLAIMABLE_STATUSES) in
      (rowcount p (db_tasks d) \<noteq> 0,
       d\<lparr>db_tasks := rows_update p
           (\<lambda>t. t\<lparr>tr_status := STARTED, tr_assigned_worker_id := Some wid,
                  tr_started_at := Some now, tr_updated_at := now\<rparr>) (db_tasks d)\<rparr>))"

definition mark_running :: "task_id \<Rightarrow> worker_id \<Rightarrow> datetime \<Rightarrow> db \<Rightarrow> bool \<times> db" where
  "mark_running tid wid now d =
     (let p = (\<lambda>t. tr_task_id t = tid \<and> tr_status t = STARTED \<and>
                   tr_assigned_worker_id t = Some wid) in
      (rowcount p (db_tasks d) \<noteq> 0,
       d\<lparr>db_tasks := rows_update p (\<lambda>t. t\<lparr>tr_status := RUNNING, tr_updated_at := now\<rparr>)
                       (db_tasks d)\<rparr>))"

definition set_message :: "string option \<Rightarrow> TaskRecord \<Rightarrow> TaskRecord" where
  "set_message m t = (case m of None \<Rightarrow> t | Some s \<Rightarrow> t\<lparr>tr_message := Some s\<rparr>)"

text \<open>The reason \<^verbatim>\<open>finalize\<close> works with: the stored one, unless the worker passes its own.\<close>

definition finalize_reason :: "TaskRecord \<Rightarrow> reason option \<Rightarrow> reason option" where
  "finalize_reason t r =
     (case r of
        None \<Rightarrow> tr_termination_reason t
      | Some req \<Rightarrow> Some (choose_termination_reason (tr_termination_reason t) req False))"

definition finalize_allowed ::
    "TaskRecord \<Rightarrow> worker_id \<Rightarrow> TaskExecutionStatus \<Rightarrow> reason option \<Rightarrow> bool" where
  "finalize_allowed t wid st r \<longleftrightarrow>
     tr_assigned_worker_id t = Some wid \<and>
     tr_status t \<notin> {SUCCESS, ERROR, CANCELLED} \<and>
     (st = SUCCESS \<longrightarrow> tr_status t \<in> {STARTED, RUNNING}) \<and>
     (st \<noteq> SUCCESS \<longrightarrow> tr_status t \<in> {STARTED, RUNNING, CANCEL_REQUESTED}) \<and>
     (finalize_reason t r \<noteq> None \<and> st \<noteq> SUCCESS \<longrightarrow>
        st = terminal_status_for_termination_reason (finalize_reason t r))"

definition finalize_row ::
    "TaskExecutionStatus \<Rightarrow> string option \<Rightarrow> reason option \<Rightarrow> datetime \<Rightarrow> TaskRecord \<Rightarrow> TaskRecord" where
  "finalize_row st msg r now task =
     (let effective_reason = finalize_reason task r;
          task1 = set_message msg (task\<lparr>tr_status := st, tr_finished_at := Some now,
                                        tr_updated_at := now\<rparr>)
      in if effective_reason = None then task1
         else task1\<lparr>tr_termination_reason := effective_reason\<rparr>)"

definition finalize ::
    "task_id \<Rightarrow> worker_id \<Rightarrow> TaskExecutionStatus \<Rightarrow> string option \<Rightarrow> reason option \<Rightarrow>
     datetime \<Rightarrow> db \<Rightarrow> (te_error, bool \<times> db) result" where
  "finalize tid wid st msg r now d =
     (if st \<notin> TERMINAL_STATUSES then Inl ValueError
      else case task_of d tid of
        None \<Rightarrow> Inr (False, d)
      | Some task \<Rightarrow>
          if \<not> finalize_allowed task wid st r then Inr (False, d)
          else Inr (True, put_task (finalize_row st msg r now task) d))"

section \<open>System transitions\<close>

definition reconcile_row :: "reason \<Rightarrow> string option \<Rightarrow> datetime \<Rightarrow> TaskRecord \<Rightarrow> TaskRecord" where
  "reconcile_row effective_reason msg now task =
     set_message msg (task\<lparr>
       tr_status := terminal_status_for_termination_reason (Some effective_reason),
       tr_termination_reason := Some effective_reason,
       tr_finished_at := Some now,
       tr_updated_at := now\<rparr>)"

definition reconcile_allowed :: "TaskRecord \<Rightarrow> reason \<Rightarrow> bool" where
  "reconcile_allowed task effective_reason \<longleftrightarrow>
     tr_status task = CANCEL_REQUESTED \<or>
     (tr_status task \<in> {STARTED, RUNNING} \<and> effective_reason = Known WORKER_LOST)"

definition finalize_reconciled ::
    "task_id \<Rightarrow> reason \<Rightarrow> string option \<Rightarrow> datetime \<Rightarrow> db \<Rightarrow> TaskExecution option \<times> db" where
  "finalize_reconciled tid r msg now d =
     (case task_of d tid of
        None \<Rightarrow> (None, d)
      | Some task \<Rightarrow>
          if tr_status task \<in> {SUCCESS, ERROR, CANCELLED} then (None, d)
          else
            let effective_reason = choose_termination_reason (tr_termination_reason task) r False in
            if \<not> reconcile_allowed task effective_reason then (None, d)
            else
              let task' = reconcile_row effective_reason msg now task
              in (Some (to_entity task'), put_task task' d))"

definition fail_pending_row ::
    "reason option \<Rightarrow> string option \<Rightarrow> datetime \<Rightarrow> TaskRecord \<Rightarrow> TaskRecord" where
  "fail_pending_row r msg now task =
     (let task1 = task\<lparr>tr_status := ERROR\<rparr>;
          task2 = (if r = None then task1 else task1\<lparr>tr_termination_reason := r\<rparr>)
      in set_message msg (task2\<lparr>tr_finished_at := Some now, tr_updated_at := now\<rparr>))"

definition fail_pending ::
    "task_id \<Rightarrow> reason option \<Rightarrow> string option \<Rightarrow> datetime \<Rightarrow> db \<Rightarrow> TaskExecution option \<times> db" where
  "fail_pending tid r msg now d =
     (case task_of d tid of
        None \<Rightarrow> (None, d)
      | Some task \<Rightarrow>
          if r \<noteq> None \<and> tr_status task = ERROR \<and> tr_termination_reason task = r
          then (Some (to_entity task), d)
          else if tr_status task \<noteq> PENDING then (None, d)
          else
            let task' = fail_pending_row r msg now task
            in (Some (to_entity task'), put_task task' d))"

definition stop_row :: "reason \<Rightarrow> datetime \<Rightarrow> TaskRecord \<Rightarrow> TaskRecord" where
  "stop_row effective_reason now task =
     (if tr_status task \<in> {PENDING, QUEUED}
      then task\<lparr>tr_status := CANCELLED, tr_finished_at := Some now,
                tr_termination_reason := Some effective_reason, tr_updated_at := now\<rparr>
      else task\<lparr>tr_status := CANCEL_REQUESTED,
                tr_termination_reason := Some effective_reason, tr_updated_at := now\<rparr>)"

definition request_stop ::
    "task_id \<Rightarrow> reason \<Rightarrow> bool \<Rightarrow> datetime \<Rightarrow> db \<Rightarrow> TaskExecution option \<times> db" where
  "request_stop tid r hard now d =
     (case task_of d tid of
        None \<Rightarrow> (None, d)
      | Some task \<Rightarrow>
          if tr_status task \<in> {SUCCESS, ERROR, CANCELLED} then (Some (to_entity task), d)
          else
            let effective_reason = choose_termination_reason (tr_termination_reason task) r hard;
                d' = (if tr_status task \<in> {PENDING, QUEUED} then cancel_dispatches [tid] d else d);
                task' = stop_row effective_reason now task
            in (Some (to_entity task'), put_task task' d'))"

section \<open>Queries\<close>

definition get_task :: "task_id \<Rightarrow> db \<Rightarrow> TaskExecution option" where
  "get_task tid d = map_option to_entity (task_of d tid)"

definition list_for_reconciliation ::
    "TaskExecutionStatus list \<Rightarrow> nat \<Rightarrow> db \<Rightarrow> TaskExecution list" where
  "list_for_reconciliation statuses limit d =
     (if statuses = [] then []
      else map to_entity (take limit
             (sort_key (\<lambda>t. (tr_updated_at t, tr_task_id t))
               (filter (\<lambda>t. tr_status t \<in> set statuses) (db_tasks d)))))"

text \<open>\<^verbatim>\<open>ORDER BY started_at\<close> puts NULLs last.\<close>

definition nulls_last :: "datetime option \<Rightarrow> nat \<times> datetime" where
  "nulls_last x = (case x of Some v \<Rightarrow> (0, v) | None \<Rightarrow> (1, 0))"

definition list_worker_owned_active :: "nat \<Rightarrow> db \<Rightarrow> TaskExecution list" where
  "list_worker_owned_active limit d =
     map to_entity (take limit
       (sort_key (\<lambda>t. (nulls_last (tr_started_at t), tr_task_id t))
         (filter (\<lambda>t. tr_status t \<in> WORKER_OWNED_ACTIVE_STATUSES \<and>
                      tr_assigned_worker_id t \<noteq> None) (db_tasks d))))"

definition is_pending_dispatch :: "TaskDispatchOutboxRecord \<Rightarrow> bool" where
  "is_pending_dispatch r \<longleftrightarrow> ob_status r = OB_PENDING \<and> ob_published_at r = None"

definition pending_dispatches :: "nat \<Rightarrow> db \<Rightarrow> DispatchOutboxItem list" where
  "pending_dispatches limit d =
     map to_dispatch (take limit (sort_key ob_created_at (filter is_pending_dispatch (db_outbox d))))"

section \<open>Outbox\<close>

definition mark_dispatch_published :: "string \<Rightarrow> datetime \<Rightarrow> db \<Rightarrow> db" where
  "mark_dispatch_published did now d =
     d\<lparr>db_outbox := rows_update (\<lambda>r. ob_id r = did \<and> ob_published_at r = None)
         (\<lambda>r. r\<lparr>ob_status := OB_PUBLISHED, ob_published_at := Some now, ob_last_error := None\<rparr>)
         (db_outbox d)\<rparr>"

definition record_dispatch_failure :: "string \<Rightarrow> string \<Rightarrow> db \<Rightarrow> db" where
  "record_dispatch_failure did error d =
     d\<lparr>db_outbox := rows_update (\<lambda>r. ob_id r = did)
         (\<lambda>r. r\<lparr>ob_attempts := ob_attempts r + 1, ob_last_error := Some (take 1000 error)\<rparr>)
         (db_outbox d)\<rparr>"

section \<open>Well-formed databases\<close>

text \<open>
  The constraints the schema declares: primary keys, one outbox row per task, the foreign key
  of the outbox, and the unique pair of schedule run and attempt.
\<close>

definition db_wf :: "db \<Rightarrow> bool" where
  "db_wf d \<longleftrightarrow>
     distinct (map tr_task_id (db_tasks d)) \<and>
     distinct (map ob_task_id (db_outbox d)) \<and>
     ob_task_id ` set (db_outbox d) \<subseteq> tr_task_id ` set (db_tasks d) \<and>
     distinct (filter (\<lambda>s. s \<noteq> None) (map schedule_slot (db_tasks d)))"

lemma db_wf_empty: "db_wf empty_db"
  by (simp add: db_wf_def empty_db_def)

lemma db_wf_ids [dest]: "db_wf d \<Longrightarrow> distinct (map tr_task_id (db_tasks d))"
  by (simp add: db_wf_def)

lemma db_wf_outbox_ids: "db_wf d \<Longrightarrow> distinct (map ob_task_id (db_outbox d))"
  by (simp add: db_wf_def)

lemma dispatch_task_exists:
  assumes "db_wf d" and "dispatch_of d tid = Some r"
  shows "\<exists>t. task_of d tid = Some t"
proof -
  have "tid \<in> tr_task_id ` set (db_tasks d)"
    using assms by (auto simp: db_wf_def dest!: row_get_SomeD)
  then show ?thesis
    using row_get_None_iff [of tr_task_id tid "db_tasks d"] by auto
qed

text \<open>
  Updates that keep the identifier and the schedule columns of every row they change keep a
  database well formed.
\<close>

lemma db_wf_cong:
  assumes "db_wf d"
    and "map tr_task_id (db_tasks d') = map tr_task_id (db_tasks d)"
    and "map schedule_slot (db_tasks d') = map schedule_slot (db_tasks d)"
    and "map ob_task_id (db_outbox d') = map ob_task_id (db_outbox d)"
  shows "db_wf d'"
proof -
  have "tr_task_id ` set (db_tasks d') = tr_task_id ` set (db_tasks d)"
       "ob_task_id ` set (db_outbox d') = ob_task_id ` set (db_outbox d)"
    using assms(2,4) by (simp_all flip: set_map)
  then show ?thesis
    using assms unfolding db_wf_def by argo
qed

lemma db_wf_tasks_update:
  assumes "db_wf d"
    and "\<And>t. p t \<Longrightarrow> tr_task_id (f t) = tr_task_id t \<and> schedule_slot (f t) = schedule_slot t"
  shows "db_wf (d\<lparr>db_tasks := rows_update p f (db_tasks d)\<rparr>)"
  using assms by (auto intro!: db_wf_cong [OF assms(1)] simp: map_key_rows_update)

lemma db_wf_outbox_update:
  assumes "db_wf d" and "\<And>r. p r \<Longrightarrow> ob_task_id (f r) = ob_task_id r"
  shows "db_wf (d\<lparr>db_outbox := rows_update p f (db_outbox d)\<rparr>)"
  using assms by (auto intro!: db_wf_cong [OF assms(1)] simp: map_key_rows_update)

lemma db_wf_put_task:
  assumes "db_wf d" and "task_of d (tr_task_id t') = Some t" and "schedule_slot t' = schedule_slot t"
  shows "db_wf (put_task t' d)"
proof (rule db_wf_cong [OF assms(1)])
  have "x = t" if "x \<in> set (db_tasks d)" "tr_task_id x = tr_task_id t'" for x
    using that assms(1,2) row_get_unique [of tr_task_id "db_tasks d" x] by (auto simp: db_wf_def)
  then show "map schedule_slot (db_tasks (put_task t' d)) = map schedule_slot (db_tasks d)"
    using assms(3) by (auto simp: put_task_def row_put_def rows_update_def)
qed (simp_all add: put_task_def)

lemma insert_taskD:
  assumes "insert_task t d = Inr d'"
  shows "d' = d\<lparr>db_tasks := db_tasks d @ [t]\<rparr>" "tr_task_id t \<notin> tr_task_id ` set (db_tasks d)"
    "schedule_slot t = None \<or> schedule_slot t \<notin> schedule_slot ` set (db_tasks d)"
  using assms by (auto simp: insert_task_def task_insert_ok_def split: if_split_asm)

lemma db_wf_insert_task:
  assumes "db_wf d" and "insert_task t d = Inr d'"
  shows "db_wf d'"
  using assms(1) insert_taskD [OF assms(2)]
  by (auto simp: db_wf_def simp del: not_None_eq split_paired_Ex)

lemma db_wf_cancel_dispatches: "db_wf d \<Longrightarrow> db_wf (cancel_dispatches tids d)"
  unfolding cancel_dispatches_def by (rule db_wf_outbox_update) auto

lemma db_wf_add_outbox:
  assumes "db_wf d" and "task_of d tid \<noteq> None"
  shows "db_wf (add_outbox tid payload oid now d)"
  using assms
  by (auto simp: db_wf_def add_outbox_def new_outbox_record_def row_get_None_iff image_iff
      split: option.splits dest: row_get_SomeD)

section \<open>What the queries by identifier see\<close>

lemma tasks_of_outbox_ops [simp]:
  "db_tasks (cancel_dispatches tids d) = db_tasks d"
  "db_tasks (add_outbox tid payload oid now d) = db_tasks d"
  "db_tasks (mark_dispatch_published did now d) = db_tasks d"
  "db_tasks (record_dispatch_failure did err d) = db_tasks d"
  by (auto simp: cancel_dispatches_def add_outbox_def mark_dispatch_published_def
      record_dispatch_failure_def split: option.splits)

lemma outbox_put_task [simp]: "db_outbox (put_task t d) = db_outbox d"
  by (simp add: put_task_def)

lemma task_of_put_task [lifecycle_simps]:
  "db_wf d \<Longrightarrow> task_of (put_task t d) tid =
     (if tid = tr_task_id t then map_option (\<lambda>_. t) (task_of d tid) else task_of d tid)"
  by (simp add: put_task_def row_get_row_put db_wf_def)

lemma task_of_insert_task:
  assumes "insert_task t d = Inr d'"
  shows "task_of d' tid = (if tid = tr_task_id t then Some t else task_of d tid)"
proof -
  have "task_of d (tr_task_id t) = None"
    using insert_taskD(2) [OF assms] by (simp add: row_get_None_iff)
  then show ?thesis
    by (auto simp: insert_taskD(1) [OF assms] row_get_snoc split: option.splits)
qed

lemma task_id_of: "task_of d tid = Some t \<Longrightarrow> tr_task_id t = tid"
  by (auto dest: row_get_SomeD)

lemma task_of_in_set: "db_wf d \<Longrightarrow> t \<in> set (db_tasks d) \<Longrightarrow> task_of d (tr_task_id t) = Some t"
  by (auto simp: db_wf_def intro: row_get_unique)

lemma set_message_fields [simp]:
  "tr_task_id (set_message m t) = tr_task_id t"
  "tr_status (set_message m t) = tr_status t"
  "tr_termination_reason (set_message m t) = tr_termination_reason t"
  "tr_assigned_worker_id (set_message m t) = tr_assigned_worker_id t"
  "tr_started_at (set_message m t) = tr_started_at t"
  "tr_finished_at (set_message m t) = tr_finished_at t"
  "tr_source (set_message m t) = tr_source t"
  "tr_project_id (set_message m t) = tr_project_id t"
  "tr_queued_at (set_message m t) = tr_queued_at t"
  "tr_schedule_run_id (set_message m t) = tr_schedule_run_id t"
  "tr_schedule_attempt (set_message m t) = tr_schedule_attempt t"
  by (simp_all add: set_message_def split: option.splits)

lemma supersede_row_fields [simp]:
  "tr_task_id (supersede_row now t) = tr_task_id t"
  "tr_status (supersede_row now t) = CANCELLED"
  "tr_termination_reason (supersede_row now t) = Some (Known SUPERSEDED_BY_NEWER_EXECUTION)"
  "tr_finished_at (supersede_row now t) = Some now"
  "tr_started_at (supersede_row now t) = tr_started_at t"
  "tr_assigned_worker_id (supersede_row now t) = tr_assigned_worker_id t"
  "tr_source (supersede_row now t) = tr_source t"
  "tr_project_id (supersede_row now t) = tr_project_id t"
  "tr_queued_at (supersede_row now t) = tr_queued_at t"
  "tr_schedule_run_id (supersede_row now t) = tr_schedule_run_id t"
  "tr_schedule_attempt (supersede_row now t) = tr_schedule_attempt t"
  by (simp_all add: supersede_row_def)

lemma task_of_claim [lifecycle_simps]:
  "db_wf d \<Longrightarrow> task_of (snd (claim tid wid now d)) tid' =
     map_option (\<lambda>t. if tid' = tid \<and> tr_status t \<in> CLAIMABLE_STATUSES
                     then t\<lparr>tr_status := STARTED, tr_assigned_worker_id := Some wid,
                            tr_started_at := Some now, tr_updated_at := now\<rparr> else t)
       (task_of d tid')"
  unfolding claim_def Let_def
  by (auto simp: row_get_rows_update db_wf_ids map_option_case split: option.splits dest: row_get_SomeD)

lemma claim_True_iff:
  "db_wf d \<Longrightarrow> fst (claim tid wid now d) \<longleftrightarrow>
     (\<exists>t. task_of d tid = Some t \<and> tr_status t \<in> CLAIMABLE_STATUSES)"
  using rowcount_pos_iff [of "\<lambda>t. tr_task_id t = tid \<and> tr_status t \<in> CLAIMABLE_STATUSES" "db_tasks d"]
  by (auto simp: claim_def Let_def dest: row_get_SomeD task_of_in_set)

lemma task_of_mark_running [lifecycle_simps]:
  "db_wf d \<Longrightarrow> task_of (snd (mark_running tid wid now d)) tid' =
     map_option (\<lambda>t. if tid' = tid \<and> tr_status t = STARTED \<and> tr_assigned_worker_id t = Some wid
                     then t\<lparr>tr_status := RUNNING, tr_updated_at := now\<rparr> else t)
       (task_of d tid')"
  unfolding mark_running_def Let_def
  by (auto simp: row_get_rows_update db_wf_ids map_option_case split: option.splits dest: row_get_SomeD)

lemma mark_running_True_iff:
  "db_wf d \<Longrightarrow> fst (mark_running tid wid now d) \<longleftrightarrow>
     (\<exists>t. task_of d tid = Some t \<and> tr_status t = STARTED \<and> tr_assigned_worker_id t = Some wid)"
  using rowcount_pos_iff [of "\<lambda>t. tr_task_id t = tid \<and> tr_status t = STARTED \<and>
                                  tr_assigned_worker_id t = Some wid" "db_tasks d"]
  by (auto simp: mark_running_def Let_def dest: row_get_SomeD task_of_in_set)

section \<open>Coalescing\<close>

definition stale_ids :: "string \<Rightarrow> TaskRecord list \<Rightarrow> task_id list" where
  "stale_ids project ts = map tr_task_id (tl (root_candidates project ts))"

lemma rows_update_none: "(\<And>r. \<not> p r) \<Longrightarrow> rows_update p f t = t"
  by (simp add: rows_update_def)

lemma coalesce_eq:
  "coalesce_root_executions current now d =
     (let ids = stale_ids (tr_project_id current) (db_tasks d) in
      (if tr_task_id current \<in> set ids then supersede_row now current else current,
       map to_entity (tl (root_candidates (tr_project_id current) (db_tasks d))),
       cancel_dispatches ids
         (d\<lparr>db_tasks := rows_update (\<lambda>t. tr_task_id t \<in> set ids) (supersede_row now) (db_tasks d)\<rparr>)))"
  by (auto simp: coalesce_root_executions_def stale_ids_def Let_def rows_update_none
      cancel_dispatches_def split: list.splits)

lemma set_root_candidates:
  "set (root_candidates p ts) =
     {t \<in> set ts. tr_project_id t = p \<and> tr_source t \<in> ROOT_EXECUTION_SOURCES \<and>
                  tr_status t \<in> SUPERSEDABLE_STATUSES}"
  by (auto simp: root_candidates_def)

lemma distinct_root_candidates:
  "distinct (map tr_task_id ts) \<Longrightarrow> distinct (map tr_task_id (root_candidates p ts))"
  by (simp add: root_candidates_def distinct_ordered_rows flip: rev_map)

lemma task_of_coalesce:
  assumes "db_wf d" and "coalesce_root_executions current now d = (current', stale, d')"
  shows "task_of d' tid =
    map_option (\<lambda>t. if tid \<in> set (stale_ids (tr_project_id current) (db_tasks d))
                    then supersede_row now t else t) (task_of d tid)"
  using assms
  by (auto simp: coalesce_eq Let_def row_get_rows_update db_wf_ids map_option_case
      split: option.splits dest: row_get_SomeD)

lemma db_wf_coalesce:
  assumes "db_wf d" and "coalesce_root_executions current now d = (current', stale, d')"
  shows "db_wf d'"
  using assms(2)
  by (auto simp: coalesce_eq Let_def schedule_slot_def
      intro!: db_wf_cancel_dispatches db_wf_tasks_update [OF assms(1)])

text \<open>A stale identifier belongs to a root execution of the project that had not started.\<close>

lemma stale_idsD:
  assumes "db_wf d" and "tid \<in> set (stale_ids p (db_tasks d))" and "task_of d tid = Some t"
  shows "tr_project_id t = p \<and> tr_source t \<in> ROOT_EXECUTION_SOURCES \<and>
         tr_status t \<in> SUPERSEDABLE_STATUSES"
proof -
  obtain u where "u \<in> set (root_candidates p (db_tasks d))" and id: "tr_task_id u = tid"
    using assms(2) by (cases "root_candidates p (db_tasks d)") (auto simp: stale_ids_def)
  then have u: "u \<in> set (db_tasks d)" "tr_project_id u = p" "tr_source u \<in> ROOT_EXECUTION_SOURCES"
      "tr_status u \<in> SUPERSEDABLE_STATUSES"
    unfolding set_root_candidates by blast+
  moreover have "u = t" using task_of_in_set [OF assms(1) u(1)] id assms(3) by simp
  ultimately show ?thesis by blast
qed

text \<open>Every candidate but the freshest is stale.\<close>

lemma candidate_stale_or_freshest:
  assumes "db_wf d" and "t \<in> set (root_candidates p (db_tasks d))"
  shows "tr_task_id t \<in> set (stale_ids p (db_tasks d)) \<longleftrightarrow> t \<noteq> hd (root_candidates p (db_tasks d))"
proof -
  obtain f st where c: "root_candidates p (db_tasks d) = f # st"
    using assms(2) by (cases "root_candidates p (db_tasks d)") auto
  have "distinct (map tr_task_id (f # st))"
    using distinct_root_candidates [of "db_tasks d" p] assms(1) c by (simp add: db_wf_ids)
  then show ?thesis using assms(2) c by (auto simp: stale_ids_def)
qed

text \<open>The freshest candidate is the greatest by queueing time, then by identifier.\<close>

lemma freshest_greatest:
  assumes "t \<in> set (root_candidates p ts)"
  shows "(tr_queued_at t, tr_task_id t) \<le>
         (tr_queued_at (hd (root_candidates p ts)), tr_task_id (hd (root_candidates p ts)))"
proof -
  let ?k = "\<lambda>t. (tr_queued_at t, tr_task_id t)"
  obtain xs where xs: "root_candidates p ts = rev (sort_key ?k xs)"
    by (simp add: root_candidates_def)
  have "sorted (map ?k (rev (root_candidates p ts)))"
    by (simp add: xs)
  then show ?thesis
    using assms by (cases "root_candidates p ts") (auto simp: sorted_append)
qed

end
