(* ===== verification/Task_Lifecycle.thy ===== *)
theory Task_Lifecycle
  imports Task_Repository
begin

text \<open>
  The use cases of task execution (\<^verbatim>\<open>src/modules/task_execution/flow/use_cases\<close>) over the
  repository, the labelled transition system of all of them, and the per-task state machine it
  refines.

  The Celery transport and the stop notification are outside the sources: a use case returns
  the calls it makes, and \<open>revoke\<close> and \<open>publish\<close> are arguments that say whether the
  transport accepts a call. The notification of \<^verbatim>\<open>ValkeyTaskCancellationGateway.notify_stop\<close>
  swallows its failures and so has no outcome.
\<close>

section \<open>Use cases\<close>

datatype transport_call =
    NotifyStop task_id
  | Revoke task_id bool  \<comment> \<open>\<^verbatim>\<open>revoke(task_id, terminate=...)\<close>\<close>

datatype use_case_error = Flow te_error | TransportError

definition create_pending_execution ::
    "TaskExecution \<Rightarrow> datetime \<Rightarrow> db \<Rightarrow> (te_error, TaskExecution \<times> db) result" where
  "create_pending_execution x now d =
     (if te_status x \<noteq> PENDING then Inl ValueError else create_pending x now d)"

text \<open>Revoking superseded deliveries is best effort: a failing \<open>revoke\<close> is skipped.\<close>

definition enqueue_task ::
    "TaskExecution \<Rightarrow> json \<Rightarrow> string \<Rightarrow> datetime \<Rightarrow> db \<Rightarrow>
     (te_error, EnqueueTaskResult \<times> transport_call list \<times> db) result" where
  "enqueue_task x payload oid now d =
     bind_result (enqueue_with_dispatch x payload oid now d) (\<lambda>(res, d').
       Inr (res, map (\<lambda>s. Revoke (te_task_id s) False) (er_superseded res), d'))"

definition claim_task :: "task_id \<Rightarrow> worker_id \<Rightarrow> datetime \<Rightarrow> db \<Rightarrow> bool \<times> db" where
  "claim_task tid wid now d = claim tid wid now d"

definition mark_task_running :: "task_id \<Rightarrow> worker_id \<Rightarrow> datetime \<Rightarrow> db \<Rightarrow> bool \<times> db" where
  "mark_task_running tid wid now d = mark_running tid wid now d"

definition finalize_task ::
    "task_id \<Rightarrow> worker_id \<Rightarrow> TaskExecutionStatus \<Rightarrow> string option \<Rightarrow> reason option \<Rightarrow>
     datetime \<Rightarrow> db \<Rightarrow> (te_error, bool \<times> db) result" where
  "finalize_task tid wid st msg r now d = finalize tid wid st msg r now d"

definition fail_pending_execution ::
    "task_id \<Rightarrow> TaskTerminationReason option \<Rightarrow> string option \<Rightarrow> datetime \<Rightarrow> db \<Rightarrow>
     (te_error, TaskExecution option \<times> db) result" where
  "fail_pending_execution tid r msg now d =
     (if r \<notin> {None, Some NESTED_WAIT_CAPACITY_LOST}
      then Inl InvalidPendingExecutionFailureReason
      else Inr (fail_pending tid (map_option Known r) msg now d))"

text \<open>
  The argument of \<^verbatim>\<open>FinalizeReconciledExecutionUseCase\<close> is the reason stored in a task row,
  so it may be absent or a historical string; both are rejected.
\<close>

definition finalize_reconciled_execution ::
    "task_id \<Rightarrow> reason option \<Rightarrow> string option \<Rightarrow> datetime \<Rightarrow> db \<Rightarrow>
     (te_error, TaskExecution option \<times> db) result" where
  "finalize_reconciled_execution tid r msg now d =
     (case r of
        Some (Known k) \<Rightarrow>
          if k \<in> RECONCILIATION_TERMINATION_REASONS
          then Inr (finalize_reconciled tid (Known k) msg now d)
          else Inl InvalidReconciliationTerminationReason
      | _ \<Rightarrow> Inl InvalidReconciliationTerminationReason)"

definition request_stop_task ::
    "(task_id \<Rightarrow> bool \<Rightarrow> bool) \<Rightarrow> task_id \<Rightarrow> TaskTerminationReason \<Rightarrow> datetime \<Rightarrow> db \<Rightarrow>
     (use_case_error, TaskExecution option) result \<times> transport_call list \<times> db" where
  "request_stop_task revoke tid r now d =
     (let (task, d') = request_stop tid (Known r) False now d in
      case task of
        None \<Rightarrow> (Inr None, [], d')
      | Some t \<Rightarrow>
          if te_status t = CANCEL_REQUESTED then (Inr (Some t), [NotifyStop tid], d')
          else if te_status t = CANCELLED \<and> te_termination_reason t = Some (Known r)
          then (if revoke tid False then (Inr (Some t), [Revoke tid False], d')
                else (Inl TransportError, [Revoke tid False], d'))
          else (Inr (Some t), [], d'))"

definition kill_task ::
    "(task_id \<Rightarrow> bool \<Rightarrow> bool) \<Rightarrow> task_id \<Rightarrow> TaskTerminationReason \<Rightarrow> datetime \<Rightarrow> db \<Rightarrow>
     (use_case_error, TaskExecution option) result \<times> transport_call list \<times> db" where
  "kill_task revoke tid r now d =
     (let (task, d') = request_stop tid (Known r) True now d in
      case task of
        None \<Rightarrow> (Inr None, [], d')
      | Some t \<Rightarrow>
          if te_status t = CANCEL_REQUESTED
          then (if revoke tid True then (Inr (Some t), [NotifyStop tid, Revoke tid True], d')
                else (Inl TransportError, [NotifyStop tid, Revoke tid True], d'))
          else if te_status t = CANCELLED \<and> te_termination_reason t = Some (Known r)
          then (if revoke tid False then (Inr (Some t), [Revoke tid False], d')
                else (Inl TransportError, [Revoke tid False], d'))
          else (Inr (Some t), [], d'))"

definition terminate_execution :: "(task_id \<Rightarrow> bool \<Rightarrow> bool) \<Rightarrow> task_id \<Rightarrow> (use_case_error, unit) result" where
  "terminate_execution revoke tid = (if revoke tid True then Inr () else Inl TransportError)"

definition get_task_execution :: "task_id \<Rightarrow> db \<Rightarrow> TaskExecution option" where
  "get_task_execution tid d = get_task tid d"

definition list_worker_owned_active_executions :: "nat \<Rightarrow> db \<Rightarrow> TaskExecution list" where
  "list_worker_owned_active_executions limit d = list_worker_owned_active limit d"

definition list_executions_for_reconciliation ::
    "TaskExecutionStatus list \<Rightarrow> nat \<Rightarrow> db \<Rightarrow> TaskExecution list" where
  "list_executions_for_reconciliation sts limit d = list_for_reconciliation sts limit d"

text \<open>
  One round of the outbox publisher. \<open>publish\<close> returns the error text of a rejected message;
  one instant stands for the clock readings of the round.
\<close>

fun publish_dispatches ::
    "(task_id \<Rightarrow> json \<Rightarrow> string option) \<Rightarrow> datetime \<Rightarrow> DispatchOutboxItem list \<Rightarrow> nat \<Rightarrow> db \<Rightarrow> nat \<times> db" where
  "publish_dispatches publish now [] published d = (published, d)"
| "publish_dispatches publish now (i # items) published d =
     (case publish (di_task_id i) (di_payload i) of
        Some err \<Rightarrow>
          publish_dispatches publish now items published
            (record_dispatch_failure (di_dispatch_id i) err d)
      | None \<Rightarrow>
          publish_dispatches publish now items (Suc published)
            (mark_dispatch_published (di_dispatch_id i) now d))"

definition publish_pending_dispatches ::
    "(task_id \<Rightarrow> json \<Rightarrow> string option) \<Rightarrow> nat \<Rightarrow> datetime \<Rightarrow> db \<Rightarrow> nat \<times> db" where
  "publish_pending_dispatches publish limit now d =
     publish_dispatches publish now (pending_dispatches limit d) 0 d"

section \<open>The reason a worker observes\<close>

text \<open>
  \<^verbatim>\<open>_read_authoritative_reason\<close>: what a poll of the task row tells the waiting worker. A
  stored empty string is falsy and reads as \<^verbatim>\<open>USER_STOP\<close>.
\<close>

definition read_authoritative_reason :: "task_id \<Rightarrow> db \<Rightarrow> string option" where
  "read_authoritative_reason tid d =
     (case task_of d tid of
        None \<Rightarrow> Some ''UNKNOWN''
      | Some t \<Rightarrow>
          if tr_status t \<in> {CANCEL_REQUESTED, CANCELLED}
          then (case tr_termination_reason t of
                  None \<Rightarrow> Some ''USER_STOP''
                | Some r \<Rightarrow> Some (if str_of_reason r = [] then ''USER_STOP'' else str_of_reason r))
          else None)"

section \<open>The transition system\<close>

datatype task_op =
    OpCreatePending TaskExecution
  | OpEnqueue TaskExecution json string
  | OpClaim task_id worker_id
  | OpMarkRunning task_id worker_id
  | OpFinalize task_id worker_id TaskExecutionStatus "string option" "reason option"
  | OpReconcile task_id "reason option" "string option"
  | OpFailPending task_id "TaskTerminationReason option" "string option"
  | OpStop task_id TaskTerminationReason
  | OpKill task_id TaskTerminationReason
  | OpPublished string
  | OpPublishFailed string string

definition commit_or_abort :: "db \<Rightarrow> ('e, 'a) result \<Rightarrow> ('a \<Rightarrow> bool \<times> db) \<Rightarrow> bool \<times> db" where
  "commit_or_abort d r f = (case r of Inl e \<Rightarrow> (False, d) | Inr a \<Rightarrow> f a)"

text \<open>
  The effect of an operation: whether it took hold, and the database it leaves. An operation
  that raises leaves the database as it was.
\<close>

fun op_effect :: "(task_id \<Rightarrow> bool \<Rightarrow> bool) \<Rightarrow> task_op \<Rightarrow> datetime \<Rightarrow> db \<Rightarrow> bool \<times> db" where
  "op_effect rv (OpCreatePending x) now d =
     commit_or_abort d (create_pending_execution x now d) (\<lambda>(_, d'). (True, d'))"
| "op_effect rv (OpEnqueue x payload oid) now d =
     commit_or_abort d (enqueue_task x payload oid now d) (\<lambda>(_, _, d'). (True, d'))"
| "op_effect rv (OpClaim tid wid) now d = claim_task tid wid now d"
| "op_effect rv (OpMarkRunning tid wid) now d = mark_task_running tid wid now d"
| "op_effect rv (OpFinalize tid wid st msg r) now d =
     commit_or_abort d (finalize_task tid wid st msg r now d) id"
| "op_effect rv (OpReconcile tid r msg) now d =
     commit_or_abort d (finalize_reconciled_execution tid r msg now d) (\<lambda>(e, d'). (e \<noteq> None, d'))"
| "op_effect rv (OpFailPending tid r msg) now d =
     commit_or_abort d (fail_pending_execution tid r msg now d) (\<lambda>(e, d'). (e \<noteq> None, d'))"
| "op_effect rv (OpStop tid r) now d =
     (case request_stop_task rv tid r now d of (res, _, d') \<Rightarrow> (res \<noteq> Inr None, d'))"
| "op_effect rv (OpKill tid r) now d =
     (case kill_task rv tid r now d of (res, _, d') \<Rightarrow> (res \<noteq> Inr None, d'))"
| "op_effect rv (OpPublished did) now d = (True, mark_dispatch_published did now d)"
| "op_effect rv (OpPublishFailed did err) now d = (True, record_dispatch_failure did err d)"

text \<open>
  A step of the system: any process performs one operation at some instant. The label records
  the operation, the instant and whether it took hold.
\<close>

type_synonym task_label = "task_op \<times> datetime \<times> bool"

inductive task_step :: "db \<Rightarrow> task_label \<Rightarrow> db \<Rightarrow> bool" where
  task_stepI: "op_effect rv op now d = (ok, d') \<Longrightarrow> task_step d (op, now, ok) d'"

inductive_cases task_stepE: "task_step d (op, now, ok) d'"

section \<open>The state machine of one task\<close>

text \<open>The moves of a task row, by the operation that makes them.\<close>

inductive evolves :: "task_op \<Rightarrow> datetime \<Rightarrow> TaskRecord \<Rightarrow> TaskRecord \<Rightarrow> bool" where
  ev_same: "evolves op now t t"
| ev_queued:
    "tr_status t = PENDING \<Longrightarrow> te_task_id x = tr_task_id t \<Longrightarrow>
     evolves (OpEnqueue x payload oid) now t (t\<lparr>tr_status := QUEUED, tr_updated_at := now\<rparr>)"
| ev_superseded:
    "tr_status t \<in> SUPERSEDABLE_STATUSES \<Longrightarrow> tr_source t \<in> ROOT_EXECUTION_SOURCES \<Longrightarrow>
     evolves (OpEnqueue x payload oid) now t (supersede_row now t)"
| ev_claimed:
    "tr_status t \<in> CLAIMABLE_STATUSES \<Longrightarrow> tid = tr_task_id t \<Longrightarrow>
     evolves (OpClaim tid wid) now t
       (t\<lparr>tr_status := STARTED, tr_assigned_worker_id := Some wid, tr_started_at := Some now,
          tr_updated_at := now\<rparr>)"
| ev_running:
    "tr_status t = STARTED \<Longrightarrow> tr_assigned_worker_id t = Some wid \<Longrightarrow> tid = tr_task_id t \<Longrightarrow>
     evolves (OpMarkRunning tid wid) now t (t\<lparr>tr_status := RUNNING, tr_updated_at := now\<rparr>)"
| ev_finalized:
    "st \<in> TERMINAL_STATUSES \<Longrightarrow> finalize_allowed t wid st r \<Longrightarrow> tid = tr_task_id t \<Longrightarrow>
     evolves (OpFinalize tid wid st msg r) now t (finalize_row st msg r now t)"
| ev_reconciled:
    "tr_status t \<notin> TERMINAL_STATUSES \<Longrightarrow> k \<in> RECONCILIATION_TERMINATION_REASONS \<Longrightarrow>
     eff = choose_termination_reason (tr_termination_reason t) (Known k) False \<Longrightarrow>
     reconcile_allowed t eff \<Longrightarrow> tid = tr_task_id t \<Longrightarrow>
     evolves (OpReconcile tid (Some (Known k)) msg) now t (reconcile_row eff msg now t)"
| ev_failed_pending:
    "tr_status t = PENDING \<Longrightarrow> r \<in> {None, Some NESTED_WAIT_CAPACITY_LOST} \<Longrightarrow> tid = tr_task_id t \<Longrightarrow>
     evolves (OpFailPending tid r msg) now t (fail_pending_row (map_option Known r) msg now t)"
| ev_stopped:
    "tr_status t \<notin> TERMINAL_STATUSES \<Longrightarrow> tid = tr_task_id t \<Longrightarrow>
     evolves (OpStop tid r) now t
       (stop_row (choose_termination_reason (tr_termination_reason t) (Known r) False) now t)"
| ev_killed:
    "tr_status t \<notin> TERMINAL_STATUSES \<Longrightarrow> tid = tr_task_id t \<Longrightarrow>
     evolves (OpKill tid r) now t
       (stop_row (choose_termination_reason (tr_termination_reason t) (Known r) True) now t)"

text \<open>The rows an operation can create.\<close>

inductive born :: "task_op \<Rightarrow> datetime \<Rightarrow> TaskRecord \<Rightarrow> bool" where
  born_pending: "born (OpCreatePending x) now (new_task_record x PENDING now)"
| born_queued: "born (OpEnqueue x payload oid) now (new_task_record x QUEUED now)"
| born_superseded:
    "te_source x \<in> ROOT_EXECUTION_SOURCES \<Longrightarrow>
     born (OpEnqueue x payload oid) now (supersede_row now (new_task_record x QUEUED now))"

text \<open>The lifecycle graph of the statuses.\<close>

fun successors :: "TaskExecutionStatus \<Rightarrow> TaskExecutionStatus set" where
  "successors PENDING = {QUEUED, CANCELLED, ERROR}"
| "successors QUEUED = {STARTED, CANCELLED}"
| "successors ASSIGNED = {STARTED, CANCEL_REQUESTED}"
| "successors STARTED = {RUNNING, SUCCESS, ERROR, CANCELLED, CANCEL_REQUESTED}"
| "successors RUNNING = {SUCCESS, ERROR, CANCELLED, CANCEL_REQUESTED}"
| "successors CANCEL_REQUESTED = {ERROR, CANCELLED, CANCEL_REQUESTED}"
| "successors SUCCESS = {}"
| "successors ERROR = {}"
| "successors CANCELLED = {}"

section \<open>Effect of admission and enqueueing\<close>

lemma new_task_record_fields [simp]:
  "tr_task_id (new_task_record x st now) = te_task_id x"
  "tr_status (new_task_record x st now) = st"
  "tr_termination_reason (new_task_record x st now) = None"
  "tr_assigned_worker_id (new_task_record x st now) = None"
  "tr_started_at (new_task_record x st now) = None"
  "tr_finished_at (new_task_record x st now) = None"
  "tr_source (new_task_record x st now) = te_source x"
  "tr_project_id (new_task_record x st now) = te_project_id x"
  "tr_queued_at (new_task_record x st now) = te_queued_at x"
  by (simp_all add: new_task_record_def)

lemma schedule_slot_status [simp]:
  "schedule_slot (t\<lparr>tr_status := st\<rparr>) = schedule_slot t"
  "schedule_slot (t\<lparr>tr_updated_at := now\<rparr>) = schedule_slot t"
  "schedule_slot (t\<lparr>tr_assigned_worker_id := w\<rparr>) = schedule_slot t"
  "schedule_slot (t\<lparr>tr_started_at := x\<rparr>) = schedule_slot t"
  "schedule_slot (t\<lparr>tr_finished_at := x\<rparr>) = schedule_slot t"
  "schedule_slot (t\<lparr>tr_termination_reason := r\<rparr>) = schedule_slot t"
  "schedule_slot (set_message m t) = schedule_slot t"
  by (simp_all add: schedule_slot_def)

lemma schedule_slot_rows [simp]:
  "schedule_slot (supersede_row now t) = schedule_slot t"
  "schedule_slot (finalize_row st msg r now t) = schedule_slot t"
  "schedule_slot (reconcile_row eff msg now t) = schedule_slot t"
  "schedule_slot (fail_pending_row q msg now t) = schedule_slot t"
  "schedule_slot (stop_row eff now t) = schedule_slot t"
  by (simp_all add: supersede_row_def finalize_row_def reconcile_row_def fail_pending_row_def
      stop_row_def Let_def)

lemma task_id_rows [simp]:
  "tr_task_id (finalize_row st msg r now t) = tr_task_id t"
  "tr_task_id (reconcile_row eff msg now t) = tr_task_id t"
  "tr_task_id (fail_pending_row q msg now t) = tr_task_id t"
  "tr_task_id (stop_row eff now t) = tr_task_id t"
  by (simp_all add: finalize_row_def reconcile_row_def fail_pending_row_def stop_row_def Let_def)

lemma enqueue_admitD:
  assumes "db_wf d" and "enqueue_admit x now d = Inr (Some (task, d1))"
  shows "db_wf d1" "task_of d1 (te_task_id x) = Some task" "tr_task_id task = te_task_id x"
    "tr_status task = QUEUED" "db_outbox d1 = db_outbox d"
    "\<And>tid. tid \<noteq> te_task_id x \<Longrightarrow> task_of d1 tid = task_of d tid"
proof -
  consider (new) "task_of d (te_task_id x) = None" "insert_task (new_task_record x QUEUED now) d = Inr d1"
        "task = new_task_record x QUEUED now"
    | (pending) t where "task_of d (te_task_id x) = Some t" "tr_status t = PENDING"
        "task = t\<lparr>tr_status := QUEUED, tr_updated_at := now\<rparr>" "d1 = put_task task d"
    | (queued) "task_of d (te_task_id x) = Some task" "tr_status task = QUEUED" "d1 = d"
  proof (cases "task_of d (te_task_id x)")
    case None
    then have "insert_task (new_task_record x QUEUED now) d = Inr d1 \<and> task = new_task_record x QUEUED now"
      using assms(2) by (auto simp: enqueue_admit_def Let_def bind_result_eq_Inr_iff)
    then show ?thesis using new [OF None] by blast
  next
    case (Some t)
    then have "if tr_status t = PENDING
      then task = t\<lparr>tr_status := QUEUED, tr_updated_at := now\<rparr> \<and> d1 = put_task task d
      else tr_status t = QUEUED \<and> task = t \<and> d1 = d"
      using assms(2) by (auto simp: enqueue_admit_def Let_def split: if_split_asm)
    then show ?thesis using pending [OF Some] queued Some by (metis (full_types))
  qed
  then have "db_wf d1 \<and> task_of d1 (te_task_id x) = Some task \<and> tr_task_id task = te_task_id x \<and>
    tr_status task = QUEUED \<and> db_outbox d1 = db_outbox d \<and>
    (\<forall>tid. tid \<noteq> te_task_id x \<longrightarrow> task_of d1 tid = task_of d tid)"
  proof cases
    case new
    then show ?thesis
      using db_wf_insert_task [OF assms(1) new(2)] task_of_insert_task [OF new(2)]
        insert_taskD(1) [OF new(2)] by auto
  next
    case (pending t)
    have id: "tr_task_id task = te_task_id x" using pending(1,3) by (simp add: task_id_of)
    have "db_wf d1"
      using pending id by (auto intro: db_wf_put_task [OF assms(1), of _ t])
    then show ?thesis
      using pending id by (simp add: task_of_put_task [OF assms(1)])
  next
    case queued
    then show ?thesis using assms(1) by (simp add: task_id_of)
  qed
  then show "db_wf d1" "task_of d1 (te_task_id x) = Some task" "tr_task_id task = te_task_id x"
    "tr_status task = QUEUED" "db_outbox d1 = db_outbox d"
    "\<And>tid. tid \<noteq> te_task_id x \<Longrightarrow> task_of d1 tid = task_of d tid"
    by blast+
qed

text \<open>The admitted row, by what the table held before.\<close>

lemma enqueue_admit_row:
  assumes "enqueue_admit x now d = Inr (Some (task, d1))"
  shows "case task_of d (te_task_id x) of
           None \<Rightarrow> task = new_task_record x QUEUED now
         | Some t \<Rightarrow> (tr_status t = PENDING \<and> task = t\<lparr>tr_status := QUEUED, tr_updated_at := now\<rparr>) \<or>
                     (tr_status t = QUEUED \<and> task = t)"
  using assms
  by (auto simp: enqueue_admit_def Let_def bind_result_eq_Inr_iff split: option.splits if_splits)

lemma enqueue_with_dispatchD:
  assumes "enqueue_with_dispatch x payload oid now d = Inr (res, d')"
  obtains (ignored) "enqueue_admit x now d = Inr None" "d' = d" "er_superseded res = []"
      "er_execution res = to_entity (the (task_of d (te_task_id x)))"
    | (admitted) task d1 task' stale d2
    where "enqueue_admit x now d = Inr (Some (task, d1))"
      "(if te_source x \<in> ROOT_EXECUTION_SOURCES then coalesce_root_executions task now d1
        else (task, [], d1)) = (task', stale, d2)"
      "res = \<lparr>er_execution = to_entity task', er_superseded = stale\<rparr>"
      "d' = (if te_source x \<in> ROOT_EXECUTION_SOURCES \<and> tr_status task' = CANCELLED then d2
             else add_outbox (te_task_id x) payload oid now d2)"
proof (cases "enqueue_admit x now d")
  case (Inl e)
  then show thesis using assms by (simp add: enqueue_with_dispatch_def)
next
  case (Inr a)
  show thesis
  proof (cases a)
    case None
    then have "Inr (res, d') = (Inr (\<lparr>er_execution = to_entity (the (task_of d (te_task_id x))),
        er_superseded = []\<rparr>, d) :: (te_error, _) result)"
      using assms Inr by (auto simp: enqueue_with_dispatch_def)
    then show thesis using ignored [OF Inr [unfolded None]] by simp
  next
    case (Some p)
    obtain task d1 where p: "p = (task, d1)" by (rule prod.exhaust)
    obtain task' stale d2 where c: "(if te_source x \<in> ROOT_EXECUTION_SOURCES
        then coalesce_root_executions task now d1 else (task, [], d1)) = (task', stale, d2)"
      by (rule prod_cases3)
    have "enqueue_with_dispatch x payload oid now d =
        Inr (\<lparr>er_execution = to_entity task', er_superseded = stale\<rparr>,
             if te_source x \<in> ROOT_EXECUTION_SOURCES \<and> tr_status task' = CANCELLED then d2
             else add_outbox (te_task_id x) payload oid now d2)"
      unfolding enqueue_with_dispatch_def Inr Some p bind_result_simps option.case prod.case c Let_def
      by simp
    then have "(res, d') = (\<lparr>er_execution = to_entity task', er_superseded = stale\<rparr>,
             if te_source x \<in> ROOT_EXECUTION_SOURCES \<and> tr_status task' = CANCELLED then d2
             else add_outbox (te_task_id x) payload oid now d2)"
      using assms by (simp only: sum.inject)
    then show thesis using admitted [OF Inr [unfolded Some p] c] by (simp only: prod.inject)
  qed
qed

lemma enqueue_with_dispatch_tasks:
  assumes "db_wf d" and "enqueue_with_dispatch x payload oid now d = Inr (res, d')"
    and "enqueue_admit x now d = Inr (Some (task, d1))"
  shows "task_of d' tid =
    map_option (\<lambda>t. if te_source x \<in> ROOT_EXECUTION_SOURCES \<and>
                       tid \<in> set (stale_ids (tr_project_id task) (db_tasks d1))
                    then supersede_row now t else t) (task_of d1 tid)"
  using assms(2)
proof (cases rule: enqueue_with_dispatchD)
  case ignored
  then show ?thesis using assms(3) by simp
next
  case (admitted task2 d12 task' stale d2)
  then have eq: "task2 = task" "d12 = d1" using assms(3) by simp_all
  have wf: "db_wf d1" using enqueue_admitD(1) [OF assms(1,3)] .
  have "task_of d' tid = task_of d2 tid" using admitted(4) by simp
  then show ?thesis
    using admitted(2) task_of_coalesce [OF wf, of task now task' stale d2 tid]
    by (auto simp: eq map_option.id [unfolded id_def] split: if_splits)
qed

lemma db_wf_enqueue:
  assumes wf: "db_wf d" and enq: "enqueue_with_dispatch x payload oid now d = Inr (res, d')"
  shows "db_wf d'"
  using enq
proof (cases rule: enqueue_with_dispatchD)
  case ignored
  then show ?thesis using wf by simp
next
  case (admitted task d1 task' stale d2)
  have wf1: "db_wf d1" using enqueue_admitD(1) [OF wf admitted(1)] .
  have wf2: "db_wf d2"
    using admitted(2) wf1 db_wf_coalesce [OF wf1] by (auto split: if_splits)
  have "task_of d' (te_task_id x) \<noteq> None"
    using enqueue_with_dispatch_tasks [OF wf enq admitted(1)] enqueue_admitD(2) [OF wf admitted(1)]
    by auto
  then have "task_of d2 (te_task_id x) \<noteq> None" using admitted(4) by (auto split: if_split_asm)
  then show ?thesis using admitted(4) wf2 by (auto intro: db_wf_add_outbox)
qed

section \<open>Every operation refines the state machine\<close>

definition refines :: "task_op \<Rightarrow> datetime \<Rightarrow> db \<Rightarrow> db \<Rightarrow> bool" where
  "refines op now d d' \<longleftrightarrow>
     db_wf d' \<and>
     (\<forall>tid t. task_of d tid = Some t \<longrightarrow> (\<exists>t'. task_of d' tid = Some t' \<and> evolves op now t t')) \<and>
     (\<forall>tid t'. task_of d tid = None \<longrightarrow> task_of d' tid = Some t' \<longrightarrow> born op now t')"

lemma refines_same_tasks:
  "db_wf d' \<Longrightarrow> db_tasks d' = db_tasks d \<Longrightarrow> refines op now d d'"
  unfolding refines_def using ev_same by auto

lemma refines_put_task:
  assumes "db_wf d" and "task_of d tid = Some t" and "evolves op now t t'"
    and "tr_task_id t' = tr_task_id t" and "schedule_slot t' = schedule_slot t"
  shows "refines op now d (put_task t' d)"
proof -
  have id: "tr_task_id t' = tid" using assms(2,4) by (simp add: task_id_of)
  have "db_wf (put_task t' d)"
    using assms id by (intro db_wf_put_task [of d t' t]) simp_all
  moreover have "\<exists>u'. task_of (put_task t' d) tid' = Some u' \<and> evolves op now u u'"
    if "task_of d tid' = Some u" for tid' u
    using that assms(2,3) id by (cases "tid' = tid") (simp_all add: task_of_put_task [OF assms(1)] ev_same)
  ultimately show ?thesis
    unfolding refines_def by (simp add: task_of_put_task [OF assms(1)])
qed

lemma refines_map_rows:
  assumes "db_wf d'" and "\<And>tid. task_of d' tid = map_option (f tid) (task_of d tid)"
    and "\<And>tid t. task_of d tid = Some t \<Longrightarrow> evolves op now t (f tid t)"
  shows "refines op now d d'"
  unfolding refines_def using assms by simp

lemma refines_create_pending:
  assumes wf: "db_wf d" and eff: "op_effect rv (OpCreatePending x) now d = (ok, d')"
  shows "refines (OpCreatePending x) now d d'"
proof (cases "te_status x = PENDING \<and> task_of d (te_task_id x) = None \<and>
    insert_task (new_task_record x PENDING now) d \<noteq> Inl IntegrityError")
  case True
  then obtain d1 where i: "insert_task (new_task_record x PENDING now) d = Inr d1"
    by (auto simp: insert_task_def split: if_split_asm)
  then have "d' = d1"
    using True eff
    by (simp add: create_pending_execution_def create_pending_def Let_def commit_or_abort_def)
  then show ?thesis
    using db_wf_insert_task [OF wf i] True
    by (simp add: refines_def task_of_insert_task [OF i] ev_same born_pending)
next
  case False
  have "insert_task (new_task_record x PENDING now) d \<in> {Inl IntegrityError} \<union> range Inr"
    by (simp add: insert_task_def)
  then have "d' = d"
    using False eff
    by (auto simp: create_pending_execution_def create_pending_def Let_def commit_or_abort_def
        split: option.splits if_split_asm)
  then show ?thesis using wf by (simp add: refines_same_tasks)
qed

lemma evolves_admitted:
  assumes "enqueue_admit x now d = Inr (Some (task, d1))" and "task_of d (te_task_id x) = Some t"
  shows "evolves (OpEnqueue x payload oid) now t task"
proof -
  have "tr_task_id t = te_task_id x" using assms(2) by (rule task_id_of)
  then show ?thesis
    using enqueue_admit_row [OF assms(1)] ev_queued [of t x payload oid now] ev_same assms(2) by auto
qed

text \<open>Queueing a PENDING row and superseding it in the same transaction is superseding it.\<close>

lemma supersede_admitted:
  assumes "enqueue_admit x now d = Inr (Some (task, d1))" and "task_of d (te_task_id x) = Some t"
  shows "supersede_row now task = supersede_row now t \<and> tr_status t \<in> SUPERSEDABLE_STATUSES \<and>
         tr_source task = tr_source t"
  using enqueue_admit_row [OF assms(1)] assms(2)
  by (auto simp: supersede_row_def status_sets)

lemma refines_enqueue:
  assumes wf: "db_wf d" and enq: "enqueue_with_dispatch x payload oid now d = Inr (res, d')"
  shows "refines (OpEnqueue x payload oid) now d d'"
  using enq
proof (cases rule: enqueue_with_dispatchD)
  case ignored
  then show ?thesis using wf by (simp add: refines_same_tasks)
next
  case (admitted task d1 task' stale d2)
  note admit = admitted(1)
  note tasks = enqueue_with_dispatch_tasks [OF wf enq admit]
  let ?ids = "stale_ids (tr_project_id task) (db_tasks d1)"
  have root: "tr_source u \<in> ROOT_EXECUTION_SOURCES \<and> tr_status u \<in> SUPERSEDABLE_STATUSES"
    if "tid \<in> set ?ids" "task_of d1 tid = Some u" for tid u
    using stale_idsD [OF enqueue_admitD(1) [OF wf admit] that] by blast
  have old: "\<exists>t'. task_of d' tid = Some t' \<and> evolves (OpEnqueue x payload oid) now t t'"
    if t: "task_of d tid = Some t" for tid t
  proof (cases "tid = te_task_id x")
    case True
    then show ?thesis
      using tasks [of tid] enqueue_admitD(2) [OF wf admit] evolves_admitted [OF admit]
        supersede_admitted [OF admit, of t] ev_superseded [of t x payload oid now] root [of tid task] t
      by (cases "tid \<in> set ?ids \<and> te_source x \<in> ROOT_EXECUTION_SOURCES") simp_all
  next
    case False
    then have "task_of d1 tid = Some t" using enqueue_admitD(6) [OF wf admit] t by simp
    then show ?thesis
      using tasks [of tid] ev_superseded ev_same root [of tid t] by simp
  qed
  have new: "born (OpEnqueue x payload oid) now t'"
    if "task_of d tid = None" "task_of d' tid = Some t'" for tid t'
  proof -
    have tid: "tid = te_task_id x"
      using tasks [of tid] enqueue_admitD(6) [OF wf admit, of tid] that
      by (cases "tid = te_task_id x") simp_all
    then have "task = new_task_record x QUEUED now"
      using enqueue_admit_row [OF admit] that(1) by simp
    then show ?thesis
      using tasks [of tid] enqueue_admitD(2) [OF wf admit] tid that(2) born_queued born_superseded
      by (auto split: if_split_asm)
  qed
  show ?thesis
    unfolding refines_def using old new db_wf_enqueue [OF wf enq] by blast
qed

lemma refines_finalize:
  assumes wf: "db_wf d" and eff: "op_effect rv (OpFinalize tid wid st msg r) now d = (ok, d')"
  shows "refines (OpFinalize tid wid st msg r) now d d'"
proof (cases "task_of d tid")
  case None
  then have "d' = d" using eff
    by (simp add: commit_or_abort_def finalize_task_def finalize_def split: if_split_asm)
  then show ?thesis using wf by (simp add: refines_same_tasks)
next
  case (Some t)
  then have "d' = (if st \<in> TERMINAL_STATUSES \<and> finalize_allowed t wid st r
      then put_task (finalize_row st msg r now t) d else d)"
    using eff by (simp add: commit_or_abort_def finalize_task_def finalize_def split: if_split_asm)
  then show ?thesis
    using wf refines_put_task [OF wf Some ev_finalized] task_id_of [OF Some]
    by (simp add: refines_same_tasks split: if_split)
qed

lemma refines_reconcile:
  assumes wf: "db_wf d" and eff: "op_effect rv (OpReconcile tid r msg) now d = (ok, d')"
  shows "refines (OpReconcile tid r msg) now d d'"
proof (cases "\<exists>k t. r = Some (Known k) \<and> k \<in> RECONCILIATION_TERMINATION_REASONS \<and> task_of d tid = Some t \<and>
    tr_status t \<notin> TERMINAL_STATUSES \<and>
    reconcile_allowed t (choose_termination_reason (tr_termination_reason t) (Known k) False)")
  case True
  then obtain k t where r: "r = Some (Known k)" and k: "k \<in> RECONCILIATION_TERMINATION_REASONS"
    and t: "task_of d tid = Some t" and st: "tr_status t \<notin> TERMINAL_STATUSES"
    and al: "reconcile_allowed t (choose_termination_reason (tr_termination_reason t) (Known k) False)"
    by blast
  have "d' = put_task (reconcile_row (choose_termination_reason (tr_termination_reason t) (Known k) False)
      msg now t) d"
    using eff r k t st al
    by (simp add: commit_or_abort_def finalize_reconciled_execution_def finalize_reconciled_def Let_def
        TERMINAL_STATUSES_def)
  then show ?thesis
    using refines_put_task [OF wf t ev_reconciled [OF st k refl al]] r task_id_of [OF t] by simp
next
  case False
  then have "d' = d"
    using eff
    by (simp add: commit_or_abort_def finalize_reconciled_execution_def finalize_reconciled_def Let_def
        TERMINAL_STATUSES_def split: option.splits reason.splits if_split_asm)
  then show ?thesis using wf by (simp add: refines_same_tasks)
qed

lemma refines_fail_pending:
  assumes wf: "db_wf d" and eff: "op_effect rv (OpFailPending tid r msg) now d = (ok, d')"
  shows "refines (OpFailPending tid r msg) now d d'"
proof (cases "\<exists>t. r \<in> {None, Some NESTED_WAIT_CAPACITY_LOST} \<and> task_of d tid = Some t \<and> tr_status t = PENDING")
  case True
  then obtain t where r: "r \<in> {None, Some NESTED_WAIT_CAPACITY_LOST}" and t: "task_of d tid = Some t"
    and st: "tr_status t = PENDING"
    by blast
  have "d' = put_task (fail_pending_row (map_option Known r) msg now t) d"
    using eff r t st
    by (auto simp: commit_or_abort_def fail_pending_execution_def fail_pending_def Let_def)
  then show ?thesis
    using refines_put_task [OF wf t ev_failed_pending [OF st r]] task_id_of [OF t] by simp
next
  case False
  then have "d' = d"
    using eff
    by (simp add: commit_or_abort_def fail_pending_execution_def fail_pending_def Let_def
        split: option.splits if_split_asm)
  then show ?thesis using wf by (simp add: refines_same_tasks)
qed

text \<open>The database a stop request leaves, whatever the transport answers.\<close>

lemma stop_effect:
  "snd (op_effect rv (OpStop tid r) now d) = snd (request_stop tid (Known r) False now d)"
  "snd (op_effect rv (OpKill tid r) now d) = snd (request_stop tid (Known r) True now d)"
  by (simp_all add: request_stop_task_def kill_task_def Let_def split: prod.splits option.splits)

lemma refines_request_stop:
  assumes wf: "db_wf d"
    and ev: "\<And>t. task_of d tid = Some t \<Longrightarrow> tr_status t \<notin> TERMINAL_STATUSES \<Longrightarrow>
      evolves op now t (stop_row (choose_termination_reason (tr_termination_reason t) r hard) now t)"
  shows "refines op now d (snd (request_stop tid r hard now d))"
proof (cases "\<exists>t. task_of d tid = Some t \<and> tr_status t \<notin> TERMINAL_STATUSES")
  case True
  then obtain t where t: "task_of d tid = Some t" and st: "tr_status t \<notin> TERMINAL_STATUSES"
    by blast
  let ?d = "if tr_status t \<in> {PENDING, QUEUED} then cancel_dispatches [tid] d else d"
  let ?row = "stop_row (choose_termination_reason (tr_termination_reason t) r hard) now t"
  have "snd (request_stop tid r hard now d) = put_task ?row ?d"
    using t st by (simp add: request_stop_def Let_def TERMINAL_STATUSES_def)
  moreover have "refines op now ?d (put_task ?row ?d)"
    using refines_put_task [of ?d tid t op now ?row] wf t ev [OF t st] db_wf_cancel_dispatches by simp
  moreover have "db_tasks ?d = db_tasks d" by simp
  ultimately show ?thesis unfolding refines_def by simp
next
  case False
  then have "snd (request_stop tid r hard now d) = d"
    by (simp add: request_stop_def Let_def TERMINAL_STATUSES_def split: option.splits)
  then show ?thesis using wf by (simp add: refines_same_tasks)
qed

lemma refines_claim:
  assumes wf: "db_wf d"
  shows "refines (OpClaim tid wid) now d (snd (claim tid wid now d))"
proof (rule refines_map_rows [OF _ task_of_claim [OF wf]])
  show "db_wf (snd (claim tid wid now d))"
    using wf by (auto simp: claim_def Let_def intro!: db_wf_tasks_update)
next
  fix tid' t
  assume "task_of d tid' = Some t"
  then have "tr_task_id t = tid'" by (rule task_id_of)
  then show "evolves (OpClaim tid wid) now t
      (if tid' = tid \<and> tr_status t \<in> CLAIMABLE_STATUSES
       then t\<lparr>tr_status := STARTED, tr_assigned_worker_id := Some wid, tr_started_at := Some now,
              tr_updated_at := now\<rparr> else t)"
    by (simp add: ev_claimed ev_same)
qed

lemma refines_mark_running:
  assumes wf: "db_wf d"
  shows "refines (OpMarkRunning tid wid) now d (snd (mark_running tid wid now d))"
proof (rule refines_map_rows [OF _ task_of_mark_running [OF wf]])
  show "db_wf (snd (mark_running tid wid now d))"
    using wf by (auto simp: mark_running_def Let_def intro!: db_wf_tasks_update)
next
  fix tid' t
  assume "task_of d tid' = Some t"
  then have "tr_task_id t = tid'" by (rule task_id_of)
  then show "evolves (OpMarkRunning tid wid) now t
      (if tid' = tid \<and> tr_status t = STARTED \<and> tr_assigned_worker_id t = Some wid
       then t\<lparr>tr_status := RUNNING, tr_updated_at := now\<rparr> else t)"
    by (simp add: ev_running ev_same)
qed

theorem op_refines:
  assumes wf: "db_wf d" and eff: "op_effect rv op now d = (ok, d')"
  shows "refines op now d d'"
proof (cases op)
  case (OpEnqueue x payload oid)
  show ?thesis
  proof (cases "enqueue_with_dispatch x payload oid now d")
    case (Inl e)
    then show ?thesis
      using eff wf OpEnqueue by (simp add: enqueue_task_def commit_or_abort_def refines_same_tasks)
  next
    case (Inr p)
    then show ?thesis
      using eff OpEnqueue refines_enqueue [OF wf, of x payload oid now "fst p" d']
      by (simp add: enqueue_task_def commit_or_abort_def split: prod.splits)
  qed
next
  case (OpClaim tid wid)
  then show ?thesis using refines_claim [OF wf] eff by (simp add: claim_task_def) (metis snd_conv)
next
  case (OpMarkRunning tid wid)
  then show ?thesis
    using refines_mark_running [OF wf] eff by (simp add: mark_task_running_def) (metis snd_conv)
next
  case (OpStop tid r)
  then show ?thesis
    using eff stop_effect(1) [of rv tid r now d]
      refines_request_stop [OF wf ev_stopped [OF _ task_id_of [symmetric]]] by simp
next
  case (OpKill tid r)
  then show ?thesis
    using eff stop_effect(2) [of rv tid r now d]
      refines_request_stop [OF wf ev_killed [OF _ task_id_of [symmetric]]] by simp
next
  case (OpPublished did)
  then show ?thesis
    using eff wf
    by (auto simp: mark_dispatch_published_def intro!: refines_same_tasks db_wf_outbox_update)
next
  case (OpPublishFailed did err)
  then show ?thesis
    using eff wf
    by (auto simp: record_dispatch_failure_def intro!: refines_same_tasks db_wf_outbox_update)
next
  case (OpCreatePending x)
  then show ?thesis using refines_create_pending [OF wf, of rv x now ok d'] eff by simp
next
  case (OpFinalize tid wid st msg r)
  then show ?thesis
    using refines_finalize [OF wf, of rv tid wid st msg r now ok d'] eff by (simp only:)
next
  case (OpReconcile tid r msg)
  then show ?thesis using refines_reconcile [OF wf, of rv tid r msg now ok d'] eff by (simp only:)
next
  case (OpFailPending tid r msg)
  then show ?thesis using refines_fail_pending [OF wf, of rv tid r msg now ok d'] eff by (simp only:)
qed

end
