(* ===== verification/Task_Safety.thy ===== *)
theory Task_Safety
  imports Task_Lifecycle
begin

text \<open>
  Safety of task execution: what holds of every reachable state of the transition system and
  of every run of it, whatever the interleaving of API calls, workers, the outbox publisher
  and the supervisor.
\<close>

section \<open>Columns of the rows an operation writes\<close>

lemma finalize_reason_None_iff:
  "finalize_reason t r = None \<longleftrightarrow> r = None \<and> tr_termination_reason t = None"
  by (simp add: finalize_reason_def split: option.splits)

lemma finalize_row_fields [lifecycle_simps]:
  "tr_status (finalize_row st msg r now t) = st"
  "tr_assigned_worker_id (finalize_row st msg r now t) = tr_assigned_worker_id t"
  "tr_started_at (finalize_row st msg r now t) = tr_started_at t"
  "tr_finished_at (finalize_row st msg r now t) = Some now"
  "tr_termination_reason (finalize_row st msg r now t) = finalize_reason t r"
  "tr_source (finalize_row st msg r now t) = tr_source t"
  "tr_project_id (finalize_row st msg r now t) = tr_project_id t"
  "tr_queued_at (finalize_row st msg r now t) = tr_queued_at t"
  by (auto simp: finalize_row_def Let_def finalize_reason_None_iff) (simp add: finalize_reason_def)

lemma reconcile_row_fields [lifecycle_simps]:
  "tr_status (reconcile_row eff msg now t) = terminal_status_for_termination_reason (Some eff)"
  "tr_assigned_worker_id (reconcile_row eff msg now t) = tr_assigned_worker_id t"
  "tr_started_at (reconcile_row eff msg now t) = tr_started_at t"
  "tr_finished_at (reconcile_row eff msg now t) = Some now"
  "tr_termination_reason (reconcile_row eff msg now t) = Some eff"
  "tr_source (reconcile_row eff msg now t) = tr_source t"
  "tr_project_id (reconcile_row eff msg now t) = tr_project_id t"
  "tr_queued_at (reconcile_row eff msg now t) = tr_queued_at t"
  by (simp_all add: reconcile_row_def)

lemma fail_pending_row_fields [lifecycle_simps]:
  "tr_status (fail_pending_row r msg now t) = ERROR"
  "tr_assigned_worker_id (fail_pending_row r msg now t) = tr_assigned_worker_id t"
  "tr_started_at (fail_pending_row r msg now t) = tr_started_at t"
  "tr_finished_at (fail_pending_row r msg now t) = Some now"
  "tr_termination_reason (fail_pending_row r msg now t) =
     (if r = None then tr_termination_reason t else r)"
  "tr_source (fail_pending_row r msg now t) = tr_source t"
  "tr_project_id (fail_pending_row r msg now t) = tr_project_id t"
  "tr_queued_at (fail_pending_row r msg now t) = tr_queued_at t"
  by (simp_all add: fail_pending_row_def Let_def)

lemma stop_row_fields [lifecycle_simps]:
  "tr_status (stop_row eff now t) =
     (if tr_status t \<in> {PENDING, QUEUED} then CANCELLED else CANCEL_REQUESTED)"
  "tr_assigned_worker_id (stop_row eff now t) = tr_assigned_worker_id t"
  "tr_started_at (stop_row eff now t) = tr_started_at t"
  "tr_finished_at (stop_row eff now t) =
     (if tr_status t \<in> {PENDING, QUEUED} then Some now else tr_finished_at t)"
  "tr_termination_reason (stop_row eff now t) = Some eff"
  "tr_source (stop_row eff now t) = tr_source t"
  "tr_project_id (stop_row eff now t) = tr_project_id t"
  "tr_queued_at (stop_row eff now t) = tr_queued_at t"
  by (simp_all add: stop_row_def)

section \<open>The lifecycle graph\<close>

lemma successors_into_reconciled:
  "st \<in> {STARTED, RUNNING, CANCEL_REQUESTED} \<Longrightarrow>
   terminal_status_for_termination_reason r \<in> successors st"
  using terminal_status_cases [of r] by (cases st) auto

lemma evolves_status:
  assumes "evolves op now t t'"
  shows "t' = t \<or> tr_status t' \<in> successors (tr_status t)"
  using assms
proof cases
  case (ev_finalized st wid r tid msg)
  then show ?thesis
    by (cases "tr_status t"; cases st)
       (simp_all add: finalize_allowed_def status_sets lifecycle_simps)
next
  case (ev_reconciled k eff tid msg)
  then have "tr_status t \<in> {STARTED, RUNNING, CANCEL_REQUESTED}"
    by (auto simp: reconcile_allowed_def)
  then show ?thesis
    using ev_reconciled(2) successors_into_reconciled by (simp add: lifecycle_simps)
next
  case (ev_stopped tid r)
  then show ?thesis by (cases "tr_status t") (simp_all add: status_sets lifecycle_simps)
next
  case (ev_killed tid r)
  then show ?thesis by (cases "tr_status t") (simp_all add: status_sets lifecycle_simps)
qed (auto simp: status_sets lifecycle_simps)

text \<open>The columns no operation changes once a row exists.\<close>

lemma evolves_identity:
  assumes "evolves op now t t'"
  shows "tr_task_id t' = tr_task_id t \<and> tr_source t' = tr_source t \<and>
         tr_project_id t' = tr_project_id t \<and> tr_queued_at t' = tr_queued_at t \<and>
         schedule_slot t' = schedule_slot t"
  using assms by cases (simp_all add: lifecycle_simps)

lemma terminal_no_move: "st \<in> TERMINAL_STATUSES \<Longrightarrow> successors st = {}"
  by (auto simp: TERMINAL_STATUSES_def)

lemma evolves_terminal:
  "evolves op now t t' \<Longrightarrow> tr_status t \<in> TERMINAL_STATUSES \<Longrightarrow> t' = t"
  using evolves_status terminal_no_move by blast

section \<open>Invariant of a row\<close>

definition row_inv :: "TaskRecord \<Rightarrow> bool" where
  "row_inv t \<longleftrightarrow>
     tr_status t \<noteq> ASSIGNED \<and>
     (tr_assigned_worker_id t \<noteq> None \<longleftrightarrow> tr_started_at t \<noteq> None) \<and>
     (tr_status t \<in> TERMINAL_STATUSES \<longleftrightarrow> tr_finished_at t \<noteq> None) \<and>
     (tr_status t \<in> {PENDING, QUEUED} \<longrightarrow> tr_assigned_worker_id t = None) \<and>
     (tr_status t \<in> {PENDING, QUEUED, STARTED, RUNNING} \<longrightarrow> tr_termination_reason t = None) \<and>
     (tr_status t \<in> {STARTED, RUNNING, CANCEL_REQUESTED, SUCCESS} \<longrightarrow> tr_assigned_worker_id t \<noteq> None) \<and>
     (tr_status t = CANCEL_REQUESTED \<longrightarrow> tr_termination_reason t \<noteq> None) \<and>
     (tr_status t = ERROR \<longrightarrow>
        tr_termination_reason t = None \<or> tr_termination_reason t \<in> Some ` FAILURE_TERMINATION_REASONS)"

lemma row_inv_born: "born op now t \<Longrightarrow> row_inv t"
  by (induction rule: born.induct) (simp_all add: row_inv_def status_sets)

lemma terminal_status_row:
  "terminal_status_for_termination_reason r \<in> TERMINAL_STATUSES"
  "terminal_status_for_termination_reason r \<noteq> SUCCESS"
  "terminal_status_for_termination_reason r = ERROR \<Longrightarrow> r \<in> Some ` FAILURE_TERMINATION_REASONS"
  by (auto simp: terminal_status_for_termination_reason_def status_sets split: option.splits if_splits)

text \<open>A row becomes terminal with its owner kept and a reason that fits its status.\<close>

lemma row_inv_terminal:
  assumes "tr_status t' \<in> TERMINAL_STATUSES" and "tr_finished_at t' \<noteq> None"
    and "tr_assigned_worker_id t' \<noteq> None" and "tr_started_at t' \<noteq> None"
    and "tr_status t' = ERROR \<Longrightarrow>
      tr_termination_reason t' = None \<or> tr_termination_reason t' \<in> Some ` FAILURE_TERMINATION_REASONS"
  shows "row_inv t'"
proof -
  have "tr_status t' \<in> {SUCCESS, ERROR, CANCELLED}" using assms(1) by (simp add: status_sets)
  then show ?thesis unfolding row_inv_def using assms by fastforce
qed

lemma row_inv_owner:
  assumes "row_inv t" and "tr_status t \<in> {STARTED, RUNNING, CANCEL_REQUESTED}"
  shows "tr_assigned_worker_id t \<noteq> None" "tr_started_at t \<noteq> None"
  using assms unfolding row_inv_def by fastforce+

lemma row_inv_finalize:
  assumes "row_inv t" and "st \<in> TERMINAL_STATUSES" and "finalize_allowed t wid st r"
  shows "row_inv (finalize_row st msg r now t)"
proof (rule row_inv_terminal)
  have "tr_status t \<in> {STARTED, RUNNING, CANCEL_REQUESTED}"
    using assms(3) by (auto simp: finalize_allowed_def)
  then show "tr_assigned_worker_id (finalize_row st msg r now t) \<noteq> None"
    and "tr_started_at (finalize_row st msg r now t) \<noteq> None"
    unfolding finalize_row_fields by (rule row_inv_owner [OF assms(1)])+
  assume "tr_status (finalize_row st msg r now t) = ERROR"
  then have "st = ERROR" by (simp add: lifecycle_simps)
  then have "finalize_reason t r = None \<or> terminal_status_for_termination_reason (finalize_reason t r) = ERROR"
    using assms(3) by (auto simp: finalize_allowed_def)
  then show "tr_termination_reason (finalize_row st msg r now t) = None \<or>
      tr_termination_reason (finalize_row st msg r now t) \<in> Some ` FAILURE_TERMINATION_REASONS"
    using terminal_status_row(3) unfolding finalize_row_fields by blast
qed (use assms(2) in \<open>simp_all add: lifecycle_simps\<close>)

lemma row_inv_reconcile:
  assumes "row_inv t" and "reconcile_allowed t eff"
  shows "row_inv (reconcile_row eff msg now t)"
proof (rule row_inv_terminal)
  have "tr_status t \<in> {STARTED, RUNNING, CANCEL_REQUESTED}"
    using assms(2) by (auto simp: reconcile_allowed_def)
  then show "tr_assigned_worker_id (reconcile_row eff msg now t) \<noteq> None"
    and "tr_started_at (reconcile_row eff msg now t) \<noteq> None"
    unfolding reconcile_row_fields by (rule row_inv_owner [OF assms(1)])+
qed (use terminal_status_row in \<open>simp_all add: lifecycle_simps\<close>)

lemma row_inv_stop:
  assumes "row_inv t" and "tr_status t \<notin> TERMINAL_STATUSES"
  shows "row_inv (stop_row eff now t)"
  using assms
  by (cases "tr_status t")
     (simp_all add: row_inv_def lifecycle_simps status_sets del: not_None_eq, (elim conjE, simp)+)

lemma row_inv_evolves:
  assumes "evolves op now t t'" and "row_inv t"
  shows "row_inv t'"
  using assms(1)
proof cases
  case (ev_failed_pending r tid msg)
  then show ?thesis
    using assms(2)
    by (auto simp: row_inv_def lifecycle_simps status_sets FAILURE_TERMINATION_REASONS_def)
qed (use assms(2) in \<open>simp_all add: row_inv_finalize row_inv_reconcile row_inv_stop\<close>,
     simp_all add: row_inv_def status_sets del: not_None_eq, (elim conjE, simp)+)

section \<open>Invariant of the database\<close>

definition task_db_inv :: "db \<Rightarrow> bool" where
  "task_db_inv d \<longleftrightarrow> db_wf d \<and> (\<forall>t \<in> set (db_tasks d). row_inv t)"

lemma task_db_invD:
  "task_db_inv d \<Longrightarrow> db_wf d"
  "task_db_inv d \<Longrightarrow> task_of d tid = Some t \<Longrightarrow> row_inv t"
  by (auto simp: task_db_inv_def dest: row_get_SomeD)

lemma task_step_refines: "db_wf d \<Longrightarrow> task_step d l d' \<Longrightarrow> refines (fst l) (fst (snd l)) d d'"
  by (cases l) (auto elim: task_stepE dest: op_refines)

lemma task_step_wf: "db_wf d \<Longrightarrow> task_step d l d' \<Longrightarrow> db_wf d'"
  using task_step_refines unfolding refines_def by blast

lemma task_step_row:
  assumes "db_wf d" and "task_step d l d'" and "task_of d tid = Some t"
  obtains t' where "task_of d' tid = Some t'" and "evolves (fst l) (fst (snd l)) t t'"
  using task_step_refines [OF assms(1,2)] assms(3) unfolding refines_def by blast

lemma task_step_inv:
  assumes "task_db_inv d" and "task_step d l d'"
  shows "task_db_inv d'"
proof -
  have wf: "db_wf d" using assms(1) by (rule task_db_invD)
  then have wf': "db_wf d'" using assms(2) by (rule task_step_wf)
  have "row_inv t'" if "t' \<in> set (db_tasks d')" for t'
  proof (cases "task_of d (tr_task_id t')")
    case None
    have "born (fst l) (fst (snd l)) t'"
      using task_step_refines [OF wf assms(2)] None task_of_in_set [OF wf' that]
      unfolding refines_def by blast
    then show ?thesis by (rule row_inv_born)
  next
    case (Some t)
    have "evolves (fst l) (fst (snd l)) t t'"
      using task_step_row [OF wf assms(2) Some] task_of_in_set [OF wf' that]
      by (metis option.inject)
    then show ?thesis using task_db_invD(2) [OF assms(1) Some] by (rule row_inv_evolves)
  qed
  then show ?thesis using wf' by (simp add: task_db_inv_def)
qed

definition task_init :: "db \<Rightarrow> bool" where
  "task_init d \<longleftrightarrow> d = empty_db"

interpretation task_inv: inductive_invariant task_init task_step task_db_inv
proof unfold_locales
  show "task_db_inv d" if "task_init d" for d
    using that by (simp add: task_init_def task_db_inv_def db_wf_empty) (simp add: empty_db_def)
qed (rule task_step_inv)

section \<open>Runs\<close>

lemma run_wf: "run task_step d ls d' \<Longrightarrow> db_wf d \<Longrightarrow> db_wf d'"
  by (induction rule: run.induct) (auto intro: task_step_wf)

text \<open>A set of statuses that every move stays in is never left by a run.\<close>

lemma run_status_closed:
  assumes "run task_step d ls d'" and "db_wf d" and "task_of d tid = Some t" and "tr_status t \<in> S"
    and closed: "\<And>st. st \<in> S \<Longrightarrow> successors st \<subseteq> S"
  shows "\<exists>t'. task_of d' tid = Some t' \<and> tr_status t' \<in> S"
  using assms(1-4)
proof (induction arbitrary: t rule: run.induct)
  case (run_Nil d)
  then show ?case by blast
next
  case (run_Cons d l d1 ls d')
  obtain t1 where t1: "task_of d1 tid = Some t1" "evolves (fst l) (fst (snd l)) t t1"
    using task_step_row [OF run_Cons.prems(1) run_Cons.hyps(1) run_Cons.prems(2)] .
  have "tr_status t1 \<in> S"
    using evolves_status [OF t1(2)] closed [OF run_Cons.prems(3)] run_Cons.prems(3) by blast
  then show ?case
    using run_Cons.IH [OF task_step_wf [OF run_Cons.prems(1) run_Cons.hyps(1)] t1(1)] by blast
qed

lemma run_terminal_row:
  assumes "run task_step d ls d'" and "db_wf d" and "task_of d tid = Some t"
    and "tr_status t \<in> TERMINAL_STATUSES"
  shows "task_of d' tid = Some t"
  using assms
proof (induction rule: run.induct)
  case (run_Cons d l d1 ls d')
  obtain t1 where t1: "task_of d1 tid = Some t1" "evolves (fst l) (fst (snd l)) t t1"
    using task_step_row [OF run_Cons.prems(1) run_Cons.hyps(1) run_Cons.prems(2)] .
  then have "task_of d1 tid = Some t"
    using evolves_terminal run_Cons.prems(3) by simp
  then show ?case
    using run_Cons.IH task_step_wf [OF run_Cons.prems(1) run_Cons.hyps(1)] run_Cons.prems(3) by blast
qed

section \<open>Claims\<close>

fun is_claim :: "task_id \<Rightarrow> task_label \<Rightarrow> bool" where
  "is_claim tid (OpClaim tid' wid, now, ok) \<longleftrightarrow> ok \<and> tid' = tid"
| "is_claim tid _ \<longleftrightarrow> False"

definition successful_claims :: "task_id \<Rightarrow> task_label list \<Rightarrow> nat" where
  "successful_claims tid ls = length (filter (is_claim tid) ls)"

definition past_claim :: "task_id \<Rightarrow> db \<Rightarrow> bool" where
  "past_claim tid d \<longleftrightarrow> (\<exists>t. task_of d tid = Some t \<and> tr_status t \<notin> {PENDING, QUEUED, ASSIGNED})"

lemma past_claim_step:
  assumes "db_wf d" and "task_step d l d'" and "past_claim tid d"
  shows "past_claim tid d'"
proof -
  obtain t where t: "task_of d tid = Some t" "tr_status t \<notin> {PENDING, QUEUED, ASSIGNED}"
    using assms(3) unfolding past_claim_def by blast
  obtain t' where t': "task_of d' tid = Some t'" "evolves (fst l) (fst (snd l)) t t'"
    using task_step_row [OF assms(1,2) t(1)] .
  have "tr_status t' \<notin> {PENDING, QUEUED, ASSIGNED}"
    using evolves_status [OF t'(2)] t(2) by (cases "tr_status t") auto
  then show ?thesis using t'(1) unfolding past_claim_def by blast
qed

lemma is_claim_step:
  assumes "db_wf d" and "task_step d l d'" and "is_claim tid l"
  shows "\<not> past_claim tid d" "past_claim tid d'"
proof -
  obtain wid now where l: "l = (OpClaim tid wid, now, True)"
    using assms(3) by (cases "(tid, l)" rule: is_claim.cases) auto
  then have c: "claim tid wid now d = (True, d')"
    using assms(2) by (auto simp: claim_task_def elim: task_stepE)
  obtain t where t: "task_of d tid = Some t" "tr_status t \<in> CLAIMABLE_STATUSES"
    using claim_True_iff [OF assms(1), of tid wid now] c by auto
  show "\<not> past_claim tid d" using t by (simp add: past_claim_def status_sets)
  have "task_of d' tid = Some (t\<lparr>tr_status := STARTED, tr_assigned_worker_id := Some wid,
      tr_started_at := Some now, tr_updated_at := now\<rparr>)"
    using task_of_claim [OF assms(1), where tid = tid and wid = wid and now = now and tid' = tid] c t
    by simp
  then show "past_claim tid d'" by (simp add: past_claim_def)
qed

lemma claims_of_run:
  assumes "run task_step d ls d'" and "db_wf d"
  shows "successful_claims tid ls \<le> 1 \<and> (past_claim tid d \<longrightarrow> successful_claims tid ls = 0)"
  using assms
proof (induction rule: run.induct)
  case (run_Nil d)
  then show ?case by (simp add: successful_claims_def)
next
  case (run_Cons d l d1 ls d')
  note IH = run_Cons.IH [OF task_step_wf [OF run_Cons.prems run_Cons.hyps(1)]]
  show ?case
  proof (cases "is_claim tid l")
    case True
    then show ?thesis
      using IH is_claim_step [OF run_Cons.prems run_Cons.hyps(1)] by (simp add: successful_claims_def)
  next
    case False
    then show ?thesis
      using IH past_claim_step [OF run_Cons.prems run_Cons.hyps(1)] by (simp add: successful_claims_def)
  qed
qed

section \<open>Ownership\<close>

lemma evolves_owner:
  assumes "evolves op now t t'" and "tr_assigned_worker_id t' = Some w"
  shows "tr_assigned_worker_id t = Some w \<or>
         (op = OpClaim (tr_task_id t) w \<and> tr_status t \<in> CLAIMABLE_STATUSES)"
  using assms by cases (simp_all add: lifecycle_simps)

lemma born_no_owner: "born op now t \<Longrightarrow> tr_assigned_worker_id t = None"
  by (induction rule: born.induct) simp_all

lemma owner_claimed:
  assumes "run task_step empty_db ls d" and "task_of d tid = Some t"
    and "tr_assigned_worker_id t = Some w"
  shows "\<exists>now. (OpClaim tid w, now, True) \<in> set ls"
  using assms
proof (induction ls arbitrary: d t rule: rev_induct)
  case Nil
  then show ?case by (auto simp: empty_db_def)
next
  case (snoc l ls)
  obtain d0 where run0: "run task_step empty_db ls d0" and step: "task_step d0 l d"
    using run_snocD [OF snoc.prems(1)] by blast
  have wf: "db_wf d0" using run_wf [OF run0 db_wf_empty] .
  obtain op now ok where l: "l = (op, now, ok)" by (rule prod_cases3)
  have ref: "refines op now d0 d" using task_step_refines [OF wf step] l by simp
  show ?case
  proof (cases "task_of d0 tid")
    case None
    then have "born op now t" using ref snoc.prems(2) unfolding refines_def by blast
    then show ?thesis using born_no_owner snoc.prems(3) by force
  next
    case (Some t0)
    then have "evolves op now t0 t" using ref snoc.prems(2) unfolding refines_def by fastforce
    then consider "tr_assigned_worker_id t0 = Some w"
      | "op = OpClaim tid w" "tr_status t0 \<in> CLAIMABLE_STATUSES"
      using evolves_owner snoc.prems(3) task_id_of [OF Some] by blast
    then show ?thesis
    proof cases
      case 1
      then show ?thesis using snoc.IH [OF run0 Some] by auto
    next
      case 2
      then have "ok" using step l claim_True_iff [OF wf, of tid w now] Some by (auto simp: claim_task_def elim: task_stepE)
      then show ?thesis using 2(1) l by auto
    qed
  qed
qed

section \<open>Concurrent stop requests\<close>

definition stop_all :: "task_id \<Rightarrow> (reason \<times> bool) list \<Rightarrow> datetime \<Rightarrow> db \<Rightarrow> db" where
  "stop_all tid reqs now d = fold (\<lambda>(r, hard) d. snd (request_stop tid r hard now d)) reqs d"

lemma stop_active:
  assumes wf: "db_wf d" and t: "task_of d tid = Some t"
    and st: "tr_status t \<notin> {PENDING, QUEUED, SUCCESS, ERROR, CANCELLED}"
  shows "db_wf (snd (request_stop tid r hard now d)) \<and>
    (\<exists>t'. task_of (snd (request_stop tid r hard now d)) tid = Some t' \<and> tr_status t' = CANCEL_REQUESTED \<and>
          tr_termination_reason t' = add_request (r, hard) (tr_termination_reason t))"
proof -
  let ?row = "stop_row (choose_termination_reason (tr_termination_reason t) r hard) now t"
  have e: "snd (request_stop tid r hard now d) = put_task ?row d"
    using t st by (simp add: request_stop_def Let_def)
  have "task_of (put_task ?row d) tid = Some ?row"
    using t by (simp add: task_of_put_task [OF wf] task_id_of [OF t])
  moreover have "db_wf (put_task ?row d)"
    using wf t by (intro db_wf_put_task [of d ?row t]) (simp_all add: task_id_of [OF t])
  ultimately show ?thesis
    unfolding e using st by (auto simp: lifecycle_simps add_request_def)
qed

lemma stop_all_active:
  assumes "db_wf d" and "task_of d tid = Some t"
    and "tr_status t \<notin> {PENDING, QUEUED, SUCCESS, ERROR, CANCELLED}"
  shows "\<exists>t'. task_of (stop_all tid reqs now d) tid = Some t' \<and>
    tr_termination_reason t' = resolve_requests (tr_termination_reason t) reqs"
  using assms
proof (induction reqs arbitrary: d t)
  case Nil
  then show ?case by (simp add: stop_all_def resolve_requests_def)
next
  case (Cons q reqs)
  obtain r hard where q: "q = (r, hard)" by (rule prod.exhaust)
  let ?d = "snd (request_stop tid r hard now d)"
  obtain t' where t': "task_of ?d tid = Some t'" "tr_status t' = CANCEL_REQUESTED"
      "tr_termination_reason t' = add_request (r, hard) (tr_termination_reason t)" "db_wf ?d"
    using stop_active [OF Cons.prems] by blast
  show ?case
    using Cons.IH [OF t'(4,1)] t'(2,3) by (simp add: stop_all_def resolve_requests_def q)
qed

section \<open>Executing a sequence of operations\<close>

fun exec_ops ::
    "(task_id \<Rightarrow> bool \<Rightarrow> bool) \<Rightarrow> (task_op \<times> datetime) list \<Rightarrow> db \<Rightarrow> task_label list \<times> db" where
  "exec_ops rv [] d = ([], d)"
| "exec_ops rv ((op, now) # ops) d =
     (let (ok, d1) = op_effect rv op now d; (ls, d2) = exec_ops rv ops d1 in ((op, now, ok) # ls, d2))"

lemma run_exec_ops: "run task_step d (fst (exec_ops rv ops d)) (snd (exec_ops rv ops d))"
  by (induction rv ops d rule: exec_ops.induct)
     (auto simp: Let_def split: prod.splits intro: run.intros task_stepI)

text \<open>A sample task and a sample history: the task is queued, two workers claim it, one wins.\<close>

definition sample_task :: "task_id \<Rightarrow> TaskSource \<Rightarrow> datetime \<Rightarrow> TaskExecution" where
  "sample_task tid src queued = \<lparr>
     te_task_id = tid, te_user_id = ''u'', te_organization_id = ''o'', te_project_id = ''p'',
     te_mode = FULL, te_source = src, te_status = PENDING, te_force_exec = False,
     te_queued_at = queued, te_schedule_run_id = None, te_schedule_attempt = None,
     te_assigned_worker_id = None, te_termination_reason = None, te_message = None,
     te_updated_at = None\<rparr>"

definition sample_history :: "(task_op \<times> datetime) list" where
  "sample_history =
     [(OpCreatePending (sample_task ''a'' UI 1), 1), (OpEnqueue (sample_task ''a'' UI 1) ''{}'' ''d1'', 2),
      (OpPublished ''d1'', 3), (OpClaim ''a'' ''w1'', 4), (OpClaim ''a'' ''w2'', 5),
      (OpMarkRunning ''a'' ''w1'', 6)]"

definition sample_db :: "(task_op \<times> datetime) list \<Rightarrow> db" where
  "sample_db ops = snd (exec_ops (\<lambda>_ _. True) ops empty_db)"

definition sample_labels :: "(task_op \<times> datetime) list \<Rightarrow> task_label list" where
  "sample_labels ops = fst (exec_ops (\<lambda>_ _. True) ops empty_db)"

lemma run_sample: "run task_step empty_db (sample_labels ops) (sample_db ops)"
  unfolding sample_labels_def sample_db_def by (rule run_exec_ops)

lemma reach_sample: "reach task_init task_step (sample_db ops)"
  using run_reach [OF run_sample, of task_init] by (simp add: reach_init task_init_def)

section \<open>Properties\<close>



text \<open>
  C2. A task is claimed at most once in any run from any well-formed database: of all claim
  calls for it, by any workers and after any number of duplicate deliveries, at most one
  succeeds.
\<close>

theorem claim_at_most_once:
  assumes "run task_step d ls d'" and "db_wf d"
  shows "successful_claims tid ls \<le> 1"
  using claims_of_run [OF assms] by blast

theorem claim_at_most_once_witness:
  "successful_claims ''a'' (sample_labels sample_history) = 1 \<and>
   successful_claims ''a'' (sample_labels sample_history) \<le> 1"
proof
  show "successful_claims ''a'' (sample_labels sample_history) = 1" by code_simp
  show "successful_claims ''a'' (sample_labels sample_history) \<le> 1"
    by (rule claim_at_most_once [OF run_sample db_wf_empty])
qed

text \<open>
  C3. A task row whose status is SUCCESS, ERROR or CANCELLED is never changed again: after any
  run the row is there with every column as it was.
\<close>

theorem terminal_rows_are_final:
  assumes "run task_step d ls d'" and "db_wf d" and "task_of d tid = Some t"
    and "tr_status t \<in> TERMINAL_STATUSES"
  shows "task_of d' tid = Some t"
  using assms by (rule run_terminal_row)

definition sample_finished :: "(task_op \<times> datetime) list" where
  "sample_finished = sample_history @ [(OpFinalize ''a'' ''w1'' SUCCESS None None, 7)]"

definition sample_late :: "(task_op \<times> datetime) list" where
  "sample_late = [(OpStop ''a'' USER_STOP, 8), (OpReconcile ''a'' (Some (Known WORKER_LOST)) None, 9),
     (OpEnqueue (sample_task ''a'' UI 1) ''{}'' ''d2'', 10)]"

theorem terminal_rows_are_final_witness:
  "\<exists>t. task_of (sample_db sample_finished) ''a'' = Some t \<and> tr_status t = SUCCESS \<and>
     task_of (snd (exec_ops (\<lambda>_ _. True) sample_late (sample_db sample_finished))) ''a'' = Some t"
proof -
  have "map_option tr_status (task_of (sample_db sample_finished) ''a'') = Some SUCCESS" by code_simp
  then obtain t where t: "task_of (sample_db sample_finished) ''a'' = Some t" "tr_status t = SUCCESS"
    by blast
  have "db_wf (sample_db sample_finished)" by (rule run_wf [OF run_sample db_wf_empty])
  then show ?thesis
    using terminal_rows_are_final [OF run_exec_ops _ t(1)] t by (simp add: TERMINAL_STATUSES_def)
qed

text \<open>
  C4. Only the worker that claimed a task can complete it: in every run from the empty
  database, a finalisation that takes hold is preceded by a successful claim of the same task
  by the same worker.
\<close>

theorem finalized_only_by_claimer:
  assumes "run task_step empty_db (ls @ [(OpFinalize tid wid st msg r, now, True)]) d'"
  shows "\<exists>now'. (OpClaim tid wid, now', True) \<in> set ls"
proof -
  obtain d where run: "run task_step empty_db ls d"
    and step: "task_step d (OpFinalize tid wid st msg r, now, True) d'"
    using run_snocD [OF assms] by blast
  have "finalize tid wid st msg r now d = Inr (True, d')"
    using step by (auto simp: commit_or_abort_def finalize_task_def split: sum.splits elim!: task_stepE)
  then obtain t where "task_of d tid = Some t" "finalize_allowed t wid st r"
    by (auto simp: finalize_def split: option.splits if_split_asm)
  then show ?thesis
    using owner_claimed [OF run] by (simp add: finalize_allowed_def)
qed

theorem finalized_only_by_claimer_witness:
  "\<exists>now'. (OpClaim ''a'' ''w1'', now', True) \<in> set (sample_labels sample_history)"
proof -
  have "sample_labels sample_finished =
      sample_labels sample_history @ [(OpFinalize ''a'' ''w1'' SUCCESS None None, 7, True)]"
    by code_simp
  then show ?thesis
    using finalized_only_by_claimer run_sample [of sample_finished] by simp
qed

text \<open>
  C5. A task on which a stop was requested is never reported as successful: once
  CANCEL_REQUESTED, after any run its status is CANCEL_REQUESTED, ERROR or CANCELLED.
\<close>

theorem cancel_requested_never_succeeds:
  assumes "run task_step d ls d'" and "db_wf d" and "task_of d tid = Some t"
    and "tr_status t = CANCEL_REQUESTED"
  shows "\<exists>t'. task_of d' tid = Some t' \<and> tr_status t' \<in> {CANCEL_REQUESTED, ERROR, CANCELLED}"
  by (rule run_status_closed [OF assms(1-3)]) (use assms(4) in auto)

definition sample_stopped :: "(task_op \<times> datetime) list" where
  "sample_stopped = sample_history @ [(OpStop ''a'' USER_STOP, 7)]"

theorem cancel_requested_never_succeeds_witness:
  "\<exists>t'. task_of (snd (exec_ops (\<lambda>_ _. True) [(OpFinalize ''a'' ''w1'' SUCCESS None None, 8)]
        (sample_db sample_stopped))) ''a'' = Some t' \<and> tr_status t' \<in> {CANCEL_REQUESTED, ERROR, CANCELLED}"
proof -
  have "map_option tr_status (task_of (sample_db sample_stopped) ''a'') = Some CANCEL_REQUESTED"
    by code_simp
  then obtain t where t: "task_of (sample_db sample_stopped) ''a'' = Some t" "tr_status t = CANCEL_REQUESTED"
    by blast
  show ?thesis
    by (rule cancel_requested_never_succeeds [OF run_exec_ops run_wf [OF run_sample db_wf_empty] t])
qed

text \<open>
  C6. Every operation refines the lifecycle graph: it leaves a task row as it is or moves it
  along an edge of the graph, and it never changes the identity, source, project, queueing time
  or schedule slot of the task.
\<close>

theorem operations_follow_lifecycle:
  assumes "db_wf d" and "task_step d l d'" and "task_of d tid = Some t"
  shows "\<exists>t'. task_of d' tid = Some t' \<and> (t' = t \<or> tr_status t' \<in> successors (tr_status t)) \<and>
    tr_task_id t' = tr_task_id t \<and> tr_source t' = tr_source t \<and> tr_project_id t' = tr_project_id t \<and>
    tr_queued_at t' = tr_queued_at t \<and> schedule_slot t' = schedule_slot t"
proof -
  obtain t' where "task_of d' tid = Some t'" "evolves (fst l) (fst (snd l)) t t'"
    using task_step_row [OF assms] .
  then show ?thesis using evolves_status evolves_identity by blast
qed

theorem operations_follow_lifecycle_witness:
  "\<exists>t t'. task_of (sample_db sample_history) ''a'' = Some t \<and> tr_status t = RUNNING \<and>
     task_of (sample_db sample_stopped) ''a'' = Some t' \<and> tr_status t' \<in> successors RUNNING \<and>
     tr_queued_at t' = tr_queued_at t"
proof -
  have "map_option tr_status (task_of (sample_db sample_history) ''a'') = Some RUNNING"
    and st': "map_option tr_status (task_of (sample_db sample_stopped) ''a'') = Some CANCEL_REQUESTED"
    by code_simp+
  then obtain t where t: "task_of (sample_db sample_history) ''a'' = Some t" "tr_status t = RUNNING"
    by blast
  have "op_effect (\<lambda>_ _. True) (OpStop ''a'' USER_STOP) 7 (sample_db sample_history) =
      (True, sample_db sample_stopped)"
    by code_simp
  then have "task_step (sample_db sample_history) (OpStop ''a'' USER_STOP, 7, True) (sample_db sample_stopped)"
    by (rule task_stepI)
  then show ?thesis
    using operations_follow_lifecycle [OF run_wf [OF run_sample db_wf_empty] _ t(1)] t st' by force
qed



end
