(* ===== verification/Task_Outbox.thy ===== *)
theory Task_Outbox
  imports Task_Safety
begin

text \<open>
  The transactional outbox (\<^verbatim>\<open>task_dispatch_outbox\<close>): a task that is QUEUED has a dispatch
  that is still to be published or was published, a task cancelled before it started has none
  to publish, and a publication round settles every dispatch it reads. Coalescing of root
  executions is here as well, since it changes both tables in one transaction.
\<close>

section \<open>Dispatch rows after an operation\<close>

definition cancel_dispatch_row :: "TaskDispatchOutboxRecord \<Rightarrow> TaskDispatchOutboxRecord" where
  "cancel_dispatch_row r = (if ob_published_at r = None then r\<lparr>ob_status := OB_CANCELLED\<rparr> else r)"

lemma dispatch_of_cancel:
  "db_wf d \<Longrightarrow> dispatch_of (cancel_dispatches tids d) tid =
     (if tid \<in> set tids then map_option cancel_dispatch_row (dispatch_of d tid) else dispatch_of d tid)"
  unfolding cancel_dispatches_def
  by (auto simp: row_get_rows_update db_wf_outbox_ids map_option_case cancel_dispatch_row_def
      split: option.splits dest: row_get_SomeD)

lemma dispatch_of_add_outbox:
  "dispatch_of (add_outbox tid payload oid now d) tid' =
     (if tid' = tid \<and> dispatch_of d tid = None then Some (new_outbox_record oid tid payload now)
      else dispatch_of d tid')"
  by (auto simp: add_outbox_def row_get_snoc new_outbox_record_def split: option.splits)

lemma enqueue_with_dispatch_outbox:
  assumes wf: "db_wf d" and enq: "enqueue_with_dispatch x payload oid now d = Inr (res, d')"
    and admit: "enqueue_admit x now d = Inr (Some (task, d1))"
    and stale: "stale \<longleftrightarrow> te_source x \<in> ROOT_EXECUTION_SOURCES \<and>
      tid \<in> set (stale_ids (tr_project_id task) (db_tasks d1))"
  shows "dispatch_of d' tid =
    (if stale then map_option cancel_dispatch_row (dispatch_of d tid)
     else if tid = te_task_id x \<and> dispatch_of d tid = None
     then Some (new_outbox_record oid tid payload now)
     else dispatch_of d tid)"
  using enq
proof (cases rule: enqueue_with_dispatchD)
  case ignored
  then show ?thesis using admit by simp
next
  case (admitted task2 d12 task' stale_tasks d2)
  then have eq: "task2 = task" "d12 = d1" using admit by simp_all
  let ?root = "te_source x \<in> ROOT_EXECUTION_SOURCES"
  let ?ids = "stale_ids (tr_project_id task) (db_tasks d1)"
  note a = enqueue_admitD [OF wf admit]
  let ?d0 = "d1\<lparr>db_tasks := rows_update (\<lambda>t. tr_task_id t \<in> set ?ids) (supersede_row now) (db_tasks d1)\<rparr>"
  have wf0: "db_wf ?d0"
    by (rule db_wf_tasks_update [OF a(1)]) simp
  have d2: "?root \<Longrightarrow> d2 = cancel_dispatches ?ids ?d0" "\<not> ?root \<Longrightarrow> d2 = d1"
    using admitted(2) by (auto simp: eq coalesce_eq Let_def)
  have out2: "dispatch_of d2 u = (if ?root \<and> u \<in> set ?ids
      then map_option cancel_dispatch_row (dispatch_of d u) else dispatch_of d u)" for u
    using d2 dispatch_of_cancel [OF wf0, of u ?ids] a(5) by (cases ?root) simp_all
  have "tr_status task' = CANCELLED \<longleftrightarrow> te_task_id x \<in> set ?ids" if ?root
    using admitted(2) that a(3,4) by (auto simp: eq coalesce_eq Let_def split: if_split_asm)
  then have "d' = (if ?root \<and> te_task_id x \<in> set ?ids then d2
      else add_outbox (te_task_id x) payload oid now d2)"
    using admitted(4) by auto
  then show ?thesis
    using out2 by (auto simp: stale dispatch_of_add_outbox)
qed

section \<open>Tasks and their dispatches agree\<close>

definition outbox_row_ok :: "TaskDispatchOutboxRecord \<Rightarrow> bool" where
  "outbox_row_ok r \<longleftrightarrow> (ob_status r = OB_PUBLISHED \<longleftrightarrow> ob_published_at r \<noteq> None)"

definition dispatch_ok :: "TaskRecord \<Rightarrow> TaskDispatchOutboxRecord option \<Rightarrow> bool" where
  "dispatch_ok t od \<longleftrightarrow>
     (tr_status t = PENDING \<longrightarrow> od = None) \<and>
     (tr_status t = QUEUED \<longrightarrow> (\<exists>r. od = Some r \<and> ob_status r \<noteq> OB_CANCELLED)) \<and>
     (tr_status t = CANCELLED \<and> tr_started_at t = None \<longrightarrow>
        (\<forall>r. od = Some r \<longrightarrow> \<not> is_pending_dispatch r)) \<and>
     (\<forall>r. od = Some r \<longrightarrow> outbox_row_ok r)"

definition outbox_inv :: "db \<Rightarrow> bool" where
  "outbox_inv d \<longleftrightarrow>
     task_db_inv d \<and> (\<forall>tid t. task_of d tid = Some t \<longrightarrow> dispatch_ok t (dispatch_of d tid))"

lemma dispatch_ok_row: "dispatch_ok t (Some r) \<Longrightarrow> outbox_row_ok r"
  by (simp add: dispatch_ok_def)

lemma dispatch_ok_active:
  "tr_status t \<notin> {PENDING, QUEUED} \<Longrightarrow> tr_status t = CANCELLED \<longrightarrow> tr_started_at t \<noteq> None \<Longrightarrow>
   (\<And>r. od = Some r \<Longrightarrow> outbox_row_ok r) \<Longrightarrow> dispatch_ok t od"
  unfolding dispatch_ok_def by blast

lemma dispatch_ok_cancelled:
  assumes "\<And>r. od = Some r \<Longrightarrow> outbox_row_ok r" and "tr_status t = CANCELLED"
  shows "dispatch_ok t (map_option cancel_dispatch_row od)"
  using assms
  by (cases od) (auto simp: dispatch_ok_def outbox_row_ok_def cancel_dispatch_row_def is_pending_dispatch_def)

lemma dispatch_ok_queued_new:
  "tr_status t = QUEUED \<Longrightarrow> dispatch_ok t (Some (new_outbox_record oid tid payload now))"
  by (simp add: dispatch_ok_def outbox_row_ok_def new_outbox_record_def)

text \<open>Operations that leave the outbox alone.\<close>

lemma dispatch_ok_evolves:
  assumes "evolves op now t t'" and "row_inv t" and "dispatch_ok t od"
    and "\<And>x p oid. op \<noteq> OpEnqueue x p oid" and "\<And>tid r. op \<noteq> OpStop tid r" and "\<And>tid r. op \<noteq> OpKill tid r"
  shows "dispatch_ok t' od"
proof (cases "t' = t")
  case False
  have row: "\<And>r. od = Some r \<Longrightarrow> outbox_row_ok r" using assms(3) dispatch_ok_row by blast
  have "tr_status t' \<notin> {PENDING, QUEUED} \<and> (tr_status t' = CANCELLED \<longrightarrow> tr_started_at t' \<noteq> None)"
    using assms(1)
  proof cases
    case (ev_finalized st wid r tid msg)
    then have "tr_status t \<in> {STARTED, RUNNING, CANCEL_REQUESTED}" "st \<notin> {PENDING, QUEUED}"
      by (auto simp: finalize_allowed_def status_sets)
    then show ?thesis using ev_finalized row_inv_owner(2) [OF assms(2)] by (simp add: lifecycle_simps)
  next
    case (ev_reconciled k eff tid msg)
    then have "tr_status t \<in> {STARTED, RUNNING, CANCEL_REQUESTED}"
      by (auto simp: reconcile_allowed_def)
    then show ?thesis
      using ev_reconciled(2) row_inv_owner(2) [OF assms(2)] terminal_status_cases [of "Some eff"]
      by (auto simp: lifecycle_simps)
  qed (use assms False in \<open>simp_all add: lifecycle_simps\<close>)
  then show ?thesis using row by (intro dispatch_ok_active) blast+
qed (use assms in simp)

lemma dispatch_ok_enqueue:
  assumes wf: "db_wf d" and ok: "\<And>tid t. task_of d tid = Some t \<Longrightarrow> dispatch_ok t (dispatch_of d tid)"
    and enq: "enqueue_with_dispatch x payload oid now d = Inr (res, d')" and t': "task_of d' tid = Some t'"
  shows "dispatch_ok t' (dispatch_of d' tid)"
  using enq
proof (cases rule: enqueue_with_dispatchD)
  case ignored
  then show ?thesis using ok t' by simp
next
  case (admitted task d1 task' stale_tasks d2)
  note admit = admitted(1) and a = enqueue_admitD [OF wf admitted(1)]
  define stale where "stale \<longleftrightarrow> te_source x \<in> ROOT_EXECUTION_SOURCES \<and>
    tid \<in> set (stale_ids (tr_project_id task) (db_tasks d1))"
  note out = enqueue_with_dispatch_outbox [OF wf enq admit stale_def]
  obtain u where u: "task_of d1 tid = Some u" "t' = (if stale then supersede_row now u else u)"
    using enqueue_with_dispatch_tasks [OF wf enq admit, of tid] t'
    by (cases "task_of d1 tid") (simp_all add: stale_def)
  have row: "outbox_row_ok r" if "dispatch_of d tid = Some r" for r
    using dispatch_task_exists [OF wf that] ok that dispatch_ok_row by metis
  show ?thesis
  proof (cases stale)
    case True
    then show ?thesis using out u(2) dispatch_ok_cancelled [OF row] by simp
  next
    case fresh: False
    show ?thesis
    proof (cases "tid = te_task_id x")
      case True
      then have t: "t' = task" "tr_status t' = QUEUED" using u fresh a by simp_all
      show ?thesis
      proof (cases "dispatch_of d tid")
        case None
        then show ?thesis using out fresh True t(2) by (simp add: dispatch_ok_queued_new)
      next
        case (Some r)
        obtain t0 where t0: "task_of d tid = Some t0" using dispatch_task_exists [OF wf Some] by blast
        then have "tr_status t0 \<noteq> PENDING"
          using ok [OF t0] Some by (auto simp: dispatch_ok_def)
        then have "task = t0" using enqueue_admit_row [OF admit] t0 True by auto
        then show ?thesis using out fresh Some ok [OF t0] t(1) by simp
      qed
    next
      case False
      then show ?thesis using out fresh u a(6) ok by simp
    qed
  qed
qed

lemma dispatch_ok_stop:
  assumes wf: "db_wf d" and ok: "\<And>tid t. task_of d tid = Some t \<Longrightarrow> dispatch_ok t (dispatch_of d tid)"
    and t': "task_of (snd (request_stop tid r hard now d)) tid' = Some t'"
  shows "dispatch_ok t' (dispatch_of (snd (request_stop tid r hard now d)) tid')"
proof (cases "\<exists>t. task_of d tid = Some t \<and> tr_status t \<notin> TERMINAL_STATUSES")
  case True
  then obtain t where t: "task_of d tid = Some t" and st: "tr_status t \<notin> TERMINAL_STATUSES"
    by blast
  let ?early = "tr_status t \<in> {PENDING, QUEUED}"
  let ?d = "if ?early then cancel_dispatches [tid] d else d"
  let ?row = "stop_row (choose_termination_reason (tr_termination_reason t) r hard) now t"
  have e: "snd (request_stop tid r hard now d) = put_task ?row ?d"
    using t st by (simp add: request_stop_def Let_def TERMINAL_STATUSES_def)
  have wf': "db_wf ?d" using wf db_wf_cancel_dispatches by simp
  have tasks: "task_of ?d u = task_of d u" for u by simp
  have row: "outbox_row_ok q" if "dispatch_of d tid = Some q" for q
    using ok [OF t] that dispatch_ok_row by simp
  show ?thesis
  proof (cases "tid' = tid")
    case True
    then have t'': "t' = ?row"
      using t' t task_id_of [OF t] unfolding e task_of_put_task [OF wf'] tasks by simp
    show ?thesis
    proof (cases ?early)
      case early: True
      then show ?thesis
        using dispatch_ok_cancelled [OF row, where t = t'] t'' True dispatch_of_cancel [OF wf, of tid "[tid]"]
        by (simp add: e lifecycle_simps)
    next
      case False
      then have "dispatch_ok t' (dispatch_of d tid)"
        by (intro dispatch_ok_active row) (simp_all add: t'' lifecycle_simps)
      then show ?thesis using False True by (simp add: e)
    qed
  next
    case False
    then have "task_of d tid' = Some t'"
      using t' task_id_of [OF t] unfolding e task_of_put_task [OF wf'] tasks by simp
    then show ?thesis
      using ok False dispatch_of_cancel [OF wf, of tid' "[tid]"] by (simp add: e)
  qed
next
  case False
  then have "snd (request_stop tid r hard now d) = d"
    by (simp add: request_stop_def Let_def TERMINAL_STATUSES_def split: option.splits)
  then show ?thesis using ok t' by simp
qed

lemma dispatch_ok_mark_published:
  assumes wf: "db_wf d" and ok: "dispatch_ok t (dispatch_of d tid)"
  shows "dispatch_ok t (dispatch_of (mark_dispatch_published did now d) tid)"
    "dispatch_ok t (dispatch_of (record_dispatch_failure did err d) tid)"
proof -
  show "dispatch_ok t (dispatch_of (mark_dispatch_published did now d) tid)"
    using ok unfolding mark_dispatch_published_def
    by (cases "dispatch_of d tid")
       (auto simp: row_get_rows_update db_wf_outbox_ids [OF wf] dispatch_ok_def outbox_row_ok_def
          is_pending_dispatch_def)
  show "dispatch_ok t (dispatch_of (record_dispatch_failure did err d) tid)"
    using ok unfolding record_dispatch_failure_def
    by (cases "dispatch_of d tid")
       (auto simp: row_get_rows_update db_wf_outbox_ids [OF wf] dispatch_ok_def outbox_row_ok_def
          is_pending_dispatch_def)
qed

text \<open>The operations that never touch the outbox.\<close>

fun leaves_outbox :: "task_op \<Rightarrow> bool" where
  "leaves_outbox (OpEnqueue _ _ _) = False"
| "leaves_outbox (OpStop _ _) = False"
| "leaves_outbox (OpKill _ _) = False"
| "leaves_outbox (OpPublished _) = False"
| "leaves_outbox (OpPublishFailed _ _) = False"
| "leaves_outbox _ = True"

lemma outbox_insert_task: "insert_task t d = Inr d' \<Longrightarrow> db_outbox d' = db_outbox d"
  by (drule insert_taskD(1)) simp

lemma outbox_unchanged:
  assumes "op_effect rv op now d = (ok, d')" and "leaves_outbox op"
  shows "db_outbox d' = db_outbox d"
  using assms
  by (cases "(rv, op, now, d)" rule: op_effect.cases)
     (auto simp: commit_or_abort_def create_pending_execution_def create_pending_def Let_def
        bind_result_eq_Inr_iff outbox_insert_task claim_task_def claim_def mark_task_running_def
        mark_running_def finalize_task_def finalize_def finalize_reconciled_execution_def
        finalize_reconciled_def fail_pending_execution_def fail_pending_def
        split: sum.splits option.splits if_split_asm reason.splits prod.splits)

lemma outbox_inv_step:
  assumes inv: "outbox_inv d" and step: "task_step d l d'"
  shows "outbox_inv d'"
proof -
  obtain op now ok where l: "l = (op, now, ok)" by (rule prod_cases3)
  obtain rv where eff: "op_effect rv op now d = (ok, d')"
    using step unfolding l by (rule task_stepE)
  have tinv: "task_db_inv d" and okd: "\<And>tid t. task_of d tid = Some t \<Longrightarrow> dispatch_ok t (dispatch_of d tid)"
    using inv by (simp_all add: outbox_inv_def)
  have wf: "db_wf d" using tinv by (rule task_db_invD)
  have ref: "refines op now d d'" using op_refines [OF wf eff] .
  have other: "dispatch_ok t' (dispatch_of d' tid)"
    if same: "db_outbox d' = db_outbox d" and t': "task_of d' tid = Some t'"
      and op: "\<And>x p oid. op \<noteq> OpEnqueue x p oid" "\<And>tid r. op \<noteq> OpStop tid r" "\<And>tid r. op \<noteq> OpKill tid r"
    for tid t'
  proof (cases "task_of d tid")
    case None
    then have "born op now t'" using ref t' unfolding refines_def by blast
    then have "tr_status t' = PENDING" using op(1) by (cases rule: born.cases) auto
    moreover have "dispatch_of d tid = None"
      using dispatch_task_exists [OF wf, of tid] None by (cases "dispatch_of d tid") simp_all
    ultimately show ?thesis using same by (simp add: dispatch_ok_def)
  next
    case (Some t)
    then have "evolves op now t t'" using ref t' unfolding refines_def by fastforce
    then show ?thesis
      using dispatch_ok_evolves [OF _ task_db_invD(2) [OF tinv Some] okd [OF Some]] op same by simp
  qed
  have "dispatch_ok t' (dispatch_of d' tid)" if t': "task_of d' tid = Some t'" for tid t'
  proof (cases op)
    case (OpEnqueue x payload oid)
    then show ?thesis
    proof (cases "enqueue_with_dispatch x payload oid now d")
      case (Inl e)
      then show ?thesis
        using eff OpEnqueue okd t' by (simp add: enqueue_task_def commit_or_abort_def)
    next
      case (Inr p)
      then show ?thesis
        using eff OpEnqueue dispatch_ok_enqueue [OF wf okd, of x payload oid now "fst p" d'] t'
        by (simp add: enqueue_task_def commit_or_abort_def split: prod.splits)
    qed
  next
    case (OpStop u r)
    then show ?thesis
      using dispatch_ok_stop [OF wf okd] t' eff stop_effect(1) [of rv u r now d] by simp
  next
    case (OpKill u r)
    then show ?thesis
      using dispatch_ok_stop [OF wf okd] t' eff stop_effect(2) [of rv u r now d] by simp
  next
    case (OpPublished did)
    then show ?thesis using dispatch_ok_mark_published(1) [OF wf okd] eff t' by auto
  next
    case (OpPublishFailed did err)
    then show ?thesis using dispatch_ok_mark_published(2) [OF wf okd] eff t' by auto
  qed (rule other; use eff t' outbox_unchanged [OF eff] in simp)+
  then show ?thesis using task_step_inv [OF tinv step] by (simp add: outbox_inv_def)
qed

interpretation outbox: inductive_invariant task_init task_step outbox_inv
proof unfold_locales
  show "outbox_inv d" if "task_init d" for d
    using that task_inv.inv_init [of d] by (simp add: task_init_def outbox_inv_def) (simp add: empty_db_def)
qed (rule outbox_inv_step)

section \<open>Coalescing of root executions\<close>

lemma distinct_all_equal: "distinct xs \<Longrightarrow> \<forall>x \<in> set xs. x = h \<Longrightarrow> length xs \<le> 1"
  by (cases xs; cases "tl xs") auto

lemma candidate_after_enqueue:
  assumes wf: "db_wf d" and root: "te_source x \<in> ROOT_EXECUTION_SOURCES"
    and enq: "enqueue_with_dispatch x payload oid now d = Inr (res, d')"
    and admit: "enqueue_admit x now d = Inr (Some (task, d1))"
    and t: "t \<in> set (root_candidates (tr_project_id task) (db_tasks d'))"
  shows "t \<in> set (root_candidates (tr_project_id task) (db_tasks d1)) \<and>
         t = hd (root_candidates (tr_project_id task) (db_tasks d1))"
proof -
  let ?p = "tr_project_id task"
  have in': "t \<in> set (db_tasks d')" "tr_project_id t = ?p" "tr_source t \<in> ROOT_EXECUTION_SOURCES"
      "tr_status t \<in> SUPERSEDABLE_STATUSES"
    using t unfolding set_root_candidates by blast+
  have "task_of d' (tr_task_id t) = Some t"
    using task_of_in_set [OF db_wf_enqueue [OF wf enq] in'(1)] .
  then obtain u where u: "task_of d1 (tr_task_id t) = Some u"
      "t = (if tr_task_id t \<in> set (stale_ids ?p (db_tasks d1)) then supersede_row now u else u)"
    using enqueue_with_dispatch_tasks [OF wf enq admit, of "tr_task_id t"] root
    by (cases "task_of d1 (tr_task_id t)") simp_all
  have fresh: "tr_task_id t \<notin> set (stale_ids ?p (db_tasks d1))"
    using u(2) in'(4) by (auto simp: status_sets)
  then have "t \<in> set (db_tasks d1)" using u row_get_SomeD by fastforce
  then have c: "t \<in> set (root_candidates ?p (db_tasks d1))"
    using in' unfolding set_root_candidates by blast
  then show ?thesis
    using fresh candidate_stale_or_freshest [OF enqueue_admitD(1) [OF wf admit] c] by blast
qed

lemma enqueue_result:
  assumes enq: "enqueue_with_dispatch x payload oid now d = Inr (res, d')"
    and root: "te_source x \<in> ROOT_EXECUTION_SOURCES"
    and admit: "enqueue_admit x now d = Inr (Some (task, d1))"
  shows "te_project_id (er_execution res) = tr_project_id task \<and>
    er_superseded res = map to_entity (tl (root_candidates (tr_project_id task) (db_tasks d1)))"
  using enq
proof (cases rule: enqueue_with_dispatchD)
  case (admitted task2 d12 task' stale d2)
  then have eq: "task2 = task" "d12 = d1" using admit by simp_all
  have "stale = map to_entity (tl (root_candidates (tr_project_id task) (db_tasks d1)))"
      "tr_project_id task' = tr_project_id task"
    using admitted(2) root by (auto simp: eq coalesce_eq Let_def split: if_split_asm)
  then show ?thesis
    using admitted(3) by (simp_all add: to_entity_def)
qed (use admit in simp_all)

lemma enqueue_admitted:
  assumes "enqueue_with_dispatch x payload oid now d = Inr (res, d')"
    and "case task_of d (te_task_id x) of None \<Rightarrow> True | Some t \<Rightarrow> tr_status t \<in> SUPERSEDABLE_STATUSES"
  obtains task d1 where "enqueue_admit x now d = Inr (Some (task, d1))"
proof -
  have "enqueue_admit x now d \<noteq> Inr None"
    using assms(2)
    by (auto simp: enqueue_admit_def Let_def bind_result_eq_Inr_iff status_sets split: option.splits)
  then have ignored: "enqueue_admit x now d = Inr None \<Longrightarrow> thesis" by simp
  show thesis
    by (rule enqueue_with_dispatchD [OF assms(1)]) (erule ignored, erule that)
qed

section \<open>A publication round\<close>

text \<open>What a round does to an outbox row it reads.\<close>

definition settle_row ::
    "(task_id \<Rightarrow> json \<Rightarrow> string option) \<Rightarrow> datetime \<Rightarrow> TaskDispatchOutboxRecord \<Rightarrow> TaskDispatchOutboxRecord" where
  "settle_row publish now r =
     (case publish (ob_task_id r) (ob_payload r) of
        None \<Rightarrow> r\<lparr>ob_status := OB_PUBLISHED, ob_published_at := Some now, ob_last_error := None\<rparr>
      | Some err \<Rightarrow> r\<lparr>ob_attempts := ob_attempts r + 1, ob_last_error := Some (take 1000 err)\<rparr>)"

lemma settle_row_id [simp]: "ob_id (settle_row publish now r) = ob_id r"
  by (simp add: settle_row_def split: option.splits)

lemma publish_one:
  assumes "distinct (map ob_id (db_outbox d))" and "r \<in> set (db_outbox d)" and "ob_published_at r = None"
  shows "db_outbox (case publish (ob_task_id r) (ob_payload r) of
            Some err \<Rightarrow> record_dispatch_failure (ob_id r) err d
          | None \<Rightarrow> mark_dispatch_published (ob_id r) now d) =
         map (\<lambda>q. if ob_id q = ob_id r then settle_row publish now q else q) (db_outbox d)"
proof -
  have "q = r" if "q \<in> set (db_outbox d)" "ob_id q = ob_id r" for q
    using that assms(1,2) by (metis inj_onD distinct_map)
  then have q: "ob_id q = ob_id r \<longleftrightarrow> q = r" if "q \<in> set (db_outbox d)" for q
    using that by blast
  show ?thesis
    by (cases "publish (ob_task_id r) (ob_payload r)")
       (auto simp: record_dispatch_failure_def mark_dispatch_published_def rows_update_def
          settle_row_def assms(3) q)
qed

lemma publish_dispatches_eq:
  assumes "distinct (map ob_id (db_outbox d))" and "distinct (map ob_id rows)"
    and "set rows \<subseteq> set (db_outbox d)" and "\<forall>r \<in> set rows. ob_published_at r = None"
  shows "publish_dispatches publish now (map to_dispatch rows) n d =
    (n + length (filter (\<lambda>r. publish (ob_task_id r) (ob_payload r) = None) rows),
     d\<lparr>db_outbox := map (\<lambda>q. if ob_id q \<in> ob_id ` set rows then settle_row publish now q else q) (db_outbox d)\<rparr>)"
  using assms
proof (induction rows arbitrary: n d)
  case Nil
  then show ?case by (simp add: to_dispatch_def)
next
  case (Cons r rows)
  let ?d1 = "case publish (ob_task_id r) (ob_payload r) of
            Some err \<Rightarrow> record_dispatch_failure (ob_id r) err d
          | None \<Rightarrow> mark_dispatch_published (ob_id r) now d"
  let ?f = "\<lambda>q. if ob_id q = ob_id r then settle_row publish now q else q"
  have out: "db_outbox ?d1 = map ?f (db_outbox d)"
    using publish_one [of d r now publish] Cons.prems by simp
  have d1: "?d1 = d\<lparr>db_outbox := map ?f (db_outbox d)\<rparr>"
    using out by (cases "publish (ob_task_id r) (ob_payload r)")
      (simp_all add: record_dispatch_failure_def mark_dispatch_published_def)
  have ids: "map ob_id (db_outbox ?d1) = map ob_id (db_outbox d)" unfolding out by simp
  have sub: "set rows \<subseteq> set (db_outbox ?d1)"
  proof
    fix q assume "q \<in> set rows"
    then have "q \<in> set (db_outbox d)" "?f q = q"
      using Cons.prems(2,3) by (auto simp: image_iff)
    then show "q \<in> set (db_outbox ?d1)" unfolding out set_map by (intro image_eqI [of q ?f q]) (rule sym)
  qed
  have "publish_dispatches publish now (map to_dispatch (r # rows)) n d =
      publish_dispatches publish now (map to_dispatch rows)
        (if publish (ob_task_id r) (ob_payload r) = None then Suc n else n) ?d1"
    by (simp add: to_dispatch_def split: option.splits)
  also have "\<dots> = (n + length (filter (\<lambda>r. publish (ob_task_id r) (ob_payload r) = None) (r # rows)),
      ?d1\<lparr>db_outbox := map (\<lambda>q. if ob_id q \<in> ob_id ` set rows then settle_row publish now q else q)
        (db_outbox ?d1)\<rparr>)"
    using Cons.IH [of ?d1] ids sub Cons.prems by simp
  also have "map (\<lambda>q. if ob_id q \<in> ob_id ` set rows then settle_row publish now q else q) (db_outbox ?d1) =
      map (\<lambda>q. if ob_id q \<in> ob_id ` set (r # rows) then settle_row publish now q else q) (db_outbox d)"
    unfolding out using Cons.prems(2) by auto
  finally show ?case unfolding d1 by simp
qed

text \<open>The rows a round reads.\<close>

definition round_rows :: "nat \<Rightarrow> db \<Rightarrow> TaskDispatchOutboxRecord list" where
  "round_rows limit d = take limit (sort_key ob_created_at (filter is_pending_dispatch (db_outbox d)))"

lemma pending_dispatches_rows: "pending_dispatches limit d = map to_dispatch (round_rows limit d)"
  by (simp add: pending_dispatches_def round_rows_def)

lemma set_round_rows:
  "set (round_rows limit d) \<subseteq> {r \<in> set (db_outbox d). is_pending_dispatch r}"
  unfolding round_rows_def by (rule subsetI, drule selected_rows) blast

lemma distinct_round_rows:
  "distinct (map ob_id (db_outbox d)) \<Longrightarrow> distinct (map ob_id (round_rows limit d))"
  by (simp add: round_rows_def distinct_selected_rows)

section \<open>Properties\<close>

text \<open>
  C8. The outbox and the task table never disagree in a reachable state: a QUEUED task has a
  dispatch that is waiting for publication or was published, a PENDING task has none, and a
  task that was cancelled before any worker started it is not among the dispatches a publisher
  reads, whatever its batch size.
\<close>

theorem outbox_agrees_with_tasks:
  assumes "reach task_init task_step d" and "task_of d tid = Some t"
  shows "(tr_status t = QUEUED \<longrightarrow>
            (\<exists>r. dispatch_of d tid = Some r \<and> (is_pending_dispatch r \<or> ob_published_at r \<noteq> None))) \<and>
         (tr_status t = PENDING \<longrightarrow> dispatch_of d tid = None) \<and>
         (tr_status t = CANCELLED \<and> tr_started_at t = None \<longrightarrow>
            tid \<notin> di_task_id ` set (pending_dispatches limit d))"
proof -
  have inv: "outbox_inv d" using outbox.inv_reach [OF assms(1)] .
  then have ok: "dispatch_ok t (dispatch_of d tid)" and wf: "db_wf d"
    using assms(2) by (auto simp: outbox_inv_def dest: task_db_invD)
  have "\<exists>r. dispatch_of d tid = Some r \<and> (is_pending_dispatch r \<or> ob_published_at r \<noteq> None)"
    if queued: "tr_status t = QUEUED"
  proof -
    obtain r where r: "dispatch_of d tid = Some r" "ob_status r \<noteq> OB_CANCELLED"
      using ok queued by (auto simp: dispatch_ok_def)
    moreover have "outbox_row_ok r" using ok r(1) dispatch_ok_row by simp
    ultimately show ?thesis
      by (cases "ob_status r") (auto simp: outbox_row_ok_def is_pending_dispatch_def)
  qed
  moreover have "tid \<notin> di_task_id ` set (pending_dispatches limit d)"
    if "tr_status t = CANCELLED" "tr_started_at t = None"
  proof
    assume "tid \<in> di_task_id ` set (pending_dispatches limit d)"
    then obtain r where r: "r \<in> set (db_outbox d)" "is_pending_dispatch r" "tid = ob_task_id r"
      using set_round_rows [of limit d] by (auto simp: to_dispatch_def pending_dispatches_rows)
    then have "dispatch_of d tid = Some r"
      using row_get_unique [OF db_wf_outbox_ids [OF wf] r(1)] by simp
    then show False using ok that r(2) by (auto simp: dispatch_ok_def)
  qed
  ultimately show ?thesis using ok by (simp add: dispatch_ok_def)
qed

definition sample_two_roots :: "(task_op \<times> datetime) list" where
  "sample_two_roots =
     [(OpEnqueue (sample_task ''a'' UI 1) ''{}'' ''d1'', 2), (OpEnqueue (sample_task ''b'' API 5) ''{}'' ''d2'', 6)]"

theorem outbox_agrees_with_tasks_witness:
  "\<exists>t u r. task_of (sample_db sample_two_roots) ''a'' = Some t \<and> tr_status t = CANCELLED \<and>
     ''a'' \<notin> di_task_id ` set (pending_dispatches 100 (sample_db sample_two_roots)) \<and>
     task_of (sample_db sample_two_roots) ''b'' = Some u \<and> tr_status u = QUEUED \<and>
     dispatch_of (sample_db sample_two_roots) ''b'' = Some r \<and>
     (is_pending_dispatch r \<or> ob_published_at r \<noteq> None)"
proof -
  have "map_option (\<lambda>t. (tr_status t, tr_started_at t)) (task_of (sample_db sample_two_roots) ''a'') =
      Some (CANCELLED, None)"
    and "map_option tr_status (task_of (sample_db sample_two_roots) ''b'') = Some QUEUED"
    by code_simp+
  then obtain t u where t: "task_of (sample_db sample_two_roots) ''a'' = Some t" "tr_status t = CANCELLED"
      "tr_started_at t = None"
    and u: "task_of (sample_db sample_two_roots) ''b'' = Some u" "tr_status u = QUEUED"
    by blast
  show ?thesis
    using outbox_agrees_with_tasks [OF reach_sample t(1), of 100]
      outbox_agrees_with_tasks [OF reach_sample u(1), of 100] t u by blast
qed


definition sample_busy :: db where
  "sample_busy = sample_db [(OpEnqueue (sample_task ''a'' UI 1) ''{}'' ''d1'', 2)]"


text \<open>
  C10. A publication round settles exactly the dispatches it reads: each one the transport
  accepts is marked published, each one it rejects stays pending with one more attempt and the
  error cut to 1000 characters, every other row and every task row is untouched, and the count
  returned is the number of accepted dispatches.
\<close>

theorem publication_round_settles:
  assumes "distinct (map ob_id (db_outbox d))"
  shows "publish_pending_dispatches publish limit now d =
    (length (filter (\<lambda>r. publish (ob_task_id r) (ob_payload r) = None) (round_rows limit d)),
     d\<lparr>db_outbox := map (\<lambda>r. if ob_id r \<in> ob_id ` set (round_rows limit d)
                            then settle_row publish now r else r) (db_outbox d)\<rparr>)"
proof -
  have "set (round_rows limit d) \<subseteq> set (db_outbox d)"
    and "\<forall>r \<in> set (round_rows limit d). ob_published_at r = None"
    using set_round_rows [of limit d] by (auto simp: is_pending_dispatch_def)
  from publish_dispatches_eq [OF assms distinct_round_rows [OF assms] this]
  show ?thesis by (simp add: publish_pending_dispatches_def pending_dispatches_rows)
qed

theorem publication_round_settles_witness:
  "length (db_outbox sample_busy) = 1 \<and>
   publish_pending_dispatches (\<lambda>tid p. if tid = ''a'' then Some ''down'' else None) 10 9 sample_busy =
    (length (filter (\<lambda>r. (if ob_task_id r = ''a'' then Some ''down'' else None) = None) (round_rows 10 sample_busy)),
     sample_busy\<lparr>db_outbox := map (\<lambda>r. if ob_id r \<in> ob_id ` set (round_rows 10 sample_busy)
        then settle_row (\<lambda>tid p. if tid = ''a'' then Some ''down'' else None) 9 r else r) (db_outbox sample_busy)\<rparr>)"
proof
  show "length (db_outbox sample_busy) = 1" by code_simp
  have "distinct (map ob_id (db_outbox sample_busy))" by code_simp
  from publication_round_settles [OF this,
      where publish = "\<lambda>tid p. if tid = ''a'' then Some ''down'' else None" and limit = 10 and now = 9]
  show "publish_pending_dispatches (\<lambda>tid p. if tid = ''a'' then Some ''down'' else None) 10 9 sample_busy =
    (length (filter (\<lambda>r. (if ob_task_id r = ''a'' then Some ''down'' else None) = None) (round_rows 10 sample_busy)),
     sample_busy\<lparr>db_outbox := map (\<lambda>r. if ob_id r \<in> ob_id ` set (round_rows 10 sample_busy)
        then settle_row (\<lambda>tid p. if tid = ''a'' then Some ''down'' else None) 9 r else r) (db_outbox sample_busy)\<rparr>)" .
qed

end
