(* ===== verification/Nested_Wait.thy ===== *)
theory Nested_Wait
  imports Task_Types
begin

text \<open>
  Reservations of worker slots for parents that wait synchronously for a child task
  (\<^verbatim>\<open>src/modules/task_execution/infra/gateways/nested_wait.py\<close> and
  \<^verbatim>\<open>flow/use_cases/nested_wait.py\<close>).

  The Valkey hash maps a parent task to its reservation; a Lua script runs atomically, so each
  gateway call is one function on the hash. The use case makes three calls, and other clients
  may act between them: its model takes the hash as each call finds it. The payloads are the
  JSON forms of reservations; the ISO strings of UTC instants compare like the instants.
\<close>

type_synonym reservations = "(task_id, NestedWaitReservation) dict"

section \<open>Gateway\<close>

definition nested_waits_list :: "reservations \<Rightarrow> NestedWaitReservation list" where
  "nested_waits_list m = dict_values m"

definition nested_waits_get :: "task_id \<Rightarrow> reservations \<Rightarrow> NestedWaitReservation option" where
  "nested_waits_get parent m = map_of m parent"

definition RESERVE_SCRIPT ::
    "task_id \<Rightarrow> NestedWaitReservation \<Rightarrow> int \<Rightarrow> reservations \<Rightarrow> int \<times> reservations" where
  "RESERVE_SCRIPT parent payload max_waiters m =
     (if parent \<in> set (dict_keys m) then (1, m)
      else if int (length m) \<ge> max_waiters then (0, m)
      else (1, dict_put parent payload m))"

definition nested_waits_reserve :: "NestedWaitReservation \<Rightarrow> int \<Rightarrow> reservations \<Rightarrow> bool \<times> reservations" where
  "nested_waits_reserve r max_waiters m =
     (if max_waiters \<le> 0 then (False, m)
      else let (res, m') = RESERVE_SCRIPT (nw_parent_task_id r) r max_waiters m in (res \<noteq> 0, m'))"

text \<open>Newest first; equal instants in descending order of the parent.\<close>

definition newest_first :: "reservations \<Rightarrow> (task_id \<times> NestedWaitReservation) list" where
  "newest_first m = rev (sort_key (\<lambda>(parent, r). (nw_created_at r, parent)) m)"

definition REBALANCE_SCRIPT :: "nat \<Rightarrow> reservations \<Rightarrow> NestedWaitReservation list \<times> reservations" where
  "REBALANCE_SCRIPT max_waiters m =
     (if length m \<le> max_waiters then ([], m)
      else let removed = take (length m - max_waiters) (newest_first m)
           in (map snd removed, fold (\<lambda>(parent, r). dict_del parent) removed m))"

definition nested_waits_rebalance :: "int \<Rightarrow> reservations \<Rightarrow> NestedWaitReservation list \<times> reservations" where
  "nested_waits_rebalance max_waiters m = REBALANCE_SCRIPT (nat (max max_waiters 0)) m"

definition release_by_parent :: "task_id \<Rightarrow> reservations \<Rightarrow> reservations" where
  "release_by_parent parent m = dict_del parent m"

definition release_matching :: "task_id option \<Rightarrow> worker_id option \<Rightarrow> reservations \<Rightarrow> reservations" where
  "release_matching child worker m =
     (let stale_parents = map fst (filter (\<lambda>(parent, r).
             if child = Some (nw_child_task_id r) then True
             else worker = Some (nw_origin_worker_id r)) m)
      in fold dict_del stale_parents m)"

definition release_by_child :: "task_id \<Rightarrow> reservations \<Rightarrow> reservations" where
  "release_by_child child m = release_matching (Some child) None m"

definition release_by_worker :: "worker_id \<Rightarrow> reservations \<Rightarrow> reservations" where
  "release_by_worker worker m = release_matching None (Some worker) m"

section \<open>Use cases\<close>

text \<open>
  \<open>m_get\<close>, \<open>m_list\<close> and \<open>m_reserve\<close> are the hash at the three calls of the use case.
\<close>

definition reserve_nested_wait ::
    "task_id \<Rightarrow> task_id \<Rightarrow> worker_id \<Rightarrow> worker_id list \<Rightarrow> datetime \<Rightarrow>
     reservations \<Rightarrow> reservations \<Rightarrow> reservations \<Rightarrow> NestedWaitDecision \<times> reservations" where
  "reserve_nested_wait parent child origin alive now m_get m_list m_reserve =
     (case nested_waits_get parent m_get of
        Some existing \<Rightarrow>
          if nw_child_task_id existing = child \<and> nw_origin_worker_id existing = origin
          then (\<lparr>nd_accepted = True, nd_error = None\<rparr>, m_reserve)
          else (\<lparr>nd_accepted = False, nd_error = Some (ParentOwnsAnother parent)\<rparr>, m_reserve)
      | None \<Rightarrow>
          let decision = decide_nested_wait_reservation origin alive
                (map nw_origin_worker_id (nested_waits_list m_list)) in
          if \<not> nd_accepted decision then (decision, m_reserve)
          else
            let alive_count = card (set alive);
                (reserved, m') = nested_waits_reserve
                  \<lparr>nw_parent_task_id = parent, nw_child_task_id = child,
                   nw_origin_worker_id = origin, nw_created_at = now\<rparr>
                  (max (int alive_count - 1) 0) m_reserve
            in if reserved then (\<lparr>nd_accepted = True, nd_error = None\<rparr>, m')
               else (\<lparr>nd_accepted = False, nd_error = Some CapacityReservedConcurrently\<rparr>, m'))"

definition release_nested_wait ::
    "task_id option \<Rightarrow> task_id option \<Rightarrow> worker_id option \<Rightarrow> reservations \<Rightarrow> reservations" where
  "release_nested_wait parent child worker m =
     (let m1 = (case parent of None \<Rightarrow> m | Some p \<Rightarrow> release_by_parent p m);
          m2 = (case child of None \<Rightarrow> m1 | Some c \<Rightarrow> release_by_child c m1)
      in case worker of None \<Rightarrow> m2 | Some w \<Rightarrow> release_by_worker w m2)"

section \<open>Well-formed hashes\<close>

text \<open>Every field of the hash is stored under its own parent.\<close>

definition reservations_wf :: "reservations \<Rightarrow> bool" where
  "reservations_wf m \<longleftrightarrow> dict_wf m \<and> (\<forall>(parent, r) \<in> set m. nw_parent_task_id r = parent)"

lemma set_dict_put:
  "set (dict_put k v d) \<subseteq> insert (k, v) (set d)"
  by (induction k v d rule: dict_put.induct) auto

lemma set_dict_del: "set (dict_del k d) = {p \<in> set d. fst p \<noteq> k}"
  by (auto simp: dict_del_def)

lemma fold_dict_del: "fold dict_del ks d = filter (\<lambda>p. fst p \<notin> set ks) d"
  by (induction ks arbitrary: d) (auto simp: dict_del_def conj_commute intro: filter_cong)

lemma dict_wf_filter: "dict_wf d \<Longrightarrow> dict_wf (filter p d)"
  by (simp add: dict_wf_def dict_keys_def distinct_map_filter)

lemma reservations_wf_put:
  "reservations_wf m \<Longrightarrow> nw_parent_task_id r = parent \<Longrightarrow> reservations_wf (dict_put parent r m)"
  using set_dict_put [of parent r m] by (auto simp: reservations_wf_def)

lemma reservations_wf_filter: "reservations_wf m \<Longrightarrow> reservations_wf (filter p m)"
  by (auto simp: reservations_wf_def dict_wf_filter)

lemma reserve_wf: "reservations_wf m \<Longrightarrow> reservations_wf (snd (nested_waits_reserve r k m))"
  by (auto simp: nested_waits_reserve_def RESERVE_SCRIPT_def Let_def intro: reservations_wf_put)

lemma rebalance_eq:
  assumes "max_waiters < length m"
  shows "REBALANCE_SCRIPT max_waiters m =
    (map snd (take (length m - max_waiters) (newest_first m)),
     filter (\<lambda>p. fst p \<notin> fst ` set (take (length m - max_waiters) (newest_first m))) m)"
proof -
  have "fold (\<lambda>(parent, r). dict_del parent) ps m = fold dict_del (map fst ps) m" for ps
    by (simp add: fold_map comp_def case_prod_beta')
  then show ?thesis using assms by (simp add: REBALANCE_SCRIPT_def Let_def fold_dict_del)
qed

lemma release_matching_eq:
  assumes "dict_wf m"
  shows "release_matching child worker m =
    filter (\<lambda>(parent, r). child \<noteq> Some (nw_child_task_id r) \<and> worker \<noteq> Some (nw_origin_worker_id r)) m"
proof -
  let ?bad = "\<lambda>(parent, r). if child = Some (nw_child_task_id r) then True
              else worker = Some (nw_origin_worker_id r)"
  have "fst p \<in> fst ` {q \<in> set m. ?bad q} \<longleftrightarrow> ?bad p" if "p \<in> set m" for p
    using that assms by (auto simp: dict_wf_def dict_keys_def distinct_map dest: inj_onD)
  then have "filter (\<lambda>p. fst p \<notin> fst ` {q \<in> set m. ?bad q}) m = filter (\<lambda>p. \<not> ?bad p) m"
    by (intro filter_cong) simp_all
  also have "\<dots> = filter (\<lambda>(parent, r). child \<noteq> Some (nw_child_task_id r) \<and>
      worker \<noteq> Some (nw_origin_worker_id r)) m"
    by (rule filter_cong) (auto split: if_split_asm)
  finally show ?thesis by (simp add: release_matching_def Let_def fold_dict_del)
qed

lemma released_wf:
  assumes "reservations_wf m"
  shows "reservations_wf (release_nested_wait parent child worker m)"
proof -
  have "reservations_wf (release_matching c w u)" if "reservations_wf u" for c w u
  proof -
    have "dict_wf u" using that by (simp add: reservations_wf_def)
    then show ?thesis using that by (simp add: release_matching_eq reservations_wf_filter)
  qed
  moreover have "reservations_wf (dict_del p u)" if "reservations_wf u" for p u
    using that by (simp add: dict_del_def reservations_wf_filter)
  ultimately show ?thesis
    using assms
    by (auto simp: release_nested_wait_def release_by_parent_def release_by_child_def
        release_by_worker_def Let_def split: option.splits)
qed

section \<open>Capacity\<close>

lemma reserve_bound:
  assumes "nested_waits_reserve r k m = (True, m')" and "nw_parent_task_id r \<notin> set (dict_keys m)"
  shows "int (length m') \<le> k" "map_of m' (nw_parent_task_id r) = Some r"
  using assms
  by (auto simp: nested_waits_reserve_def RESERVE_SCRIPT_def Let_def length_dict_put map_of_dict_put
      split: if_split_asm)

text \<open>Fewer reservations than workers leave a worker that no parent waits on.\<close>

lemma free_worker:
  assumes "length m < card (set alive)"
  shows "\<exists>w \<in> set alive. w \<notin> nw_origin_worker_id ` set (dict_values m)"
proof (rule ccontr)
  assume "\<not> ?thesis"
  then have "set alive \<subseteq> nw_origin_worker_id ` set (dict_values m)" by blast
  then have "card (set alive) \<le> card (set (map nw_origin_worker_id (dict_values m)))"
    by (simp add: card_mono)
  also have "\<dots> \<le> length m"
    by (metis card_length dict_values_def length_map)
  finally show False using assms by simp
qed

lemma filter_not_prefix:
  "distinct (map fst (xs @ ys)) \<Longrightarrow> filter (\<lambda>p. fst p \<notin> fst ` set xs) (xs @ ys) = ys"
  by (auto simp: filter_empty_conv intro!: filter_True)

lemma filter_not_taken:
  "distinct (map fst xs) \<Longrightarrow> filter (\<lambda>p. fst p \<notin> fst ` set (take n xs)) xs = drop n xs"
  using filter_not_prefix [of "take n xs" "drop n xs"] by simp

lemma length_newest_first [simp]: "length (newest_first m) = length m"
  by (simp add: newest_first_def)

lemma mset_newest_first: "mset (newest_first m) = mset m"
  by (simp add: newest_first_def)

lemma rebalance_kept:
  assumes "dict_wf m" and "k < length m"
  shows "mset (snd (REBALANCE_SCRIPT k m)) = mset (drop (length m - k) (newest_first m))"
proof -
  let ?xs = "newest_first m" and ?n = "length m - k"
  have "mset (map fst ?xs) = mset (map fst m)" by (simp add: mset_newest_first)
  moreover have "distinct (map fst m)" using assms(1) by (simp add: dict_wf_def dict_keys_def)
  ultimately have d: "distinct (map fst ?xs)" by (rule mset_eq_imp_distinct_iff [THEN iffD2])
  have "mset (snd (REBALANCE_SCRIPT k m)) = filter_mset (\<lambda>p. fst p \<notin> fst ` set (take ?n ?xs)) (mset ?xs)"
    unfolding rebalance_eq [OF assms(2)] by (simp add: mset_newest_first)
  also have "\<dots> = mset (drop ?n ?xs)"
    by (metis filter_not_taken [OF d] mset_filter)
  finally show ?thesis .
qed

lemma newest_first_sorted:
  assumes "i < j" and "j < length m"
  shows "(\<lambda>(parent, r). (nw_created_at r, parent)) (newest_first m ! j) \<le>
         (\<lambda>(parent, r). (nw_created_at r, parent)) (newest_first m ! i)"
proof -
  let ?k = "\<lambda>(parent :: task_id, r). (nw_created_at r, parent)"
  have "sorted (map ?k (sort_key ?k m))" by (rule sorted_sort_key)
  then have "sorted_wrt (\<ge>) (rev (map ?k (sort_key ?k m)))" by (simp only: sorted_wrt_rev)
  then have "sorted_wrt (\<ge>) (map ?k (newest_first m))" by (simp only: newest_first_def rev_map)
  then show ?thesis
    using assms sorted_wrt_nth_less [of "(\<ge>)" "map ?k (newest_first m)" i j]
    by simp
qed

lemma newest_first_split:
  assumes "p \<in> set (take n (newest_first m))" and "q \<in> set (drop n (newest_first m))"
  shows "(\<lambda>(parent, r). (nw_created_at r, parent)) q \<le> (\<lambda>(parent, r). (nw_created_at r, parent)) p"
proof -
  obtain i where i: "i < n" "i < length m" "p = newest_first m ! i"
    using assms(1) by (auto simp: in_set_conv_nth)
  obtain j where j: "j < length m - n" "q = newest_first m ! (n + j)"
    using assms(2) by (auto simp: in_set_conv_nth)
  show ?thesis using newest_first_sorted [of i "n + j" m] i j by simp
qed

section \<open>Properties\<close>



text \<open>
  C12. Rebalancing to a smaller capacity removes exactly the surplus, and always the newest
  waits: the kept and the removed reservations are the old ones, the number kept is the
  capacity (or all of them when they fit), and every removed reservation is at least as new as
  every kept one.
\<close>

theorem rebalance_evicts_newest:
  assumes "nested_waits_rebalance k m = (removed, m')" and "reservations_wf m"
  shows "length m' = min (length m) (nat (max k 0)) \<and>
         mset (dict_values m') + mset removed = mset (dict_values m) \<and>
         (\<forall>r \<in> set removed. \<forall>s \<in> set (dict_values m').
            (nw_created_at s, nw_parent_task_id s) \<le> (nw_created_at r, nw_parent_task_id r))"
proof (cases "length m \<le> nat (max k 0)")
  case True
  then show ?thesis using assms(1) by (auto simp: nested_waits_rebalance_def REBALANCE_SCRIPT_def)
next
  case False
  define c n xs where "c = nat (max k 0)" and "n = length m - c" and "xs = newest_first m"
  have lt: "c < length m" using False by (simp add: c_def)
  have wf: "dict_wf m" using assms(2) by (simp add: reservations_wf_def)
  have parent: "nw_parent_task_id r = p" if "(p, r) \<in> set xs" for p r
    using that assms(2) by (auto simp: xs_def reservations_wf_def newest_first_def)
  have rem: "removed = map snd (take n xs)" and kept: "mset m' = mset (drop n xs)"
    using assms(1) rebalance_eq [OF lt] rebalance_kept [OF wf lt]
    by (auto simp: nested_waits_rebalance_def c_def n_def xs_def)
  have "length m' = length (drop n xs)" using kept by (rule mset_eq_length)
  then have "length m' = c" using lt by (simp add: n_def xs_def)
  moreover have "mset (dict_values m') + mset removed = image_mset snd (mset (take n xs @ drop n xs))"
    by (simp add: dict_values_def rem kept del: append_take_drop_id)
  moreover have "(nw_created_at s, nw_parent_task_id s) \<le> (nw_created_at r, nw_parent_task_id r)"
    if r: "r \<in> set removed" and s: "s \<in> set (dict_values m')" for r s
  proof -
    obtain p q where pq: "(p, r) \<in> set (take n xs)" "(q, s) \<in> set (drop n xs)"
      using r s mset_eq_setD [OF kept] by (auto simp: rem dict_values_def)
    then have "nw_parent_task_id r = p" "nw_parent_task_id s = q"
      using parent in_set_takeD in_set_dropD by metis+
    then show ?thesis
      using newest_first_split [of "(p, r)" n m "(q, s)"] pq by (simp add: xs_def)
  qed
  ultimately show ?thesis
    using lt by (simp add: c_def xs_def mset_newest_first dict_values_def)
qed

definition sample_waits :: reservations where
  "sample_waits =
     [(''p1'', \<lparr>nw_parent_task_id = ''p1'', nw_child_task_id = ''c1'', nw_origin_worker_id = ''w1'', nw_created_at = 5\<rparr>),
      (''p2'', \<lparr>nw_parent_task_id = ''p2'', nw_child_task_id = ''c2'', nw_origin_worker_id = ''w2'', nw_created_at = 9\<rparr>)]"

theorem rebalance_evicts_newest_witness:
  "\<exists>removed m'. nested_waits_rebalance 1 sample_waits = (removed, m') \<and>
     map nw_parent_task_id removed = [''p2''] \<and> length m' = min (length sample_waits) (nat (max 1 0))"
proof -
  have "map nw_parent_task_id (fst (nested_waits_rebalance 1 sample_waits)) = [''p2'']"
    and "reservations_wf sample_waits"
    by code_simp+
  then show ?thesis
    using rebalance_evicts_newest [of 1 sample_waits "fst (nested_waits_rebalance 1 sample_waits)"
        "snd (nested_waits_rebalance 1 sample_waits)"]
    by (metis prod.collapse)
qed

end
