(* ===== verification/Worker_Registry.thy ===== *)
theory Worker_Registry
  imports Task_Types
begin

text \<open>
  In-memory registries of the orchestrator
  (\<^verbatim>\<open>services/orchestrator/worker_registry.py\<close>, \<^verbatim>\<open>worker_state.py\<close> and
  \<^verbatim>\<open>execution_registry.py\<close>): worker heartbeats and execution telemetry, both Python dictionaries.
  Instants and time-outs are integers of microseconds; \<open>timeout\<close> is
  \<^verbatim>\<open>ORCHESTRATOR_HEARTBEAT_TIMEOUT_SEC\<close>. Logging is left out.
\<close>

section \<open>Workers\<close>

datatype WorkerStatus = ONLINE | OFFLINE

record WorkerState =
  ws_worker_id :: worker_id
  ws_timestamp :: int
  ws_first_seen_at :: int
  ws_last_received_at :: int
  ws_last_status_change_at :: int
  ws_capabilities :: "PipelineExecutionMode set"
  ws_max_concurrent :: int
  ws_status :: WorkerStatus
  ws_offline_since :: "int option"
  ws_active_task_id :: "task_id option"
  ws_is_busy :: bool
  ws_available_slots :: int
  ws_availability_reported :: bool
  ws_system_info :: "string option"

type_synonym workers = "(worker_id, WorkerState) dict"

definition is_alive :: "int \<Rightarrow> int \<Rightarrow> WorkerState \<Rightarrow> bool" where
  "is_alive now timeout w \<longleftrightarrow> ws_status w = ONLINE \<and> now - ws_last_received_at w < timeout"

definition workers_all :: "workers \<Rightarrow> WorkerState list" where
  "workers_all ws = dict_values ws"

definition workers_get :: "worker_id \<Rightarrow> workers \<Rightarrow> WorkerState option" where
  "workers_get wid ws = map_of ws wid"

definition mark_busy :: "worker_id \<Rightarrow> task_id \<Rightarrow> workers \<Rightarrow> workers" where
  "mark_busy wid tid ws =
     dict_modify wid (\<lambda>w. w\<lparr>ws_active_task_id := Some tid, ws_is_busy := True, ws_available_slots := 0\<rparr>) ws"

definition mark_idle :: "worker_id \<Rightarrow> task_id option \<Rightarrow> workers \<Rightarrow> workers" where
  "mark_idle wid tid ws =
     dict_modify wid (\<lambda>w.
       if tid \<noteq> None \<and> ws_active_task_id w \<notin> {None, tid} then w
       else w\<lparr>ws_active_task_id := None, ws_is_busy := False,
              ws_available_slots := (if ws_status w = ONLINE then max (ws_max_concurrent w) 0 else 0)\<rparr>) ws"

definition get_alive_workers :: "int \<Rightarrow> int \<Rightarrow> workers \<Rightarrow> WorkerState list" where
  "get_alive_workers now timeout ws = filter (is_alive now timeout) (dict_values ws)"

record HeartbeatPayload =
  hb_worker_id :: worker_id
  hb_capabilities :: "PipelineExecutionMode list"
  hb_max_concurrent :: int
  hb_timestamp :: int
  hb_active_task_id :: "task_id option"
  hb_is_busy :: "bool option"
  hb_available_slots :: "int option"
  hb_system_info :: "string option"

definition heartbeat_busy :: "HeartbeatPayload \<Rightarrow> bool" where
  "heartbeat_busy hb = (case hb_is_busy hb of Some b \<Rightarrow> b | None \<Rightarrow> False)"

definition heartbeat_available_slots :: "HeartbeatPayload \<Rightarrow> int" where
  "heartbeat_available_slots hb =
     (case hb_available_slots hb of
        Some n \<Rightarrow> max n 0
      | None \<Rightarrow> if heartbeat_busy hb then 0 else max (hb_max_concurrent hb) 0)"

definition availability_reported :: "HeartbeatPayload \<Rightarrow> bool" where
  "availability_reported hb \<longleftrightarrow> hb_is_busy hb \<noteq> None \<or> hb_available_slots hb \<noteq> None"

definition new_worker_state :: "HeartbeatPayload \<Rightarrow> int \<Rightarrow> WorkerState" where
  "new_worker_state hb received_at = \<lparr>
     ws_worker_id = hb_worker_id hb,
     ws_timestamp = hb_timestamp hb,
     ws_first_seen_at = received_at,
     ws_last_received_at = received_at,
     ws_last_status_change_at = received_at,
     ws_capabilities = set (hb_capabilities hb),
     ws_max_concurrent = hb_max_concurrent hb,
     ws_status = ONLINE,
     ws_offline_since = None,
     ws_active_task_id = (if availability_reported hb then hb_active_task_id hb else None),
     ws_is_busy = (if availability_reported hb then heartbeat_busy hb else False),
     ws_available_slots =
       (if availability_reported hb then heartbeat_available_slots hb else max (hb_max_concurrent hb) 0),
     ws_availability_reported = availability_reported hb,
     ws_system_info = hb_system_info hb\<rparr>"

definition refreshed_worker_state :: "HeartbeatPayload \<Rightarrow> int \<Rightarrow> WorkerState \<Rightarrow> WorkerState" where
  "refreshed_worker_state hb received_at w =
     (let w1 = w\<lparr>ws_timestamp := hb_timestamp hb,
                 ws_last_received_at := received_at,
                 ws_capabilities := set (hb_capabilities hb),
                 ws_max_concurrent := hb_max_concurrent hb,
                 ws_status := ONLINE\<rparr>;
          w2 = (if availability_reported hb
                then w1\<lparr>ws_active_task_id := hb_active_task_id hb,
                        ws_is_busy := heartbeat_busy hb,
                        ws_available_slots := heartbeat_available_slots hb,
                        ws_availability_reported := True\<rparr>
                else w1\<lparr>ws_available_slots := (if ws_is_busy w1 then 0 else max (hb_max_concurrent hb) 0)\<rparr>);
          w3 = w2\<lparr>ws_system_info := hb_system_info hb\<rparr>;
          w4 = (if ws_status w \<noteq> ONLINE then w3\<lparr>ws_last_status_change_at := received_at\<rparr> else w3)
      in w4\<lparr>ws_offline_since := None\<rparr>)"

definition update_from_heartbeat :: "HeartbeatPayload \<Rightarrow> int \<Rightarrow> workers \<Rightarrow> WorkerState \<times> workers" where
  "update_from_heartbeat hb received_at ws =
     (let w = (case map_of ws (hb_worker_id hb) of
                 None \<Rightarrow> new_worker_state hb received_at
               | Some w0 \<Rightarrow> refreshed_worker_state hb received_at w0)
      in (w, dict_put (hb_worker_id hb) w ws))"

definition should_reap :: "int \<Rightarrow> int \<Rightarrow> WorkerState \<Rightarrow> bool" where
  "should_reap now timeout w \<longleftrightarrow> \<not> is_alive now timeout w \<and> ws_status w \<noteq> OFFLINE"

definition reap_worker :: "int \<Rightarrow> WorkerState \<Rightarrow> WorkerState" where
  "reap_worker now w = w\<lparr>ws_status := OFFLINE, ws_active_task_id := None, ws_is_busy := False,
     ws_available_slots := 0, ws_offline_since := Some now, ws_last_status_change_at := now\<rparr>"

definition reap_dead_workers :: "int \<Rightarrow> int \<Rightarrow> workers \<Rightarrow> WorkerState list \<times> workers" where
  "reap_dead_workers now timeout ws =
     (map (reap_worker now) (filter (should_reap now timeout) (dict_values ws)),
      map (\<lambda>(wid, w). (wid, if should_reap now timeout w then reap_worker now w else w)) ws)"

section \<open>Execution telemetry\<close>

record TaskExecutionRecord =
  xr_task_id :: task_id
  xr_worker_id :: worker_id
  xr_hostname :: string
  xr_pid :: int
  xr_rss_bytes :: int
  xr_memory_limit_bytes :: "int option"
  xr_system_ram_used_percent :: real
  xr_timestamp :: int

type_synonym executions = "(task_id, TaskExecutionRecord) dict"

definition is_stale :: "int \<Rightarrow> int \<Rightarrow> TaskExecutionRecord \<Rightarrow> bool" where
  "is_stale now stale_timeout r \<longleftrightarrow> now - xr_timestamp r \<ge> stale_timeout"

definition executions_upsert :: "TaskExecutionRecord \<Rightarrow> executions \<Rightarrow> executions" where
  "executions_upsert r xs = dict_put (xr_task_id r) r xs"

definition executions_get :: "task_id \<Rightarrow> executions \<Rightarrow> TaskExecutionRecord option" where
  "executions_get tid xs = map_of xs tid"

definition executions_remove :: "task_id \<Rightarrow> executions \<Rightarrow> TaskExecutionRecord option \<times> executions" where
  "executions_remove tid xs = (map_of xs tid, dict_del tid xs)"

definition executions_all :: "executions \<Rightarrow> TaskExecutionRecord list" where
  "executions_all xs = dict_values xs"

definition executions_get_stale :: "int \<Rightarrow> int \<Rightarrow> executions \<Rightarrow> TaskExecutionRecord list" where
  "executions_get_stale now stale_timeout xs = filter (is_stale now stale_timeout) (dict_values xs)"

section \<open>Lemmas\<close>

lemma workers_get_mark_busy:
  "workers_get wid' (mark_busy wid tid ws) =
     (if wid' = wid then map_option (\<lambda>w. w\<lparr>ws_active_task_id := Some tid, ws_is_busy := True,
        ws_available_slots := 0\<rparr>) (workers_get wid ws) else workers_get wid' ws)"
  by (simp add: workers_get_def mark_busy_def map_of_dict_modify)

lemma alive_mark_busy:
  "map_option (is_alive now timeout) (workers_get wid' (mark_busy wid tid ws)) =
   map_option (is_alive now timeout) (workers_get wid' ws)"
  by (cases "workers_get wid ws") (auto simp: workers_get_mark_busy is_alive_def)

lemma alive_mark_idle:
  "map_option (is_alive now timeout) (workers_get wid' (mark_idle wid tid ws)) =
   map_option (is_alive now timeout) (workers_get wid' ws)"
  by (cases "map_of ws wid") (auto simp: workers_get_def mark_idle_def map_of_dict_modify is_alive_def)

lemma workers_get_reap:
  "workers_get wid (snd (reap_dead_workers now timeout ws)) =
     map_option (\<lambda>w. if should_reap now timeout w then reap_worker now w else w) (workers_get wid ws)"
  by (simp add: workers_get_def reap_dead_workers_def map_of_map)

lemma reap_lookup:
  assumes "map_of (snd (reap_dead_workers now timeout ws)) wid = Some w"
  obtains w0 where "map_of ws wid = Some w0"
    and "w = (if should_reap now timeout w0 then reap_worker now w0 else w0)"
  using assms workers_get_reap [of wid now timeout ws]
  by (cases "map_of ws wid") (simp_all add: workers_get_def)

text \<open>Reaping never changes who is alive.\<close>

lemma alive_reap:
  "map_option (is_alive now timeout) (workers_get wid (snd (reap_dead_workers now timeout ws))) =
   map_option (is_alive now timeout) (workers_get wid ws)"
  by (cases "workers_get wid ws")
     (auto simp: workers_get_reap should_reap_def reap_worker_def is_alive_def)

text \<open>A worker that is not ONLINE has nothing to offer and a recorded time it went away.\<close>

definition worker_ok :: "WorkerState \<Rightarrow> bool" where
  "worker_ok w \<longleftrightarrow>
     0 \<le> ws_available_slots w \<and>
     (ws_status w = OFFLINE \<longrightarrow> ws_available_slots w = 0 \<and> ws_offline_since w \<noteq> None) \<and>
     (ws_status w = ONLINE \<longrightarrow> ws_offline_since w = None)"

definition workers_ok :: "workers \<Rightarrow> bool" where
  "workers_ok ws \<longleftrightarrow>
     dict_wf ws \<and> (\<forall>wid w. map_of ws wid = Some w \<longrightarrow> ws_worker_id w = wid \<and> worker_ok w)"

lemma workers_ok_modify:
  assumes "workers_ok ws" and "\<And>w. worker_ok w \<Longrightarrow> worker_ok (f w) \<and> ws_worker_id (f w) = ws_worker_id w"
  shows "workers_ok (dict_modify wid f ws)"
  using assms unfolding workers_ok_def
  by (auto simp: map_of_dict_modify dict_wf_modify split: if_split_asm)

lemma workers_ok_mark_busy: "workers_ok ws \<Longrightarrow> workers_ok (mark_busy wid tid ws)"
  unfolding mark_busy_def by (rule workers_ok_modify) (auto simp: worker_ok_def)

lemma workers_ok_mark_idle: "workers_ok ws \<Longrightarrow> workers_ok (mark_idle wid tid ws)"
  unfolding mark_idle_def by (rule workers_ok_modify) (auto simp: worker_ok_def)

lemma worker_ok_new: "worker_ok (new_worker_state hb received_at)"
  by (auto simp: worker_ok_def new_worker_state_def heartbeat_available_slots_def split: option.splits)

lemma worker_ok_refreshed: "worker_ok (refreshed_worker_state hb received_at w)"
  by (auto simp: worker_ok_def refreshed_worker_state_def Let_def heartbeat_available_slots_def
      split: option.splits)

lemma heartbeat_worker_id:
  "ws_worker_id (refreshed_worker_state hb received_at w) = ws_worker_id w"
  "ws_worker_id (new_worker_state hb received_at) = hb_worker_id hb"
  by (simp_all add: refreshed_worker_state_def new_worker_state_def Let_def)

lemma workers_ok_heartbeat:
  assumes "workers_ok ws"
  shows "workers_ok (snd (update_from_heartbeat hb received_at ws))"
proof -
  let ?w = "fst (update_from_heartbeat hb received_at ws)"
  have "worker_ok ?w" "ws_worker_id ?w = hb_worker_id hb"
    using assms
    by (auto simp: update_from_heartbeat_def Let_def worker_ok_new worker_ok_refreshed
        heartbeat_worker_id workers_ok_def split: option.splits)
  then show ?thesis
    using assms
    by (auto simp: workers_ok_def update_from_heartbeat_def Let_def map_of_dict_put split: if_split_asm)
qed

lemma workers_ok_reap:
  assumes "workers_ok ws"
  shows "workers_ok (snd (reap_dead_workers now timeout ws))"
proof -
  have "dict_keys (snd (reap_dead_workers now timeout ws)) = dict_keys ws"
    by (simp add: dict_keys_def reap_dead_workers_def case_prod_beta')
  moreover have "ws_worker_id w = wid \<and> worker_ok w"
    if get: "map_of (snd (reap_dead_workers now timeout ws)) wid = Some w" for wid w
  proof -
    obtain w0 where w0: "map_of ws wid = Some w0"
        "w = (if should_reap now timeout w0 then reap_worker now w0 else w0)"
      using reap_lookup [OF get] .
    then have "ws_worker_id w0 = wid" "worker_ok w0" using assms by (simp_all add: workers_ok_def)
    then show ?thesis using w0(2) by (auto simp: reap_worker_def worker_ok_def)
  qed
  ultimately show ?thesis using assms by (simp add: workers_ok_def dict_wf_def)
qed

section \<open>The registry as a transition system\<close>

datatype registry_event =
    Heartbeat HeartbeatPayload
  | Busy worker_id task_id
  | Idle worker_id "task_id option"
  | Reap

text \<open>An event at an instant, with the heartbeat time-out of the configuration.\<close>

inductive registry_step :: "workers \<Rightarrow> registry_event \<times> int \<times> int \<Rightarrow> workers \<Rightarrow> bool" where
  "registry_step ws (Heartbeat hb, now, timeout) (snd (update_from_heartbeat hb now ws))"
| "registry_step ws (Busy wid tid, now, timeout) (mark_busy wid tid ws)"
| "registry_step ws (Idle wid tid, now, timeout) (mark_idle wid tid ws)"
| "registry_step ws (Reap, now, timeout) (snd (reap_dead_workers now timeout ws))"

definition registry_init :: "workers \<Rightarrow> bool" where
  "registry_init ws \<longleftrightarrow> ws = []"

interpretation registry: inductive_invariant registry_init registry_step workers_ok
proof unfold_locales
  show "workers_ok ws" if "registry_init ws" for ws
    using that by (simp add: registry_init_def workers_ok_def)
  show "workers_ok ws'" if "workers_ok ws" "registry_step ws e ws'" for ws e ws'
    using that(2,1)
    by cases (auto intro: workers_ok_heartbeat workers_ok_mark_busy workers_ok_mark_idle workers_ok_reap)
qed

section \<open>Properties\<close>


definition sample_heartbeat :: "worker_id \<Rightarrow> HeartbeatPayload" where
  "sample_heartbeat wid = \<lparr>hb_worker_id = wid, hb_capabilities = [FULL], hb_max_concurrent = 1,
     hb_timestamp = 0, hb_active_task_id = None, hb_is_busy = Some False, hb_available_slots = Some 1,
     hb_system_info = None\<rparr>"

definition sample_workers :: workers where
  "sample_workers = snd (update_from_heartbeat (sample_heartbeat ''w1'') 10 [])"


end
