(* ===== verification/Execution_Supervisor.thy ===== *)
theory Execution_Supervisor
  imports Task_Outbox Nested_Wait Worker_Registry
begin

text \<open>
  The orchestrator (\<^verbatim>\<open>services/orchestrator\<close>): the dispatch and cancellation loop of
  \<^verbatim>\<open>scheduler.py\<close>, \<^verbatim>\<open>task_finalizer.py\<close> and the supervisor iteration of
  \<^verbatim>\<open>execution_supervisor.py\<close> over the database, the worker and telemetry registries and the
  nested-wait hash.

  A step of the supervisor runs to its end or to an exception that leaves it; an exception keeps
  the state changes made so far, so a step returns a success flag and the state. The settings of
  \<^verbatim>\<open>config.ORCHESTRATOR\<close> are a record, \<open>rv\<close> is the transport's answer to a revoke
  (as in the use cases), \<open>now\<close> the clock of the step. WebSocket events are collected in the
  state; their delivery, and Valkey failures that the code only logs, are left out.
\<close>

section \<open>State\<close>

record OrchestratorConfig =
  cf_heartbeat_timeout :: int
  cf_telemetry_stale_timeout :: int
  cf_task_stop_grace_period :: int
  cf_oom_guard_cooldown :: int

type_synonym terminal_event = "task_id \<times> TaskExecutionStatus \<times> string option"

record Orchestrator =
  or_db :: db
  or_workers :: workers
  or_executions :: executions
  or_waits :: reservations
  or_host_last_kill_at :: "(string, int) dict"
  or_started_at :: int
  or_events :: "terminal_event list"
  or_calls :: "transport_call list"

datatype orchestrator_error =
    UseCaseError use_case_error
  | TaskNotFoundException
  | UnsupportedStatus
  | MissingTerminationReason

text \<open>A loop whose body may raise: it stops at the first exception.\<close>

fun for_each :: "('a \<Rightarrow> 's \<Rightarrow> bool \<times> 's) \<Rightarrow> 'a list \<Rightarrow> 's \<Rightarrow> bool \<times> 's" where
  "for_each f [] s = (True, s)"
| "for_each f (x # xs) s = (let (ok, s') = f x s in if ok then for_each f xs s' else (False, s'))"

section \<open>Terminal events and runtime cleanup\<close>

definition publish_task_terminal_event ::
    "task_id \<Rightarrow> TaskExecutionStatus \<Rightarrow> string option \<Rightarrow> Orchestrator \<Rightarrow> Orchestrator" where
  "publish_task_terminal_event tid st msg o1 = o1\<lparr>or_events := or_events o1 @ [(tid, st, msg)]\<rparr>"

definition cleanup_execution_runtime :: "task_id \<Rightarrow> worker_id \<Rightarrow> Orchestrator \<Rightarrow> Orchestrator" where
  "cleanup_execution_runtime tid wid o1 = o1\<lparr>
     or_executions := snd (executions_remove tid (or_executions o1)),
     or_workers := mark_idle wid (Some tid) (or_workers o1),
     or_waits := release_nested_wait (Some tid) (Some tid) (Some wid) (or_waits o1)\<rparr>"

definition finalize_task_terminal_status ::
    "task_id \<Rightarrow> worker_id option \<Rightarrow> TaskExecutionStatus \<Rightarrow> reason option \<Rightarrow> string option \<Rightarrow>
     int \<Rightarrow> Orchestrator \<Rightarrow> (orchestrator_error, bool) result \<times> Orchestrator" where
  "finalize_task_terminal_status tid wid st r msg now o1 =
     (if st \<notin> {ERROR, CANCELLED} then (Inl UnsupportedStatus, o1)
      else if r = None then (Inl MissingTerminationReason, o1)
      else case finalize_reconciled_execution tid r msg now (or_db o1) of
        Inl e \<Rightarrow> (Inl (UseCaseError (Flow e)), o1)
      | Inr (finalized, db') \<Rightarrow>
          let o2 = o1\<lparr>or_db := db'\<rparr> in
          if (case finalized of None \<Rightarrow> True | Some t \<Rightarrow> te_status t \<noteq> st) then (Inr False, o2)
          else
            let o3 = o2\<lparr>or_executions := snd (executions_remove tid (or_executions o2))\<rparr>;
                o4 = (case wid of None \<Rightarrow> o3
                      | Some w \<Rightarrow> o3\<lparr>or_workers := mark_idle w (Some tid) (or_workers o3)\<rparr>);
                o5 = o4\<lparr>or_waits := release_nested_wait (Some tid) (Some tid) wid (or_waits o4)\<rparr>
            in (Inr True, publish_task_terminal_event tid st msg o5))"

section \<open>Scheduler\<close>

definition after_stop_request ::
    "task_id \<Rightarrow> TaskTerminationReason \<Rightarrow>
     (use_case_error, TaskExecution option) result \<times> transport_call list \<times> db \<Rightarrow>
     Orchestrator \<Rightarrow> (orchestrator_error, bool) result \<times> Orchestrator" where
  "after_stop_request tid r out o1 =
     (let (res, calls, db') = out;
          o2 = o1\<lparr>or_db := db', or_calls := or_calls o1 @ calls\<rparr>
      in case res of
           Inl e \<Rightarrow> (Inl (UseCaseError e), o2)
         | Inr None \<Rightarrow> (Inl TaskNotFoundException, o2)
         | Inr (Some task) \<Rightarrow>
             let o3 = (if te_status task = CANCELLED \<and> te_termination_reason task = Some (Known r)
                       then publish_task_terminal_event (te_task_id task) CANCELLED None
                              (o2\<lparr>or_waits := release_nested_wait None (Some tid) None (or_waits o2)\<rparr>)
                       else o2)
             in (Inr (te_status task \<notin> {SUCCESS, ERROR, CANCELLED} \<or>
                      te_termination_reason task = Some (Known r)), o3))"

definition request_task_stop ::
    "(task_id \<Rightarrow> bool \<Rightarrow> bool) \<Rightarrow> task_id \<Rightarrow> TaskTerminationReason \<Rightarrow> int \<Rightarrow> Orchestrator \<Rightarrow>
     (orchestrator_error, bool) result \<times> Orchestrator" where
  "request_task_stop rv tid r now o1 =
     after_stop_request tid r (request_stop_task rv tid r now (or_db o1)) o1"

definition handle_task_cancel ::
    "(task_id \<Rightarrow> bool \<Rightarrow> bool) \<Rightarrow> task_id \<Rightarrow> int \<Rightarrow> Orchestrator \<Rightarrow>
     (orchestrator_error, bool) result \<times> Orchestrator" where
  "handle_task_cancel rv tid now o1 = request_task_stop rv tid USER_STOP now o1"

definition request_task_hard_stop ::
    "(task_id \<Rightarrow> bool \<Rightarrow> bool) \<Rightarrow> task_id \<Rightarrow> TaskTerminationReason \<Rightarrow> int \<Rightarrow> Orchestrator \<Rightarrow>
     (orchestrator_error, bool) result \<times> Orchestrator" where
  "request_task_hard_stop rv tid r now o1 =
     after_stop_request tid r (kill_task rv tid r now (or_db o1)) o1"

definition scheduler_terminate_execution ::
    "(task_id \<Rightarrow> bool \<Rightarrow> bool) \<Rightarrow> task_id \<Rightarrow> Orchestrator \<Rightarrow> bool \<times> Orchestrator" where
  "scheduler_terminate_execution rv tid o1 =
     (case terminate_execution rv tid of
        Inl e \<Rightarrow> (False, o1\<lparr>or_calls := or_calls o1 @ [Revoke tid True]\<rparr>)
      | Inr u \<Rightarrow> (True, o1\<lparr>or_calls := or_calls o1 @ [Revoke tid True]\<rparr>))"

definition scheduler_tick ::
    "OrchestratorConfig \<Rightarrow> (task_id \<Rightarrow> json \<Rightarrow> string option) \<Rightarrow> int \<Rightarrow> Orchestrator \<Rightarrow> nat \<times> Orchestrator" where
  "scheduler_tick cfg publish now o1 =
     (let o2 = o1\<lparr>or_workers := snd (reap_dead_workers now (cf_heartbeat_timeout cfg) (or_workers o1))\<rparr>;
          (published, db') = publish_pending_dispatches publish 100 now (or_db o2)
      in (published, o2\<lparr>or_db := db'\<rparr>))"

section \<open>Executions of lost workers\<close>

definition worker_lost_message :: string where
  "worker_lost_message = ''Task worker heartbeat was lost''"

definition reconcile_stale_task :: "OrchestratorConfig \<Rightarrow> int \<Rightarrow> TaskExecution \<Rightarrow> Orchestrator \<Rightarrow> Orchestrator" where
  "reconcile_stale_task cfg now task o1 =
     (case te_assigned_worker_id task of
        None \<Rightarrow> o1
      | Some wid \<Rightarrow>
          let worker = workers_get wid (or_workers o1) in
          if (case worker of Some w \<Rightarrow> is_alive now (cf_heartbeat_timeout cfg) w | None \<Rightarrow> False)
          then o1\<lparr>or_workers := mark_busy wid (te_task_id task) (or_workers o1)\<rparr>
          else if worker = None \<and> now - or_started_at o1 < cf_heartbeat_timeout cfg then o1
          else case finalize_reconciled_execution (te_task_id task) (Some (Known WORKER_LOST))
                      (Some worker_lost_message) now (or_db o1) of
                 Inl e \<Rightarrow> o1
               | Inr (None, db') \<Rightarrow> o1\<lparr>or_db := db'\<rparr>
               | Inr (Some finalized, db') \<Rightarrow>
                   publish_task_terminal_event (te_task_id task) ERROR (Some worker_lost_message)
                     (cleanup_execution_runtime (te_task_id task) wid (o1\<lparr>or_db := db'\<rparr>)))"

definition reconcile_stale_executions :: "OrchestratorConfig \<Rightarrow> int \<Rightarrow> Orchestrator \<Rightarrow> bool \<times> Orchestrator" where
  "reconcile_stale_executions cfg now o1 =
     (let o2 = o1\<lparr>or_workers := snd (reap_dead_workers now (cf_heartbeat_timeout cfg) (or_workers o1))\<rparr>;
          active = list_worker_owned_active_executions 1000 (or_db o2);
          active_ids = map te_task_id active;
          o3 = fold (reconcile_stale_task cfg now) active o2;
          stale_records = executions_get_stale now (cf_telemetry_stale_timeout cfg) (or_executions o3)
      in (True, fold (\<lambda>r. cleanup_execution_runtime (xr_task_id r) (xr_worker_id r))
                  (filter (\<lambda>r. xr_task_id r \<notin> set active_ids) stale_records) o3))"

section \<open>Nested waits\<close>

definition reservation_is_dead ::
    "OrchestratorConfig \<Rightarrow> int \<Rightarrow> Orchestrator \<Rightarrow> NestedWaitReservation \<Rightarrow> bool" where
  "reservation_is_dead cfg now o1 r =
     (let worker_alive = (case workers_get (nw_origin_worker_id r) (or_workers o1) of
            Some w \<Rightarrow> is_alive now (cf_heartbeat_timeout cfg) w | None \<Rightarrow> False);
          parent = get_task_execution (nw_parent_task_id r) (or_db o1);
          child = get_task_execution (nw_child_task_id r) (or_db o1);
          gone = (\<lambda>t. case t of None \<Rightarrow> True | Some x \<Rightarrow> te_status x \<in> {SUCCESS, ERROR, CANCELLED})
      in \<not> worker_alive \<or> gone parent \<or> gone child)"

definition online_worker_ids :: "OrchestratorConfig \<Rightarrow> int \<Rightarrow> Orchestrator \<Rightarrow> worker_id set" where
  "online_worker_ids cfg now o1 =
     set (map ws_worker_id (filter (\<lambda>w. ws_status w = ONLINE)
       (get_alive_workers now (cf_heartbeat_timeout cfg) (or_workers o1))))"

definition evict_reservation ::
    "(task_id \<Rightarrow> bool \<Rightarrow> bool) \<Rightarrow> int \<Rightarrow> NestedWaitReservation \<Rightarrow> Orchestrator \<Rightarrow> bool \<times> Orchestrator" where
  "evict_reservation rv now r o1 =
     (case request_task_hard_stop rv (nw_parent_task_id r) NESTED_WAIT_CAPACITY_LOST now o1 of
        (Inl e, o2) \<Rightarrow> (False, o2)
      | (Inr requested, o2) \<Rightarrow> (True, o2))"

definition reconcile_nested_wait_reservations ::
    "OrchestratorConfig \<Rightarrow> (task_id \<Rightarrow> bool \<Rightarrow> bool) \<Rightarrow> int \<Rightarrow> Orchestrator \<Rightarrow> bool \<times> Orchestrator" where
  "reconcile_nested_wait_reservations cfg rv now o1 =
     (let reservations = nested_waits_list (or_waits o1);
          waits1 = fold (\<lambda>r m. if reservation_is_dead cfg now o1 r
                               then release_nested_wait (Some (nw_parent_task_id r)) None None m else m)
                     reservations (or_waits o1);
          alive = card (online_worker_ids cfg now o1);
          (evicted, waits2) = nested_waits_rebalance (max (int alive - 1) 0) waits1
      in for_each (evict_reservation rv now) evicted (o1\<lparr>or_waits := waits2\<rparr>))"

section \<open>Tasks with a requested stop\<close>

definition termination_error_message :: "reason option \<Rightarrow> TaskExecutionStatus \<Rightarrow> string option" where
  "termination_error_message r st =
     (if st = ERROR
      then if r = Some (Known OOM_GUARD) then Some ''Task terminated by OOM guard''
           else Some (''Task terminated: '' @
                  (case r of
                     None \<Rightarrow> ''unknown reason''
                   | Some x \<Rightarrow> if str_of_reason x = [] then ''unknown reason'' else str_of_reason x))
      else None)"

definition finalize_cancelled_task :: "int \<Rightarrow> TaskExecution \<Rightarrow> Orchestrator \<Rightarrow> Orchestrator" where
  "finalize_cancelled_task now task o1 =
     (let st = terminal_status_for_termination_reason (te_termination_reason task)
      in snd (finalize_task_terminal_status (te_task_id task) (te_assigned_worker_id task) st
                (te_termination_reason task) (termination_error_message (te_termination_reason task) st)
                now o1))"

definition reconcile_cancel_task ::
    "OrchestratorConfig \<Rightarrow> (task_id \<Rightarrow> bool \<Rightarrow> bool) \<Rightarrow> int \<Rightarrow> TaskExecution \<Rightarrow> Orchestrator \<Rightarrow> Orchestrator" where
  "reconcile_cancel_task cfg rv now task o1 =
     (let tid = te_task_id task;
          execution = executions_get tid (or_executions o1);
          stale = (case execution of None \<Rightarrow> False
                   | Some r \<Rightarrow> is_stale now (cf_telemetry_stale_timeout cfg) r);
          reference_ts = (case te_updated_at task of Some u \<Rightarrow> u | None \<Rightarrow> now);
          age = now - reference_ts;
          user_stop = (te_termination_reason task = Some (Known USER_STOP));
          escalate = (user_stop \<and> execution \<noteq> None \<and> age \<ge> cf_task_stop_grace_period cfg);
          (ok, o2) = (if escalate then scheduler_terminate_execution rv tid o1 else (True, o1));
          terminal_delay = (if user_stop then cf_task_stop_grace_period cfg
                            else cf_telemetry_stale_timeout cfg)
      in if \<not> ok then o2
         else if execution \<noteq> None \<and> \<not> stale then o2
         else if age < terminal_delay then o2
         else
           let (ok', o3) = (if user_stop \<and> execution = None
                            then scheduler_terminate_execution rv tid o2 else (True, o2))
           in if \<not> ok' then o3 else finalize_cancelled_task now task o3)"

definition reconcile_cancel_requested_tasks ::
    "OrchestratorConfig \<Rightarrow> (task_id \<Rightarrow> bool \<Rightarrow> bool) \<Rightarrow> int \<Rightarrow> Orchestrator \<Rightarrow> bool \<times> Orchestrator" where
  "reconcile_cancel_requested_tasks cfg rv now o1 =
     (True, fold (reconcile_cancel_task cfg rv now)
              (list_executions_for_reconciliation [CANCEL_REQUESTED] 1000 (or_db o1)) o1)"

section \<open>OOM guard\<close>

datatype OOMGuardMode = OOM_DISABLED | OOM_HOST_PRESSURE | OOM_WORKER_THRESHOLD
datatype OOMWorkerThresholdType = THRESHOLD_PERCENT | THRESHOLD_ABSOLUTE_MB

record OOMGuardConfig =
  og_mode :: OOMGuardMode
  og_host_threshold_percent :: "real option"
  og_worker_threshold_type :: "OOMWorkerThresholdType option"
  og_worker_threshold_percent :: "real option"
  og_worker_threshold_mb :: "int option"

definition validate_mode_settings :: "OOMGuardConfig \<Rightarrow> (string, OOMGuardConfig) result" where
  "validate_mode_settings og =
     (case og_mode og of
        OOM_DISABLED \<Rightarrow> Inr og
      | OOM_HOST_PRESSURE \<Rightarrow>
          (case og_host_threshold_percent og of
             None \<Rightarrow> Inl ''host_threshold_percent is required for HOST_PRESSURE mode''
           | Some p \<Rightarrow>
               if \<not> (0 < p \<and> p \<le> 100) then Inl ''host_threshold_percent must be within (0, 100]'' else Inr og)
      | OOM_WORKER_THRESHOLD \<Rightarrow>
          (case og_worker_threshold_type og of
             None \<Rightarrow> Inl ''worker_threshold_type is required for WORKER_THRESHOLD mode''
           | Some THRESHOLD_PERCENT \<Rightarrow>
               (case og_worker_threshold_percent og of
                  None \<Rightarrow> Inl ''worker_threshold_percent is required for PERCENT threshold type''
                | Some p \<Rightarrow>
                    if \<not> (0 < p \<and> p \<le> 100) then Inl ''worker_threshold_percent must be within (0, 100]''
                    else if og_worker_threshold_mb og \<noteq> None
                    then Inl ''worker_threshold_mb must not be set for PERCENT threshold type''
                    else Inr og)
           | Some THRESHOLD_ABSOLUTE_MB \<Rightarrow>
               (case og_worker_threshold_mb og of
                  None \<Rightarrow> Inl ''worker_threshold_mb is required for ABSOLUTE_MB threshold type''
                | Some mb \<Rightarrow>
                    if mb \<le> 0 then Inl ''worker_threshold_mb must be greater than zero''
                    else if og_worker_threshold_percent og \<noteq> None
                    then Inl ''worker_threshold_percent must not be set for ABSOLUTE_MB threshold type''
                    else Inr og)))"

text \<open>Python's \<^verbatim>\<open>max\<close> with a key: the first element with the greatest key.\<close>

fun max_by :: "('a \<Rightarrow> 'k::linorder) \<Rightarrow> 'a \<Rightarrow> 'a list \<Rightarrow> 'a" where
  "max_by key best [] = best"
| "max_by key best (x # xs) = max_by key (if key x > key best then x else best) xs"

definition request_task_kill ::
    "(task_id \<Rightarrow> bool \<Rightarrow> bool) \<Rightarrow> task_id \<Rightarrow> TaskTerminationReason \<Rightarrow> int \<Rightarrow> Orchestrator \<Rightarrow>
     (orchestrator_error, bool) result \<times> Orchestrator" where
  "request_task_kill rv tid r now o1 =
     (let (res, calls, db') = kill_task rv tid r now (or_db o1);
          o2 = o1\<lparr>or_db := db', or_calls := or_calls o1 @ calls\<rparr>
      in case res of
           Inl e \<Rightarrow> (Inl (UseCaseError e), o2)
         | Inr None \<Rightarrow> (Inr False, o2)
         | Inr (Some task) \<Rightarrow> (Inr (te_status task = CANCEL_REQUESTED), o2))"

definition in_cooldown :: "OrchestratorConfig \<Rightarrow> int \<Rightarrow> string \<Rightarrow> Orchestrator \<Rightarrow> bool" where
  "in_cooldown cfg now hostname o1 \<longleftrightarrow>
     now - dict_get_default 0 (or_host_last_kill_at o1) hostname < cf_oom_guard_cooldown cfg"

definition kill_victim ::
    "(task_id \<Rightarrow> bool \<Rightarrow> bool) \<Rightarrow> int \<Rightarrow> TaskExecutionRecord \<Rightarrow> Orchestrator \<Rightarrow> bool \<times> Orchestrator" where
  "kill_victim rv now victim o1 =
     (case request_task_kill rv (xr_task_id victim) OOM_GUARD now o1 of
        (Inl e, o2) \<Rightarrow> (False, o2)
      | (Inr requested, o2) \<Rightarrow>
          (True, if requested
                 then o2\<lparr>or_host_last_kill_at := dict_put (xr_hostname victim) now (or_host_last_kill_at o2)\<rparr>
                 else o2))"

fun group_by_host :: "TaskExecutionRecord list \<Rightarrow> (string, TaskExecutionRecord list) dict \<Rightarrow>
    (string, TaskExecutionRecord list) dict" where
  "group_by_host [] d = d"
| "group_by_host (r # rs) d =
     group_by_host rs (dict_put (xr_hostname r) (dict_get_default [] d (xr_hostname r) @ [r]) d)"

definition host_pressure_step ::
    "OrchestratorConfig \<Rightarrow> real \<Rightarrow> (task_id \<Rightarrow> bool \<Rightarrow> bool) \<Rightarrow> int \<Rightarrow>
     string \<times> TaskExecutionRecord list \<Rightarrow> Orchestrator \<Rightarrow> bool \<times> Orchestrator" where
  "host_pressure_step cfg threshold rv now entry o1 =
     (case entry of
        (hostname, []) \<Rightarrow> (True, o1)
      | (hostname, r # rs) \<Rightarrow>
          let host_pressure = xr_system_ram_used_percent (max_by xr_system_ram_used_percent r rs) in
          if host_pressure < threshold then (True, o1)
          else if in_cooldown cfg now hostname o1 then (True, o1)
          else kill_victim rv now (max_by xr_rss_bytes r rs) o1)"

definition apply_host_pressure_guard ::
    "OrchestratorConfig \<Rightarrow> OOMGuardConfig \<Rightarrow> (task_id \<Rightarrow> bool \<Rightarrow> bool) \<Rightarrow> int \<Rightarrow>
     TaskExecutionRecord list \<Rightarrow> Orchestrator \<Rightarrow> bool \<times> Orchestrator" where
  "apply_host_pressure_guard cfg og rv now records o1 =
     (case og_host_threshold_percent og of
        None \<Rightarrow> (True, o1)
      | Some threshold \<Rightarrow> for_each (host_pressure_step cfg threshold rv now) (group_by_host records []) o1)"

definition worker_memory_used_percent :: "TaskExecutionRecord \<Rightarrow> real option" where
  "worker_memory_used_percent r =
     (case xr_memory_limit_bytes r of
        None \<Rightarrow> None
      | Some limit \<Rightarrow>
          if limit \<le> 0 then None else Some (real_of_int (xr_rss_bytes r) / real_of_int limit * 100))"

definition threshold_candidate ::
    "OrchestratorConfig \<Rightarrow> OOMGuardConfig \<Rightarrow> int \<Rightarrow> Orchestrator \<Rightarrow> TaskExecutionRecord \<Rightarrow>
     (real \<times> TaskExecutionRecord) option" where
  "threshold_candidate cfg og now o1 r =
     (if in_cooldown cfg now (xr_hostname r) o1 then None
      else case og_worker_threshold_type og of
        None \<Rightarrow> None
      | Some THRESHOLD_PERCENT \<Rightarrow>
          (case (worker_memory_used_percent r, og_worker_threshold_percent og) of
             (Some used, Some limit) \<Rightarrow> if used < limit then None else Some (used, r)
           | _ \<Rightarrow> None)
      | Some THRESHOLD_ABSOLUTE_MB \<Rightarrow>
          (case og_worker_threshold_mb og of
             None \<Rightarrow> None
           | Some mb \<Rightarrow> if xr_rss_bytes r < mb * 1024 * 1024 then None
                        else Some (real_of_int (xr_rss_bytes r), r)))"

definition apply_worker_threshold_guard ::
    "OrchestratorConfig \<Rightarrow> OOMGuardConfig \<Rightarrow> (task_id \<Rightarrow> bool \<Rightarrow> bool) \<Rightarrow> int \<Rightarrow>
     TaskExecutionRecord list \<Rightarrow> Orchestrator \<Rightarrow> bool \<times> Orchestrator" where
  "apply_worker_threshold_guard cfg og rv now records o1 =
     (if og_worker_threshold_type og = None then (True, o1)
      else case List.map_filter (threshold_candidate cfg og now o1) records of
        [] \<Rightarrow> (True, o1)
      | c # cs \<Rightarrow> kill_victim rv now (snd (max_by fst c cs)) o1)"

definition apply_oom_guard ::
    "OrchestratorConfig \<Rightarrow> OOMGuardConfig \<Rightarrow> (task_id \<Rightarrow> bool \<Rightarrow> bool) \<Rightarrow> int \<Rightarrow> Orchestrator \<Rightarrow>
     bool \<times> Orchestrator" where
  "apply_oom_guard cfg og rv now o1 =
     (let records = executions_all (or_executions o1) in
      case og_mode og of
        OOM_DISABLED \<Rightarrow> (True, o1)
      | OOM_HOST_PRESSURE \<Rightarrow>
          if records = [] then (True, o1) else apply_host_pressure_guard cfg og rv now records o1
      | OOM_WORKER_THRESHOLD \<Rightarrow>
          if records = [] then (True, o1) else apply_worker_threshold_guard cfg og rv now records o1)"

section \<open>An iteration\<close>

definition run_iteration ::
    "OrchestratorConfig \<Rightarrow> OOMGuardConfig \<Rightarrow> (task_id \<Rightarrow> bool \<Rightarrow> bool) \<Rightarrow> int \<Rightarrow> Orchestrator \<Rightarrow>
     bool \<times> Orchestrator" where
  "run_iteration cfg og rv now o1 =
     (let (ok1, o2) = reconcile_cancel_requested_tasks cfg rv now o1;
          (ok2, o3) = reconcile_stale_executions cfg now o2;
          (ok3, o4) = reconcile_nested_wait_reservations cfg rv now o3;
          (ok4, o5) = apply_oom_guard cfg og rv now o4
      in (ok1 \<and> ok2 \<and> ok3 \<and> ok4, o5))"

end
