(* ===== verification/Supervisor_Safety.thy ===== *)
theory Supervisor_Safety
  imports Execution_Supervisor
begin

text \<open>
  What an iteration of the supervisor guarantees: which tasks of silent workers it fails, which
  cancelled tasks it finishes, how it bounds the nested waits, and whom the OOM guard may kill.
\<close>

section \<open>Liveness evidence\<close>

text \<open>What the registry says of a worker: unknown, silent or alive.\<close>

definition liveness :: "OrchestratorConfig \<Rightarrow> int \<Rightarrow> Orchestrator \<Rightarrow> worker_id \<Rightarrow> bool option" where
  "liveness cfg now o1 wid =
     map_option (is_alive now (cf_heartbeat_timeout cfg)) (workers_get wid (or_workers o1))"

definition worker_lost :: "OrchestratorConfig \<Rightarrow> int \<Rightarrow> Orchestrator \<Rightarrow> worker_id \<Rightarrow> bool" where
  "worker_lost cfg now o1 wid \<longleftrightarrow>
     liveness cfg now o1 wid = Some False \<or>
     (liveness cfg now o1 wid = None \<and> now - or_started_at o1 \<ge> cf_heartbeat_timeout cfg)"

lemma liveness_simps [simp]:
  "liveness cfg now (o1\<lparr>or_db := d\<rparr>) = liveness cfg now o1"
  "liveness cfg now (o1\<lparr>or_executions := xs\<rparr>) = liveness cfg now o1"
  "liveness cfg now (o1\<lparr>or_waits := m\<rparr>) = liveness cfg now o1"
  "liveness cfg now (o1\<lparr>or_workers := mark_busy w tid (or_workers o1)\<rparr>) = liveness cfg now o1"
  "liveness cfg now (o1\<lparr>or_workers := mark_idle w q (or_workers o1)\<rparr>) = liveness cfg now o1"
  "liveness cfg now (o1\<lparr>or_workers := snd (reap_dead_workers now (cf_heartbeat_timeout cfg) (or_workers o1))\<rparr>) =
     liveness cfg now o1"
  by (simp_all add: liveness_def fun_eq_iff alive_mark_busy alive_mark_idle alive_reap)

lemma worker_lost_cong:
  "liveness cfg now o2 = liveness cfg now o1 \<Longrightarrow> or_started_at o2 = or_started_at o1 \<Longrightarrow>
   worker_lost cfg now o2 = worker_lost cfg now o1"
  by (simp add: worker_lost_def fun_eq_iff)

lemma cleanup_frame [simp]:
  "or_db (cleanup_execution_runtime tid wid o1) = or_db o1"
  "or_started_at (cleanup_execution_runtime tid wid o1) = or_started_at o1"
  "liveness cfg now (cleanup_execution_runtime tid wid o1) = liveness cfg now o1"
  by (simp_all add: cleanup_execution_runtime_def liveness_def fun_eq_iff alive_mark_idle)

lemma event_frame [simp]:
  "or_db (publish_task_terminal_event tid st msg o1) = or_db o1"
  "or_started_at (publish_task_terminal_event tid st msg o1) = or_started_at o1"
  "liveness cfg now (publish_task_terminal_event tid st msg o1) = liveness cfg now o1"
  by (simp_all add: publish_task_terminal_event_def liveness_def fun_eq_iff)

section \<open>Sweeps over task rows\<close>

text \<open>
  The contract of a reconciliation loop: the step for a task writes at most the row of that
  task, decides from the task and from state that the steps for other tasks leave alone, and
  keeps the row's identity. The rows after the whole loop follow.
\<close>

locale task_sweep =
  fixes sweep :: "TaskExecution \<Rightarrow> Orchestrator \<Rightarrow> Orchestrator"
    and due :: "Orchestrator \<Rightarrow> TaskExecution \<Rightarrow> bool"
    and written :: "TaskRecord \<Rightarrow> TaskRecord"
    and eligible :: "TaskRecord \<Rightarrow> bool"
  assumes sweep_db: "task_of (or_db o1) (tr_task_id t) = Some t \<Longrightarrow> eligible t \<Longrightarrow>
      or_db (sweep (to_entity t) o1) =
        (if due o1 (to_entity t) then put_task (written t) (or_db o1) else or_db o1)"
    and due_frame: "task_of (or_db o1) (tr_task_id t) = Some t \<Longrightarrow> eligible t \<Longrightarrow>
      te_task_id y \<noteq> tr_task_id t \<Longrightarrow> due (sweep (to_entity t) o1) y = due o1 y"
    and written_id: "tr_task_id (written t) = tr_task_id t"
    and written_slot: "schedule_slot (written t) = schedule_slot t"
begin

lemma sweep_rows:
  assumes "db_wf (or_db o1)" and "distinct (map tr_task_id ts)"
    and "\<forall>t \<in> set ts. task_of (or_db o1) (tr_task_id t) = Some t \<and> eligible t"
  shows "task_of (or_db (fold sweep (map to_entity ts) o1)) tid =
    map_option (\<lambda>t. if t \<in> set ts \<and> due o1 (to_entity t) then written t else t) (task_of (or_db o1) tid)"
  using assms
proof (induction ts arbitrary: o1)
  case Nil
  then show ?case by (simp add: map_option.id [unfolded id_def])
next
  case (Cons x ts)
  let ?o = "sweep (to_entity x) o1"
  have x: "task_of (or_db o1) (tr_task_id x) = Some x" "eligible x" using Cons.prems(3) by simp_all
  note db = sweep_db [OF x]
  have tasks: "task_of (or_db ?o) u = (if u = tr_task_id x \<and> due o1 (to_entity x)
      then Some (written x) else task_of (or_db o1) u)" for u
    using x(1) by (simp add: db task_of_put_task [OF Cons.prems(1)] written_id)
  have wf: "db_wf (or_db ?o)"
    unfolding db using Cons.prems(1) x(1)
    by (auto intro!: db_wf_put_task [of _ _ x] simp: written_id written_slot)
  have ne: "tr_task_id t \<noteq> tr_task_id x" if "t \<in> set ts" for t
    using Cons.prems(2) that by (auto simp: image_iff)
  have IH: "task_of (or_db (fold sweep (map to_entity ts) ?o)) tid =
      map_option (\<lambda>t. if t \<in> set ts \<and> due ?o (to_entity t) then written t else t) (task_of (or_db ?o) tid)"
    using Cons.prems(2,3) ne tasks by (intro Cons.IH [OF wf]) auto
  have same: "due ?o (to_entity t) = due o1 (to_entity t)" if "t \<in> set ts" for t
    using due_frame [OF x] ne [OF that] by (simp add: to_entity_def)
  have id: "tr_task_id t = tid" if "task_of (or_db o1) tid = Some t" for t
    using task_id_of [OF that] .
  show ?case
  proof (cases "tid = tr_task_id x")
    case True
    have "t \<notin> set ts" if "tr_task_id t = tr_task_id x" for t using ne that by metis
    then show ?thesis
      using IH tasks [of tid] x(1) written_id [of x] unfolding True by (auto simp: same)
  next
    case False
    then have "t \<noteq> x" if "task_of (or_db o1) tid = Some t" for t using id [OF that] by blast
    then show ?thesis
      using IH tasks [of tid] False by (cases "task_of (or_db o1) tid") (auto simp: same)
  qed
qed

end

section \<open>Tasks of lost workers\<close>

text \<open>What reconciliation writes into the row of a lost task.\<close>

definition lost_row :: "int \<Rightarrow> TaskRecord \<Rightarrow> TaskRecord" where
  "lost_row now t = reconcile_row (Known WORKER_LOST) (Some worker_lost_message) now t"

definition owner_lost :: "OrchestratorConfig \<Rightarrow> int \<Rightarrow> Orchestrator \<Rightarrow> TaskExecution \<Rightarrow> bool" where
  "owner_lost cfg now o1 x \<longleftrightarrow>
     (case te_assigned_worker_id x of None \<Rightarrow> False | Some wid \<Rightarrow> worker_lost cfg now o1 wid)"

definition in_progress :: "TaskRecord \<Rightarrow> bool" where
  "in_progress t \<longleftrightarrow> tr_status t \<in> {STARTED, RUNNING} \<and> tr_termination_reason t = None"

lemma to_entity_id [simp]: "te_task_id (to_entity t) = tr_task_id t"
  by (simp add: to_entity_def)

lemma finalize_lost:
  assumes "task_of d tid = Some t" and "in_progress t"
  shows "finalize_reconciled_execution tid (Some (Known WORKER_LOST)) (Some worker_lost_message) now d =
    Inr (Some (to_entity (lost_row now t)), put_task (lost_row now t) d)"
  using assms
  by (auto simp: finalize_reconciled_execution_def finalize_reconciled_def Let_def lost_row_def in_progress_def
      RECONCILIATION_TERMINATION_REASONS_def reconcile_allowed_def choose_termination_reason_def
      normalize_termination_request_def)

lemma reconcile_stale_task_effect:
  assumes "task_of (or_db o1) (tr_task_id t) = Some t" and "in_progress t"
  shows "or_db (reconcile_stale_task cfg now (to_entity t) o1) =
      (if owner_lost cfg now o1 (to_entity t) then put_task (lost_row now t) (or_db o1) else or_db o1)"
    "liveness cfg now (reconcile_stale_task cfg now (to_entity t) o1) = liveness cfg now o1"
    "or_started_at (reconcile_stale_task cfg now (to_entity t) o1) = or_started_at o1"
proof -
  note fin = finalize_lost [OF assms, of now]
  show "or_db (reconcile_stale_task cfg now (to_entity t) o1) =
      (if owner_lost cfg now o1 (to_entity t) then put_task (lost_row now t) (or_db o1) else or_db o1)"
    by (auto simp: reconcile_stale_task_def Let_def fin owner_lost_def worker_lost_def liveness_def
        split: option.splits)
  show "liveness cfg now (reconcile_stale_task cfg now (to_entity t) o1) = liveness cfg now o1"
    "or_started_at (reconcile_stale_task cfg now (to_entity t) o1) = or_started_at o1"
    by (simp_all add: reconcile_stale_task_def Let_def fin split: option.splits)
qed

lemma owner_lost_cong:
  "liveness cfg now o2 = liveness cfg now o1 \<Longrightarrow> or_started_at o2 = or_started_at o1 \<Longrightarrow>
   owner_lost cfg now o2 = owner_lost cfg now o1"
  using worker_lost_cong by (simp add: owner_lost_def fun_eq_iff split: option.splits)

interpretation stale_sweep: task_sweep "reconcile_stale_task cfg now" "owner_lost cfg now" "lost_row now" in_progress
  for cfg now
proof unfold_locales
  fix o1 :: Orchestrator and t :: TaskRecord and y :: TaskExecution
  assume t: "task_of (or_db o1) (tr_task_id t) = Some t" "in_progress t"
  show "owner_lost cfg now (reconcile_stale_task cfg now (to_entity t) o1) y = owner_lost cfg now o1 y"
    using owner_lost_cong [OF reconcile_stale_task_effect(2,3) [OF t]] by simp
qed (simp_all add: reconcile_stale_task_effect lost_row_def)

text \<open>The rows the step reads: tasks in progress with an owner, at most a thousand.\<close>

definition swept_active :: "db \<Rightarrow> TaskRecord list" where
  "swept_active d = take 1000 (sort_key (\<lambda>t. (nulls_last (tr_started_at t), tr_task_id t))
     (filter (\<lambda>t. tr_status t \<in> WORKER_OWNED_ACTIVE_STATUSES \<and> tr_assigned_worker_id t \<noteq> None) (db_tasks d)))"

lemma listed_swept_active:
  "list_worker_owned_active_executions 1000 d = map to_entity (swept_active d)"
  by (simp add: list_worker_owned_active_executions_def list_worker_owned_active_def swept_active_def)

lemma fold_cleanup_db:
  "or_db (fold (\<lambda>r. cleanup_execution_runtime (xr_task_id r) (xr_worker_id r)) rs o1) = or_db o1"
  by (induction rs arbitrary: o1) simp_all

text \<open>The rows after the step, in terms of the state it started from.\<close>

lemma reconcile_stale_rows:
  assumes inv: "task_db_inv (or_db o1)" and step: "reconcile_stale_executions cfg now o1 = (ok, o2)"
  shows "task_of (or_db o2) tid =
    map_option (\<lambda>t. if t \<in> set (swept_active (or_db o1)) \<and> owner_lost cfg now o1 (to_entity t)
                    then lost_row now t else t) (task_of (or_db o1) tid)"
proof -
  define o0 where "o0 = o1\<lparr>or_workers := snd (reap_dead_workers now (cf_heartbeat_timeout cfg) (or_workers o1))\<rparr>"
  have o0: "or_db o0 = or_db o1" "or_started_at o0 = or_started_at o1"
      "liveness cfg now o0 = liveness cfg now o1"
    unfolding o0_def by simp_all
  have wf: "db_wf (or_db o0)" using inv o0(1) by (simp add: task_db_invD)
  have el: "task_of (or_db o0) (tr_task_id t) = Some t \<and> in_progress t"
    if "t \<in> set (swept_active (or_db o1))" for t
  proof -
    have t: "t \<in> set (db_tasks (or_db o1))" "tr_status t \<in> {STARTED, RUNNING}"
      using selected_rows [OF that [unfolded swept_active_def]]
      by (auto simp: WORKER_OWNED_ACTIVE_STATUSES_def)
    then have "row_inv t" using inv by (simp add: task_db_inv_def)
    then have "in_progress t" using t(2) unfolding row_inv_def in_progress_def by blast
    then show ?thesis using task_of_in_set [OF wf] t(1) o0(1) by simp
  qed
  have "distinct (map tr_task_id (swept_active (or_db o1)))"
    unfolding swept_active_def using wf o0(1) by (simp add: distinct_selected_rows db_wf_ids)
  moreover have "or_db o2 = or_db (fold (reconcile_stale_task cfg now) (map to_entity (swept_active (or_db o1))) o0)"
    using step by (auto simp: reconcile_stale_executions_def Let_def o0_def fold_cleanup_db listed_swept_active)
  ultimately show ?thesis
    using stale_sweep.sweep_rows [OF wf] el o0(1) owner_lost_cong [OF o0(3,2)] by simp
qed

lemma owner_lost_entity:
  "tr_assigned_worker_id t = Some wid \<Longrightarrow> owner_lost cfg now o1 (to_entity t) = worker_lost cfg now o1 wid"
  by (simp add: owner_lost_def to_entity_def)

section \<open>Properties\<close>


definition sample_orchestrator :: "db \<Rightarrow> Orchestrator" where
  "sample_orchestrator d = \<lparr>or_db = d, or_workers = [], or_executions = [], or_waits = [],
     or_host_last_kill_at = [], or_started_at = 0, or_events = [], or_calls = []\<rparr>"

definition sample_config :: OrchestratorConfig where
  "sample_config = \<lparr>cf_heartbeat_timeout = 30, cf_telemetry_stale_timeout = 60,
     cf_task_stop_grace_period = 20, cf_oom_guard_cooldown = 10\<rparr>"


section \<open>Tasks with a requested stop\<close>

definition user_stopped :: "TaskExecution \<Rightarrow> bool" where
  "user_stopped x \<longleftrightarrow> te_termination_reason x = Some (Known USER_STOP)"

definition cancellation_delay :: "OrchestratorConfig \<Rightarrow> TaskExecution \<Rightarrow> int" where
  "cancellation_delay cfg x =
     (if user_stopped x then cf_task_stop_grace_period cfg else cf_telemetry_stale_timeout cfg)"

definition cancellation_age :: "int \<Rightarrow> TaskExecution \<Rightarrow> int" where
  "cancellation_age now x = now - (case te_updated_at x of Some u \<Rightarrow> u | None \<Rightarrow> now)"

definition reconcilable_reason :: "reason option \<Rightarrow> bool" where
  "reconcilable_reason r \<longleftrightarrow> (\<exists>k \<in> RECONCILIATION_TERMINATION_REASONS. r = Some (Known k))"

text \<open>
  A stop request is due when no fresh telemetry shows the task running, its delay has passed,
  the transport takes the termination of a user stop, and its reason may be reconciled.
\<close>

definition cancel_due ::
    "OrchestratorConfig \<Rightarrow> (task_id \<Rightarrow> bool \<Rightarrow> bool) \<Rightarrow> int \<Rightarrow> Orchestrator \<Rightarrow> TaskExecution \<Rightarrow> bool" where
  "cancel_due cfg rv now o1 x \<longleftrightarrow>
     (case executions_get (te_task_id x) (or_executions o1) of
        None \<Rightarrow> True | Some r \<Rightarrow> is_stale now (cf_telemetry_stale_timeout cfg) r) \<and>
     cancellation_age now x \<ge> cancellation_delay cfg x \<and>
     (user_stopped x \<longrightarrow> rv (te_task_id x) True) \<and>
     reconcilable_reason (te_termination_reason x)"

definition cancelled_row :: "int \<Rightarrow> TaskRecord \<Rightarrow> TaskRecord" where
  "cancelled_row now t =
     (let st = terminal_status_for_termination_reason (tr_termination_reason t)
      in reconcile_row (the (tr_termination_reason t))
           (termination_error_message (tr_termination_reason t) st) now t)"

definition stop_requested :: "TaskRecord \<Rightarrow> bool" where
  "stop_requested t \<longleftrightarrow> tr_status t = CANCEL_REQUESTED"

lemma finalize_reconciled_stopped:
  assumes "task_of d tid = Some t" and "stop_requested t"
  shows "finalize_reconciled_execution tid (tr_termination_reason t) msg now d =
    (if reconcilable_reason (tr_termination_reason t)
     then let t' = reconcile_row (the (tr_termination_reason t)) msg now t
          in Inr (Some (to_entity t'), put_task t' d)
     else Inl InvalidReconciliationTerminationReason)"
  using assms
  by (cases "tr_termination_reason t")
     (auto simp: finalize_reconciled_execution_def reconcilable_reason_def finalize_reconciled_def
        Let_def stop_requested_def reconcile_allowed_def choose_termination_reason_def
        normalize_termination_request_def split: reason.splits)

lemma to_entity_fields [simp]:
  "te_termination_reason (to_entity t) = tr_termination_reason t"
  "te_assigned_worker_id (to_entity t) = tr_assigned_worker_id t"
  "te_status (to_entity t) = tr_status t"
  "te_updated_at (to_entity t) = Some (tr_updated_at t)"
  by (simp_all add: to_entity_def)

lemma executions_get_remove:
  "executions_get u (snd (executions_remove tid xs)) = (if u = tid then None else executions_get u xs)"
  by (simp add: executions_get_def executions_remove_def map_of_dict_del)

lemma finalize_cancelled_effect:
  assumes "task_of (or_db o1) (tr_task_id t) = Some t" and "stop_requested t"
  shows "or_db (finalize_cancelled_task now (to_entity t) o1) =
      (if reconcilable_reason (tr_termination_reason t) then put_task (cancelled_row now t) (or_db o1) else or_db o1)"
    "u \<noteq> tr_task_id t \<Longrightarrow>
      executions_get u (or_executions (finalize_cancelled_task now (to_entity t) o1)) =
      executions_get u (or_executions o1)"
proof -
  let ?r = "tr_termination_reason t"
  define st where "st = terminal_status_for_termination_reason ?r"
  define ok where "ok = reconcilable_reason ?r"
  have st: "st = ERROR \<or> st = CANCELLED" using terminal_status_cases [of ?r] by (auto simp: st_def)
  have some: "?r \<noteq> None \<and> terminal_status_for_termination_reason (Some (the ?r)) = st" if ok
    using that by (auto simp: reconcilable_reason_def ok_def st_def)
  have fin: "finalize_reconciled_execution (tr_task_id t) ?r (termination_error_message ?r st) now (or_db o1) =
    (if ok then let t' = reconcile_row (the ?r) (termination_error_message ?r st) now t
                in Inr (Some (to_entity t'), put_task t' (or_db o1))
     else Inl InvalidReconciliationTerminationReason)"
    unfolding ok_def by (rule finalize_reconciled_stopped [OF assms])
  have row: "cancelled_row now t = reconcile_row (the ?r) (termination_error_message ?r st) now t"
    by (simp add: cancelled_row_def st_def Let_def)
  have task: "finalize_cancelled_task now (to_entity t) o1 = snd (finalize_task_terminal_status
      (tr_task_id t) (tr_assigned_worker_id t) st ?r (termination_error_message ?r st) now o1)"
    by (simp add: finalize_cancelled_task_def st_def Let_def)
  show "or_db (finalize_cancelled_task now (to_entity t) o1) =
      (if reconcilable_reason ?r then put_task (cancelled_row now t) (or_db o1) else or_db o1)"
    unfolding task row ok_def [symmetric] using st some fin
    by (elim disjE; cases ok)
       (auto simp: finalize_task_terminal_status_def Let_def reconcile_row_fields split: option.split)
  show "executions_get u (or_executions (finalize_cancelled_task now (to_entity t) o1)) =
      executions_get u (or_executions o1)" if "u \<noteq> tr_task_id t"
    unfolding task using st some fin that
    by (elim disjE; cases ok)
       (auto simp: finalize_task_terminal_status_def Let_def reconcile_row_fields
          executions_get_remove publish_task_terminal_event_def split: option.split)
qed

lemma terminate_frame [simp]:
  "or_db (snd (scheduler_terminate_execution rv tid o1)) = or_db o1"
  "or_executions (snd (scheduler_terminate_execution rv tid o1)) = or_executions o1"
  "fst (scheduler_terminate_execution rv tid o1) = rv tid True"
  by (simp_all add: scheduler_terminate_execution_def terminate_execution_def)

text \<open>The step either leaves the rows alone or finalises from a state that differs in calls only.\<close>

lemma reconcile_cancel_task_cases:
  "\<exists>o2. or_db o2 = or_db o1 \<and> or_executions o2 = or_executions o1 \<and>
     reconcile_cancel_task cfg rv now x o1 =
       (if (case executions_get (te_task_id x) (or_executions o1) of
              None \<Rightarrow> True | Some r \<Rightarrow> is_stale now (cf_telemetry_stale_timeout cfg) r) \<and>
           cancellation_age now x \<ge> cancellation_delay cfg x \<and> (user_stopped x \<longrightarrow> rv (te_task_id x) True)
        then finalize_cancelled_task now x o2 else o2)"
proof -
  let ?t = "scheduler_terminate_execution rv (te_task_id x) o1"
  obtain ok o2 where t: "?t = (ok, o2)" by (rule prod.exhaust)
  have f: "ok = rv (te_task_id x) True" "or_db o2 = or_db o1" "or_executions o2 = or_executions o1"
    using terminate_frame [of rv "te_task_id x" o1] by (simp_all add: t)
  define w where "w = (if user_stopped x \<and> cancellation_age now x \<ge> cancellation_delay cfg x then o2 else o1)"
  have "or_db w = or_db o1" "or_executions w = or_executions o1" using f by (simp_all add: w_def)
  moreover have "reconcile_cancel_task cfg rv now x o1 =
      (if (case executions_get (te_task_id x) (or_executions o1) of
             None \<Rightarrow> True | Some r \<Rightarrow> is_stale now (cf_telemetry_stale_timeout cfg) r) \<and>
          cancellation_age now x \<ge> cancellation_delay cfg x \<and> (user_stopped x \<longrightarrow> rv (te_task_id x) True)
       then finalize_cancelled_task now x w else w)"
    by (cases "executions_get (te_task_id x) (or_executions o1)"; cases "user_stopped x")
       (simp_all add: reconcile_cancel_task_def Let_def t f(1) w_def cancellation_age_def
          cancellation_delay_def user_stopped_def)
  ultimately show ?thesis by blast
qed

interpretation cancel_sweep: task_sweep "reconcile_cancel_task cfg rv now" "cancel_due cfg rv now"
    "cancelled_row now" stop_requested
  for cfg rv now
proof unfold_locales
  fix o1 :: Orchestrator and t :: TaskRecord and y :: TaskExecution
  assume t: "task_of (or_db o1) (tr_task_id t) = Some t" "stop_requested t"
  obtain o2 where o2: "or_db o2 = or_db o1" "or_executions o2 = or_executions o1"
      "reconcile_cancel_task cfg rv now (to_entity t) o1 =
       (if (case executions_get (te_task_id (to_entity t)) (or_executions o1) of
              None \<Rightarrow> True | Some r \<Rightarrow> is_stale now (cf_telemetry_stale_timeout cfg) r) \<and>
           cancellation_age now (to_entity t) \<ge> cancellation_delay cfg (to_entity t) \<and>
           (user_stopped (to_entity t) \<longrightarrow> rv (te_task_id (to_entity t)) True)
        then finalize_cancelled_task now (to_entity t) o2 else o2)"
    using reconcile_cancel_task_cases [of o1 cfg rv now "to_entity t"] by blast
  have t2: "task_of (or_db o2) (tr_task_id t) = Some t" using t(1) o2(1) by simp
  show "or_db (reconcile_cancel_task cfg rv now (to_entity t) o1) =
      (if cancel_due cfg rv now o1 (to_entity t) then put_task (cancelled_row now t) (or_db o1) else or_db o1)"
    unfolding o2(3) cancel_due_def using finalize_cancelled_effect(1) [OF t2 t(2), of now] o2(1) by auto
  assume ne: "te_task_id y \<noteq> tr_task_id t"
  have "executions_get (te_task_id y) (or_executions (reconcile_cancel_task cfg rv now (to_entity t) o1)) =
      executions_get (te_task_id y) (or_executions o1)"
    unfolding o2(3) using finalize_cancelled_effect(2) [OF t2 t(2) ne, of now] o2(2) by simp
  then show "cancel_due cfg rv now (reconcile_cancel_task cfg rv now (to_entity t) o1) y = cancel_due cfg rv now o1 y"
    unfolding cancel_due_def by simp
qed (simp_all add: cancelled_row_def Let_def)

definition swept_stopped :: "db \<Rightarrow> TaskRecord list" where
  "swept_stopped d = take 1000 (sort_key (\<lambda>t. (tr_updated_at t, tr_task_id t))
     (filter (\<lambda>t. tr_status t \<in> set [CANCEL_REQUESTED]) (db_tasks d)))"

lemma reconcile_cancel_rows:
  assumes wf: "db_wf (or_db o1)" and step: "reconcile_cancel_requested_tasks cfg rv now o1 = (ok, o2)"
  shows "task_of (or_db o2) tid =
    map_option (\<lambda>t. if t \<in> set (swept_stopped (or_db o1)) \<and> cancel_due cfg rv now o1 (to_entity t)
                    then cancelled_row now t else t) (task_of (or_db o1) tid)"
proof -
  have "task_of (or_db o1) (tr_task_id t) = Some t \<and> stop_requested t"
    if "t \<in> set (swept_stopped (or_db o1))" for t
    using selected_rows [OF that [unfolded swept_stopped_def]] task_of_in_set [OF wf]
    by (simp add: stop_requested_def)
  moreover have "distinct (map tr_task_id (swept_stopped (or_db o1)))"
    unfolding swept_stopped_def using wf by (simp add: distinct_selected_rows db_wf_ids)
  moreover have "o2 = fold (reconcile_cancel_task cfg rv now) (map to_entity (swept_stopped (or_db o1))) o1"
    using step by (simp add: reconcile_cancel_requested_tasks_def list_executions_for_reconciliation_def
        list_for_reconciliation_def swept_stopped_def)
  ultimately show ?thesis using cancel_sweep.sweep_rows [OF wf] by simp
qed

text \<open>
  C15. A stop request is carried out or left alone, never lost: a CANCEL_REQUESTED task that
  the step reads becomes terminal with the status of its reason once no fresh telemetry shows it
  running, its delay has passed, the transport took the termination of a user stop and its
  reason may be reconciled; in every other case its row is unchanged.
\<close>

theorem due_stop_requests_are_finalized:
  assumes "db_wf (or_db o1)" and "reconcile_cancel_requested_tasks cfg rv now o1 = (ok, o2)"
    and "task_of (or_db o1) tid = Some t" and "t \<in> set (swept_stopped (or_db o1))"
  shows "if cancel_due cfg rv now o1 (to_entity t)
         then \<exists>t'. task_of (or_db o2) tid = Some t' \<and>
                tr_status t' = terminal_status_for_termination_reason (tr_termination_reason t) \<and>
                tr_status t' \<in> TERMINAL_STATUSES \<and>
                tr_termination_reason t' = tr_termination_reason t \<and> tr_finished_at t' = Some now
         else task_of (or_db o2) tid = Some t"
proof -
  have "\<exists>r. tr_termination_reason t = Some r" if "cancel_due cfg rv now o1 (to_entity t)"
    using that by (auto simp: cancel_due_def reconcilable_reason_def)
  then show ?thesis
    using reconcile_cancel_rows [OF assms(1,2), of tid] assms(3,4) terminal_status_row(1)
    by (auto simp: cancelled_row_def Let_def lifecycle_simps)
qed

theorem due_stop_requests_are_finalized_witness:
  "\<exists>t'. task_of (or_db (snd (reconcile_cancel_requested_tasks sample_config (\<lambda>_ _. True) 100
        (sample_orchestrator (sample_db sample_stopped))))) ''a'' = Some t' \<and>
     tr_status t' \<in> TERMINAL_STATUSES"
proof -
  let ?o = "sample_orchestrator (sample_db sample_stopped)"
  have wf: "db_wf (or_db ?o)"
    using run_wf [OF run_sample db_wf_empty] by (simp add: sample_orchestrator_def)
  have "map_option (\<lambda>t. t \<in> set (swept_stopped (or_db ?o)) \<and>
      cancel_due sample_config (\<lambda>_ _. True) 100 ?o (to_entity t)) (task_of (or_db ?o) ''a'') = Some True"
    by code_simp
  then obtain t where t: "task_of (or_db ?o) ''a'' = Some t" "t \<in> set (swept_stopped (or_db ?o))"
      "cancel_due sample_config (\<lambda>_ _. True) 100 ?o (to_entity t)"
    by auto
  show ?thesis
    using due_stop_requests_are_finalized [OF wf prod.collapse [symmetric] t(1,2), of sample_config "\<lambda>_ _. True" 100]
      t(3) by auto
qed

end
