(* ===== verification/Supervisor_Capacity.thy ===== *)
theory Supervisor_Capacity
  imports Supervisor_Safety
begin

text \<open>
  The capacity side of the supervisor: nested-wait reservations after a reconciliation, and the
  tasks the OOM guard may stop.
\<close>

section \<open>Nested waits\<close>

definition shrinks :: "reservations \<Rightarrow> reservations \<Rightarrow> bool" where
  "shrinks m m' \<longleftrightarrow> set m' \<subseteq> set m \<and> length m' \<le> length m \<and> reservations_wf m'"

lemma shrinks_refl: "reservations_wf m \<Longrightarrow> shrinks m m"
  by (simp add: shrinks_def)

lemma shrinks_trans: "shrinks m m' \<Longrightarrow> shrinks m' m'' \<Longrightarrow> shrinks m m''"
  by (auto simp: shrinks_def)

lemma shrinks_filter: "reservations_wf m \<Longrightarrow> shrinks m (filter p m)"
  by (auto simp: shrinks_def reservations_wf_filter)

lemma shrinks_release_child:
  assumes "reservations_wf m"
  shows "shrinks m (release_nested_wait None (Some tid) None m)"
proof -
  have "dict_wf m" using assms by (simp add: reservations_wf_def)
  then show ?thesis
    using assms by (simp add: release_nested_wait_def release_by_child_def release_matching_eq shrinks_filter)
qed

lemma after_stop_request_waits:
  assumes "reservations_wf (or_waits o1)"
  shows "shrinks (or_waits o1) (or_waits (snd (after_stop_request tid r out o1)))"
  using assms shrinks_release_child [of "or_waits o1" tid]
  by (auto simp: after_stop_request_def publish_task_terminal_event_def shrinks_refl Let_def
      split: prod.splits sum.splits option.splits)

lemma evict_waits:
  assumes "reservations_wf (or_waits o1)"
  shows "shrinks (or_waits o1) (or_waits (snd (evict_reservation rv now r o1)))"
  using after_stop_request_waits [OF assms, of "nw_parent_task_id r" NESTED_WAIT_CAPACITY_LOST
      "kill_task rv (nw_parent_task_id r) NESTED_WAIT_CAPACITY_LOST now (or_db o1)"]
  by (auto simp: evict_reservation_def request_task_hard_stop_def split: prod.splits sum.splits)

lemma for_each_waits:
  assumes "reservations_wf (or_waits o1)"
    and "\<And>x o1. reservations_wf (or_waits o1) \<Longrightarrow> shrinks (or_waits o1) (or_waits (snd (f x o1)))"
  shows "shrinks (or_waits o1) (or_waits (snd (for_each f xs o1)))"
  using assms(1)
proof (induction xs arbitrary: o1)
  case Nil
  then show ?case by (simp add: shrinks_refl)
next
  case (Cons x xs)
  have step: "shrinks (or_waits o1) (or_waits (snd (f x o1)))" using assms(2) [OF Cons.prems] .
  then have "reservations_wf (or_waits (snd (f x o1)))" by (simp add: shrinks_def)
  from Cons.IH [OF this] show ?case
    using step shrinks_trans by (auto simp: Let_def split: prod.splits)
qed

text \<open>Releasing every dead reservation by its parent keeps exactly the live ones.\<close>

lemma release_dead:
  assumes "reservations_wf m"
  shows "fold (\<lambda>r m. if dead r then release_nested_wait (Some (nw_parent_task_id r)) None None m else m)
           (dict_values m) m = filter (\<lambda>(p, r). \<not> dead r) m"
proof -
  have "fold (\<lambda>r m. if dead r then release_nested_wait (Some (nw_parent_task_id r)) None None m else m) rs u =
      filter (\<lambda>p. fst p \<notin> nw_parent_task_id ` {r \<in> set rs. dead r}) u" for rs u
    by (induction rs arbitrary: u)
       (auto simp: release_nested_wait_def release_by_parent_def dict_del_def conj_commute intro: filter_cong)
  moreover have "fst p \<in> nw_parent_task_id ` {r \<in> set (dict_values m). dead r} \<longleftrightarrow> dead (snd p)"
    if "p \<in> set m" for p
  proof
    assume "fst p \<in> nw_parent_task_id ` {r \<in> set (dict_values m). dead r}"
    then obtain q where q: "q \<in> set m" "dead (snd q)" "fst p = nw_parent_task_id (snd q)"
      by (auto simp: dict_values_def)
    have "fst q = fst p" using assms q(1,3) by (cases q) (auto simp: reservations_wf_def)
    then have "q = p"
      using assms q(1) that by (auto simp: reservations_wf_def dict_wf_def dict_keys_def distinct_map dest: inj_onD)
    then show "dead (snd p)" using q(2) by simp
  next
    assume "dead (snd p)"
    moreover have "nw_parent_task_id (snd p) = fst p"
      using assms that by (cases p) (auto simp: reservations_wf_def)
    ultimately show "fst p \<in> nw_parent_task_id ` {r \<in> set (dict_values m). dead r}"
      using that by (force simp: dict_values_def image_iff)
  qed
  ultimately show ?thesis by (simp add: case_prod_unfold cong: filter_cong)
qed

lemma rebalance_shrinks:
  assumes "reservations_wf m"
  shows "shrinks m (snd (nested_waits_rebalance k m))"
proof (cases "length m \<le> nat (max k 0)")
  case True
  then show ?thesis using assms by (simp add: nested_waits_rebalance_def REBALANCE_SCRIPT_def shrinks_refl)
next
  case False
  then show ?thesis
    using assms rebalance_eq [of "nat (max k 0)" m] by (simp add: nested_waits_rebalance_def shrinks_filter)
qed

lemma rebalance_length:
  assumes "reservations_wf m"
  shows "length (snd (nested_waits_rebalance k m)) \<le> nat (max k 0)"
proof (cases "length m \<le> nat (max k 0)")
  case True
  then show ?thesis by (simp add: nested_waits_rebalance_def REBALANCE_SCRIPT_def)
next
  case False
  then have "mset (snd (REBALANCE_SCRIPT (nat (max k 0)) m)) =
      mset (drop (length m - nat (max k 0)) (newest_first m))"
    using assms by (intro rebalance_kept) (auto simp: reservations_wf_def)
  then have "length (snd (REBALANCE_SCRIPT (nat (max k 0)) m)) =
      length (drop (length m - nat (max k 0)) (newest_first m))"
    by (rule mset_eq_length)
  then show ?thesis using False by (simp add: nested_waits_rebalance_def)
qed

lemma reconcile_nested_waits_shrinks:
  fixes cfg :: OrchestratorConfig and now :: int and o1 :: Orchestrator
  assumes "reservations_wf (or_waits o1)"
  defines "live \<equiv> filter (\<lambda>(p, r). \<not> reservation_is_dead cfg now o1 r) (or_waits o1)"
    and "k \<equiv> max (int (card (online_worker_ids cfg now o1)) - 1) 0"
  shows "shrinks (snd (nested_waits_rebalance k live))
           (or_waits (snd (reconcile_nested_wait_reservations cfg rv now o1)))"
proof -
  let ?m = "snd (nested_waits_rebalance k live)"
  have "shrinks live ?m"
    unfolding live_def using assms(1) by (intro rebalance_shrinks reservations_wf_filter)
  then have wf: "reservations_wf (or_waits (o1\<lparr>or_waits := ?m\<rparr>))" by (simp add: shrinks_def)
  have "snd (reconcile_nested_wait_reservations cfg rv now o1) =
      snd (for_each (evict_reservation rv now) (fst (nested_waits_rebalance k live)) (o1\<lparr>or_waits := ?m\<rparr>))"
    using release_dead [OF assms(1), of "reservation_is_dead cfg now o1"]
    by (simp add: reconcile_nested_wait_reservations_def nested_waits_list_def Let_def live_def k_def
        split: prod.split)
  then show ?thesis using for_each_waits [OF wf evict_waits] by simp
qed

definition sample_waiting :: Orchestrator where
  "sample_waiting = (sample_orchestrator (sample_db sample_history))\<lparr>
     or_workers := [(''w1'', new_worker_state \<lparr>hb_worker_id = ''w1'', hb_capabilities = [],
       hb_max_concurrent = 1, hb_timestamp = 0, hb_active_task_id = None, hb_is_busy = None,
       hb_available_slots = None, hb_system_info = None\<rparr> 0)],
     or_waits := [(''p'', \<lparr>nw_parent_task_id = ''p'', nw_child_task_id = ''c'',
       nw_origin_worker_id = ''w1'', nw_created_at = 0\<rparr>)]\<rparr>"

text \<open>
  C16. After the supervisor has reconciled the nested waits, whether or not an eviction raised an
  exception, every remaining reservation was there before and is not dead (its worker answers, its
  parent and child are unfinished), and there are fewer waiting parents than online workers, so
  that some online worker has no waiting parent.
\<close>

theorem nested_waits_leave_capacity:
  assumes "reservations_wf (or_waits o1)"
    and "reconcile_nested_wait_reservations cfg rv now o1 = (ok, o2)"
  shows "set (or_waits o2) \<subseteq> {(p, r). (p, r) \<in> set (or_waits o1) \<and> \<not> reservation_is_dead cfg now o1 r} \<and>
    length (or_waits o2) \<le> card (online_worker_ids cfg now o1) - 1 \<and>
    (online_worker_ids cfg now o1 \<noteq> {} \<longrightarrow>
      (\<exists>w \<in> online_worker_ids cfg now o1. \<forall>r \<in> set (dict_values (or_waits o2)). nw_origin_worker_id r \<noteq> w))"
    (is "?old \<and> ?len \<and> (?ne \<longrightarrow> ?free)")
proof -
  let ?W = "online_worker_ids cfg now o1"
  define waits where "waits = or_waits o2"
  define live where "live = filter (\<lambda>(p, r). \<not> reservation_is_dead cfg now o1 r) (or_waits o1)"
  define k where "k = max (int (card ?W) - 1) 0"
  have sh: "shrinks (snd (nested_waits_rebalance k live)) waits"
    using reconcile_nested_waits_shrinks [OF assms(1), where cfg = cfg and now = now and rv = rv] unfolding waits_def live_def k_def by (simp add: assms(2))
  have wf: "reservations_wf live" unfolding live_def using assms(1) by (rule reservations_wf_filter)
  have "set waits \<subseteq> set live"
    using sh rebalance_shrinks [OF wf, of k] unfolding shrinks_def by blast
  then have old: ?old by (auto simp: live_def waits_def)
  have len: "length waits \<le> card ?W - 1"
    using sh rebalance_length [OF wf, of k] unfolding shrinks_def k_def by linarith
  have free: ?free if ne: ?ne
  proof -
    let ?U = "nw_origin_worker_id ` set (dict_values waits)"
    have "card ?U \<le> length waits"
      using card_image_le [of "set (dict_values waits)" nw_origin_worker_id]
        card_length [of "dict_values waits"] by (simp add: dict_values_def)
    moreover have fin: "finite ?W" by (simp add: online_worker_ids_def)
    moreover have "card ?W > 0" using ne fin by (simp add: card_gt_0_iff)
    ultimately have "\<not> ?W \<subseteq> ?U" using len card_mono [of ?U ?W] by fastforce
    then obtain w where "w \<in> ?W" "w \<notin> ?U" by blast
    then show ?free by (intro bexI [of _ w]) (auto simp: waits_def)
  qed
  show ?thesis using old len free by (simp add: waits_def)
qed

theorem nested_waits_leave_capacity_witness:
  "\<exists>w \<in> online_worker_ids sample_config 1 sample_waiting. \<forall>r \<in> set (dict_values
     (or_waits (snd (reconcile_nested_wait_reservations sample_config (\<lambda>tid hard. True) 1 sample_waiting)))).
     nw_origin_worker_id r \<noteq> w"
proof -
  have "reservations_wf (or_waits sample_waiting)"
    by (simp add: sample_waiting_def reservations_wf_def dict_wf_def dict_keys_def)
  moreover have "online_worker_ids sample_config 1 sample_waiting \<noteq> {}"
    by (simp add: sample_waiting_def sample_config_def online_worker_ids_def get_alive_workers_def
        dict_values_def is_alive_def new_worker_state_def)
  ultimately show ?thesis using nested_waits_leave_capacity [OF _ prod.collapse [symmetric]] by metis
qed

section \<open>OOM guard\<close>

lemma max_by_greatest:
  "max_by key b xs \<in> set (b # xs) \<and> (\<forall>y \<in> set (b # xs). key y \<le> key (max_by key b xs))"
proof (induction xs arbitrary: b)
  case Nil
  then show ?case by simp
next
  case (Cons x xs)
  from Cons.IH [of "if key x > key b then x else b"] show ?case by (auto split: if_split_asm)
qed

lemma group_by_host_lookup:
  "map_of (group_by_host rs d) h =
     (if filter (\<lambda>r. xr_hostname r = h) rs = [] then map_of d h
      else Some (dict_get_default [] d h @ filter (\<lambda>r. xr_hostname r = h) rs))"
  by (induction rs d rule: group_by_host.induct)
     (auto simp: map_of_dict_put dict_get_default_def split: option.splits)

lemma group_by_host_wf: "dict_wf d \<Longrightarrow> dict_wf (group_by_host rs d)"
  by (induction rs d rule: group_by_host.induct) auto

lemma group_by_host_entry:
  assumes "(h, rs) \<in> set (group_by_host records [])"
  shows "rs = filter (\<lambda>r. xr_hostname r = h) records" "rs \<noteq> []"
  using assms dict_wf_map_of_iff [OF group_by_host_wf, of "[]" records h rs]
  by (auto simp: group_by_host_lookup dict_get_default_def split: if_split_asm)

lemma request_stop_other_row:
  assumes "db_wf d" and "u \<noteq> tid"
  shows "task_of (snd (request_stop tid r hard now d)) u = task_of d u"
proof (cases "task_of d tid")
  case (Some t)
  have "db_wf (cancel_dispatches [tid] d)" using assms(1) by (rule db_wf_cancel_dispatches)
  then show ?thesis
    using assms Some task_id_of [OF Some] by (simp add: request_stop_def Let_def task_of_put_task)
qed (simp add: request_stop_def)

lemma kill_victim_frame:
  assumes "db_wf (or_db o1)"
  shows "u \<noteq> xr_task_id v \<Longrightarrow> task_of (or_db (snd (kill_victim rv now v o1))) u = task_of (or_db o1) u"
    "db_wf (or_db (snd (kill_victim rv now v o1)))"
    "h \<noteq> xr_hostname v \<Longrightarrow> in_cooldown cfg now h (snd (kill_victim rv now v o1)) = in_cooldown cfg now h o1"
proof -
  have db: "or_db (snd (kill_victim rv now v o1)) =
      snd (request_stop (xr_task_id v) (Known OOM_GUARD) True now (or_db o1))"
    by (auto simp: kill_victim_def request_task_kill_def kill_task_def Let_def
        split: prod.splits option.splits sum.splits)
  show "task_of (or_db (snd (kill_victim rv now v o1))) u = task_of (or_db o1) u" if "u \<noteq> xr_task_id v"
    unfolding db using request_stop_other_row [OF assms that] .
  have "refines (OpKill (xr_task_id v) OOM_GUARD) now (or_db o1)
      (snd (request_stop (xr_task_id v) (Known OOM_GUARD) True now (or_db o1)))"
    using refines_request_stop [OF assms ev_killed [OF _ task_id_of [symmetric]]] .
  then show "db_wf (or_db (snd (kill_victim rv now v o1)))" unfolding db refines_def by blast
  show "in_cooldown cfg now h (snd (kill_victim rv now v o1)) = in_cooldown cfg now h o1"
    if "h \<noteq> xr_hostname v"
    using that by (auto simp: kill_victim_def request_task_kill_def Let_def in_cooldown_def
        dict_get_default_def map_of_dict_put split: prod.splits sum.splits option.splits)
qed

lemma host_pressure_step_frame:
  assumes "db_wf (or_db o1)" and "\<forall>r \<in> set rs. xr_hostname r = h"
    and o2_def: "o2 = snd (host_pressure_step cfg thr rv now (h, rs) o1)"
  shows "task_of (or_db o2) tid = task_of (or_db o1) tid \<or>
      (\<exists>r rs'. rs = r # rs' \<and> \<not> in_cooldown cfg now h o1 \<and> xr_task_id (max_by xr_rss_bytes r rs') = tid \<and>
        thr \<le> xr_system_ram_used_percent (max_by xr_system_ram_used_percent r rs'))"
    and "db_wf (or_db o2)"
    and "h' \<noteq> h \<Longrightarrow> in_cooldown cfg now h' o2 = in_cooldown cfg now h' o1"
proof -
  consider "o2 = o1" | r rs' where "rs = r # rs'" "\<not> in_cooldown cfg now h o1"
      "thr \<le> xr_system_ram_used_percent (max_by xr_system_ram_used_percent r rs')"
      "o2 = snd (kill_victim rv now (max_by xr_rss_bytes r rs') o1)"
    using o2_def by (cases rs) (auto simp: host_pressure_step_def Let_def split: if_split_asm)
  note cases = this
  have "xr_hostname (max_by xr_rss_bytes r rs') = h" if "rs = r # rs'" for r rs'
    using assms(2) max_by_greatest [of xr_rss_bytes r rs'] that by auto
  note host = this
  from cases show "task_of (or_db o2) tid = task_of (or_db o1) tid \<or>
      (\<exists>r rs'. rs = r # rs' \<and> \<not> in_cooldown cfg now h o1 \<and> xr_task_id (max_by xr_rss_bytes r rs') = tid \<and>
        thr \<le> xr_system_ram_used_percent (max_by xr_system_ram_used_percent r rs'))"
    using kill_victim_frame(1) [OF assms(1)] by cases metis+
  from cases show "db_wf (or_db o2)"
    using kill_victim_frame(2) [OF assms(1)] assms(1) by cases metis+
  from cases show "h' \<noteq> h \<Longrightarrow> in_cooldown cfg now h' o2 = in_cooldown cfg now h' o1"
    using kill_victim_frame(3) [OF assms(1)] host by cases metis+
qed

lemma host_pressure_loop:
  assumes "db_wf (or_db o1)" and "distinct (map fst es)"
    and "\<forall>(h, rs) \<in> set es. \<forall>r \<in> set rs. xr_hostname r = h"
    and "task_of (or_db (snd (for_each (host_pressure_step cfg thr rv now) es o1))) tid \<noteq> task_of (or_db o1) tid"
  shows "\<exists>h r rs. (h, r # rs) \<in> set es \<and> \<not> in_cooldown cfg now h o1 \<and>
    xr_task_id (max_by xr_rss_bytes r rs) = tid \<and>
    thr \<le> xr_system_ram_used_percent (max_by xr_system_ram_used_percent r rs)"
  using assms
proof (induction es arbitrary: o1)
  case Nil
  then show ?case by simp
next
  case (Cons e es)
  obtain h rs where e: "e = (h, rs)" by (cases e)
  define o2 where "o2 = snd (host_pressure_step cfg thr rv now (h, rs) o1)"
  have hs: "\<forall>r \<in> set rs. xr_hostname r = h" using Cons.prems(3) e by simp
  note frame = host_pressure_step_frame [OF Cons.prems(1) hs o2_def]
  show ?case
  proof (cases "task_of (or_db o2) tid = task_of (or_db o1) tid")
    case False
    then show ?thesis using frame(1) [of tid] e by (metis list.set_intros(1))
  next
    case True
    have "task_of (or_db (snd (for_each (host_pressure_step cfg thr rv now) es o2))) tid \<noteq> task_of (or_db o2) tid"
      using Cons.prems(4) True by (auto simp: e o2_def Let_def split: prod.splits if_split_asm)
    then obtain h' r rs' where v: "(h', r # rs') \<in> set es" "\<not> in_cooldown cfg now h' o2"
        "xr_task_id (max_by xr_rss_bytes r rs') = tid"
        "thr \<le> xr_system_ram_used_percent (max_by xr_system_ram_used_percent r rs')"
      using Cons.IH [OF frame(2)] Cons.prems(2,3) by auto
    moreover have "h' \<noteq> h" using v(1) Cons.prems(2) e by (force simp: image_iff)
    ultimately show ?thesis using frame(3) by (metis list.set_intros(2))
  qed
qed

text \<open>The executions the guard may stop, read off the telemetry and the settings.\<close>

definition oom_victim ::
    "OrchestratorConfig \<Rightarrow> OOMGuardConfig \<Rightarrow> int \<Rightarrow> Orchestrator \<Rightarrow> TaskExecutionRecord \<Rightarrow> bool" where
  "oom_victim cfg og now o1 r \<longleftrightarrow>
     r \<in> set (executions_all (or_executions o1)) \<and> \<not> in_cooldown cfg now (xr_hostname r) o1 \<and>
     (case og_mode og of
        OOM_DISABLED \<Rightarrow> False
      | OOM_HOST_PRESSURE \<Rightarrow>
          (\<exists>r' \<in> set (executions_all (or_executions o1)). xr_hostname r' = xr_hostname r \<and>
             (\<exists>p. og_host_threshold_percent og = Some p \<and> p \<le> xr_system_ram_used_percent r')) \<and>
          (\<forall>r' \<in> set (executions_all (or_executions o1)).
             xr_hostname r' = xr_hostname r \<longrightarrow> xr_rss_bytes r' \<le> xr_rss_bytes r)
      | OOM_WORKER_THRESHOLD \<Rightarrow>
          (\<exists>x. threshold_candidate cfg og now o1 r = Some (x, r) \<and>
             (\<forall>r' \<in> set (executions_all (or_executions o1)).
                \<forall>y. threshold_candidate cfg og now o1 r' = Some (y, r') \<longrightarrow> y \<le> x)))"

lemma threshold_candidate_self:
  "threshold_candidate cfg og now o1 r = Some (x, r') \<Longrightarrow> r' = r \<and> \<not> in_cooldown cfg now (xr_hostname r) o1"
  by (auto simp: threshold_candidate_def split: if_split_asm option.splits OOMWorkerThresholdType.splits)

lemma host_guard_victim:
  assumes "db_wf (or_db o1)" and "og_mode og = OOM_HOST_PRESSURE"
    and "task_of (or_db (snd (apply_host_pressure_guard cfg og rv now (executions_all (or_executions o1)) o1))) tid
      \<noteq> task_of (or_db o1) tid"
  shows "\<exists>r. oom_victim cfg og now o1 r \<and> xr_task_id r = tid"
proof -
  let ?R = "executions_all (or_executions o1)"
  obtain p where p: "og_host_threshold_percent og = Some p"
    using assms(3) by (cases "og_host_threshold_percent og") (auto simp: apply_host_pressure_guard_def)
  have "distinct (map fst (group_by_host ?R []))"
    using group_by_host_wf [of "[]" ?R] by (simp add: dict_wf_def dict_keys_def)
  moreover have "\<forall>(h, rs) \<in> set (group_by_host ?R []). \<forall>r \<in> set rs. xr_hostname r = h"
    using group_by_host_entry(1) by fastforce
  ultimately obtain h r rs where v: "(h, r # rs) \<in> set (group_by_host ?R [])" "\<not> in_cooldown cfg now h o1"
      "xr_task_id (max_by xr_rss_bytes r rs) = tid"
      "p \<le> xr_system_ram_used_percent (max_by xr_system_ram_used_percent r rs)"
    using host_pressure_loop [OF assms(1), where es = "group_by_host ?R []" and cfg = cfg and thr = p and rv = rv
        and now = now and tid = tid] assms(3) p
    by (auto simp: apply_host_pressure_guard_def)
  have mem: "x \<in> set (r # rs) \<longleftrightarrow> x \<in> set ?R \<and> xr_hostname x = h" for x
    using group_by_host_entry(1) [OF v(1)] by auto
  have "oom_victim cfg og now o1 (max_by xr_rss_bytes r rs)"
    using max_by_greatest [of xr_rss_bytes r rs] max_by_greatest [of xr_system_ram_used_percent r rs]
      assms(2) p v(2,4) mem unfolding oom_victim_def by (simp only: OOMGuardMode.case) metis
  then show ?thesis using v(3) by blast
qed

lemma threshold_guard_victim:
  assumes "db_wf (or_db o1)" and "og_mode og = OOM_WORKER_THRESHOLD"
    and "task_of (or_db (snd (apply_worker_threshold_guard cfg og rv now (executions_all (or_executions o1)) o1))) tid
      \<noteq> task_of (or_db o1) tid"
  shows "\<exists>r. oom_victim cfg og now o1 r \<and> xr_task_id r = tid"
proof -
  let ?R = "executions_all (or_executions o1)" and ?c = "threshold_candidate cfg og now o1"
  obtain c cs where cs: "List.map_filter ?c ?R = c # cs"
      "tid = xr_task_id (snd (max_by fst c cs))"
    using assms(3) kill_victim_frame(1) [OF assms(1)]
    by (auto simp: apply_worker_threshold_guard_def split: if_split_asm list.splits)
  have mem: "q \<in> set (c # cs) \<longleftrightarrow> (\<exists>r \<in> set ?R. ?c r = Some q)" for q
    unfolding cs(1) [symmetric] by (force simp: map_filter_def)
  obtain x r where m: "max_by fst c cs = (x, r)" by (cases "max_by fst c cs")
  have "r \<in> set ?R" "?c r = Some (x, r)"
    using max_by_greatest [of fst c cs] mem [of "(x, r)"] threshold_candidate_self unfolding m by blast+
  moreover have "y \<le> x" if "r' \<in> set ?R" "?c r' = Some (y, r')" for r' y
    using max_by_greatest [of fst c cs] mem [of "(y, r')"] that unfolding m by auto
  ultimately have "oom_victim cfg og now o1 r"
    using assms(2) threshold_candidate_self unfolding oom_victim_def by (simp only: OOMGuardMode.case) metis
  then show ?thesis using cs(2) m by auto
qed

definition sample_pressure :: Orchestrator where
  "sample_pressure = (sample_orchestrator (sample_db sample_history))\<lparr>or_executions :=
     [(''a'', \<lparr>xr_task_id = ''a'', xr_worker_id = ''w1'', xr_hostname = ''h'', xr_pid = 7,
        xr_rss_bytes = 9, xr_memory_limit_bytes = Some 10, xr_system_ram_used_percent = 95, xr_timestamp = 90\<rparr>)]\<rparr>"

definition sample_guard :: OOMGuardConfig where
  "sample_guard = \<lparr>og_mode = OOM_HOST_PRESSURE, og_host_threshold_percent = Some 90,
     og_worker_threshold_type = None, og_worker_threshold_percent = None, og_worker_threshold_mb = None\<rparr>"

text \<open>
  C17. The OOM guard changes a task only if its telemetry makes it a victim: the guard is enabled,
  the host is not in its cooldown, and either the host is at or above the pressure threshold and the
  task has the greatest resident memory on it, or the task is above the worker threshold by the
  greatest margin of all candidates.
\<close>

theorem oom_guard_stops_only_victims:
  assumes "db_wf (or_db o1)" and "apply_oom_guard cfg og rv now o1 = (ok, o2)"
    and "task_of (or_db o2) tid \<noteq> task_of (or_db o1) tid"
  shows "\<exists>r. oom_victim cfg og now o1 r \<and> xr_task_id r = tid"
proof -
  have o2: "o2 = snd (apply_oom_guard cfg og rv now o1)" using assms(2) by simp
  show ?thesis
    using assms(1,3) host_guard_victim [where og = og] threshold_guard_victim [where og = og]
    unfolding o2 apply_oom_guard_def Let_def by (cases "og_mode og") (auto split: if_split_asm)
qed

theorem oom_guard_stops_only_victims_witness:
  "\<exists>r. oom_victim sample_config sample_guard 100 sample_pressure r \<and> xr_task_id r = ''a''"
proof -
  have "db_wf (or_db sample_pressure)"
    using task_inv.inv_reach [OF reach_sample]
    by (simp add: sample_pressure_def sample_orchestrator_def task_db_inv_def)
  moreover have "map_option tr_status (task_of (or_db (snd (apply_oom_guard sample_config sample_guard
      (\<lambda>_ _. True) 100 sample_pressure))) ''a'') \<noteq> map_option tr_status (task_of (or_db sample_pressure) ''a'')"
    by code_simp
  ultimately show ?thesis using oom_guard_stops_only_victims [OF _ prod.collapse [symmetric]] by metis
qed

end
