(* ===== verification/Node_Inputs.thy ===== *)
theory Node_Inputs
  imports Dvt_Prelude
begin

text \<open>
  Data types of the node DSL that the pipeline code works on: port types
  (\<^verbatim>\<open>src/node_dsl/node_typing.py\<close>), input values and their parser
  (\<^verbatim>\<open>src/node_dsl/core/input_values\<close>), \<^verbatim>\<open>NodeData\<close>
  (\<^verbatim>\<open>src/schemas/internal/node_data.py\<close>), node definitions and node classes.

  Dynamic Python values are the type \<open>pyval\<close>. The Pydantic type adapter that turns a mapping
  with a \<^verbatim>\<open>__dvt_type\<close> marker into an input value is a parameter of the parser.
\<close>

section \<open>Port types\<close>

datatype IO = IO_STRING | IO_BOOLEAN | IO_INT | IO_FLOAT | IO_DICT | IO_JSON | IO_DATAFRAME
  | IO_TABLE_SCHEMA | IO_COLUMN | IO_COLUMN_NAME | IO_DB_CONNECTION | IO_DB_CONNECTION_ID
  | IO_FILE_CONNECTION | IO_S3_CONNECTION | IO_S3_CONNECTION_ID | IO_FTP_CONNECTION
  | IO_FTP_CONNECTION_ID | IO_SMB_CONNECTION | IO_SMB_CONNECTION_ID | IO_KAFKA_CONNECTION
  | IO_KAFKA_CONNECTION_ID | IO_DATETIME | IO_TIMEDELTA | IO_OBJECT | IO_UNKNOWN | IO_SCHEMA
  | IO_VARIABLE | IO_SIGNAL | IO_ANY | IO_NUMBER | IO_PRIMITIVE

definition IO_members :: "(string \<times> IO) list" where
  "IO_members = [
     (''STRING'', IO_STRING), (''BOOLEAN'', IO_BOOLEAN), (''INT'', IO_INT), (''FLOAT'', IO_FLOAT),
     (''DICT'', IO_DICT), (''JSON'', IO_JSON), (''DATAFRAME'', IO_DATAFRAME),
     (''TABLE_SCHEMA'', IO_TABLE_SCHEMA), (''COLUMN'', IO_COLUMN), (''COLUMN_NAME'', IO_COLUMN_NAME),
     (''DB_CONNECTION'', IO_DB_CONNECTION), (''DB_CONNECTION_ID'', IO_DB_CONNECTION_ID),
     (''FILE_CONNECTION'', IO_FILE_CONNECTION), (''S3_CONNECTION'', IO_S3_CONNECTION),
     (''S3_CONNECTION_ID'', IO_S3_CONNECTION_ID), (''FTP_CONNECTION'', IO_FTP_CONNECTION),
     (''FTP_CONNECTION_ID'', IO_FTP_CONNECTION_ID), (''SMB_CONNECTION'', IO_SMB_CONNECTION),
     (''SMB_CONNECTION_ID'', IO_SMB_CONNECTION_ID), (''KAFKA_CONNECTION'', IO_KAFKA_CONNECTION),
     (''KAFKA_CONNECTION_ID'', IO_KAFKA_CONNECTION_ID), (''DATETIME'', IO_DATETIME),
     (''TIMEDELTA'', IO_TIMEDELTA), (''OBJECT'', IO_OBJECT), (''UNKNOWN'', IO_UNKNOWN),
     (''SCHEMA'', IO_SCHEMA), (''VARIABLE'', IO_VARIABLE), (''SIGNAL'', IO_SIGNAL),
     (''ANY'', IO_ANY), (''NUMBER'', IO_NUMBER), (''PRIMITIVE'', IO_PRIMITIVE)]"

fun IO_value :: "IO \<Rightarrow> string" where
  "IO_value IO_FILE_CONNECTION = ''S3_CONNECTION,FTP_CONNECTION,SMB_CONNECTION''"
| "IO_value IO_ANY = ''*''"
| "IO_value IO_NUMBER = ''FLOAT,INT''"
| "IO_value io = the (map_of (map (\<lambda>(n, i). (i, n)) IO_members) io)"

definition IO_of_value :: "string \<Rightarrow> IO option" where
  "IO_of_value s = map_option snd (find (\<lambda>(n, io). IO_value io = s) IO_members)"

text \<open>\<^verbatim>\<open>str.split\<close> on a one-character separator.\<close>

fun split_on :: "char \<Rightarrow> string \<Rightarrow> string list" where
  "split_on c [] = [[]]"
| "split_on c (x # xs) =
     (if x = c then [] # split_on c xs
      else case split_on c xs of [] \<Rightarrow> [[x]] | w # ws \<Rightarrow> (x # w) # ws)"

definition IO_is_subset :: "IO \<Rightarrow> string \<Rightarrow> bool" where
  "IO_is_subset io other \<longleftrightarrow>
     IO_value io = ''*'' \<or> other = ''*'' \<or>
     set (split_on (CHR '','') (IO_value io)) \<subseteq> set (split_on (CHR '','') other)"

definition IO_intersects :: "IO \<Rightarrow> string \<Rightarrow> bool" where
  "IO_intersects io other \<longleftrightarrow>
     IO_value io = ''*'' \<or> other = ''*'' \<or>
     set (split_on (CHR '','') (IO_value io)) \<inter> set (split_on (CHR '','') other) \<noteq> {}"

text \<open>A type annotation of a field is a member, a string, or a collection of them.\<close>

datatype io_type = IoMember IO | IoName string | IoList "io_type list"

fun try_get_io_member :: "io_type \<Rightarrow> IO option" where
  "try_get_io_member (IoMember io) = Some io"
| "try_get_io_member (IoName s) = (case map_of IO_members s of Some io \<Rightarrow> Some io | None \<Rightarrow> IO_of_value s)"
| "try_get_io_member (IoList ts) = None"

definition matches_exact_io :: "io_type \<Rightarrow> IO \<Rightarrow> bool" where
  "matches_exact_io t expected \<longleftrightarrow> try_get_io_member t = Some expected"

fun contains_exact_io :: "io_type \<Rightarrow> IO \<Rightarrow> bool" where
  "contains_exact_io (IoList ts) expected = (\<exists>t \<in> set ts. matches_exact_io t expected)"
| "contains_exact_io t expected = matches_exact_io t expected"

section \<open>Dynamic values\<close>

type_synonym node_id = string

text \<open>
  Instants and durations are integers of microseconds. \<open>PyUnresolved\<close> is
  \<^verbatim>\<open>UnresolvedValue\<close> (reason, declared type, list flag), \<open>PyVariable\<close> is
  \<^verbatim>\<open>VariableOutput\<close> (name, type, value, scope, list flag); \<open>PyObject\<close> is any other instance
  with its class name and attributes.
\<close>

datatype pyval =
    PyNone
  | PyBool bool
  | PyInt int
  | PyFloat real
  | PyStr string
  | PyDatetime int
  | PyTimedelta int
  | PyList "pyval list"
  | PyTuple "pyval list"
  | PyDict "(string \<times> pyval) list"
  | PyUnresolved "string option" "io_type option" bool
  | PyVariable string IO pyval string bool
  | PyObject string "(string \<times> pyval) list"

text \<open>\<^verbatim>\<open>getattr(value, name, None)\<close> and \<^verbatim>\<open>hasattr\<close> for the attributes the code reads.\<close>

definition py_attrs :: "pyval \<Rightarrow> (string \<times> pyval) list" where
  "py_attrs v = (case v of
       PyVariable name ty value scope is_list \<Rightarrow>
         [(''name'', PyStr name), (''type'', PyStr (IO_value ty)), (''value'', value),
          (''var_type'', PyStr scope), (''is_list_type'', PyBool is_list)]
     | PyObject cls attrs \<Rightarrow> attrs
     | _ \<Rightarrow> [])"

definition py_getattr :: "string \<Rightarrow> pyval \<Rightarrow> pyval" where
  "py_getattr name v = dict_get_default PyNone (py_attrs v) name"

definition py_hasattr :: "string \<Rightarrow> pyval \<Rightarrow> bool" where
  "py_hasattr name v \<longleftrightarrow> name \<in> set (dict_keys (py_attrs v))"

text \<open>\<^verbatim>\<open>bool(value)\<close>\<close>

fun py_truthy :: "pyval \<Rightarrow> bool" where
  "py_truthy PyNone = False"
| "py_truthy (PyBool b) = b"
| "py_truthy (PyInt i) = (i \<noteq> 0)"
| "py_truthy (PyFloat r) = (r \<noteq> 0)"
| "py_truthy (PyStr s) = (s \<noteq> [])"
| "py_truthy (PyTimedelta d) = (d \<noteq> 0)"
| "py_truthy (PyList xs) = (xs \<noteq> [])"
| "py_truthy (PyTuple xs) = (xs \<noteq> [])"
| "py_truthy (PyDict m) = (m \<noteq> [])"
| "py_truthy v = True"

section \<open>Input values\<close>

record NodeInputLinkValue =
  lv_node_id :: node_id
  lv_output_name :: string

datatype expression_kind = Single | Template

datatype NodeRuntimeInputValue =
    ExpressionValue string expression_kind
  | ConstantValue pyval
  | LinkValue NodeInputLinkValue
  | LinkValues "NodeInputLinkValue list"

type_synonym NodeRuntimeInputValues = "(string, NodeRuntimeInputValue) dict"

text \<open>The links of a parsed value.\<close>

fun iter_node_input_link_values :: "NodeRuntimeInputValue \<Rightarrow> NodeInputLinkValue list" where
  "iter_node_input_link_values (LinkValue lv) = [lv]"
| "iter_node_input_link_values (LinkValues lvs) = lvs"
| "iter_node_input_link_values v = []"

text \<open>
  The parser of raw values. \<open>validate\<close> is the discriminated-union adapter: it gets a mapping and
  returns the value object or the text of the validation error.
\<close>

type_synonym adapter = "(string \<times> pyval) list \<Rightarrow> (string, NodeRuntimeInputValue) result"

definition dvt_marker :: "(string \<times> pyval) list \<Rightarrow> pyval" where
  "dvt_marker m = dict_get_default PyNone m ''__dvt_type''"

fun parse_node_input_value :: "adapter \<Rightarrow> pyval \<Rightarrow> (string, NodeRuntimeInputValue option) result" where
  "parse_node_input_value validate (PyDict m) =
     (if dvt_marker m = PyNone then Inr None
      else if dvt_marker m \<notin> {PyStr ''expr'', PyStr ''const'', PyStr ''link''}
      then Inl ''Unknown dvt_type''
      else bind_result (validate m) (\<lambda>v. Inr (Some v)))"
| "parse_node_input_value validate v = Inr None"

fun parse_node_input_link_value :: "adapter \<Rightarrow> pyval \<Rightarrow> (string, NodeInputLinkValue option) result" where
  "parse_node_input_link_value validate (PyDict m) =
     (if dvt_marker m \<noteq> PyStr ''link'' then Inr None
      else bind_result (validate m)
        (\<lambda>v. case v of LinkValue lv \<Rightarrow> Inr (Some lv) | _ \<Rightarrow> Inl ''not a link''))"
| "parse_node_input_link_value validate v = Inr None"

text \<open>The links of a raw list; one item that is not a link makes the whole list no link list.\<close>

fun iter_raw_links :: "adapter \<Rightarrow> pyval list \<Rightarrow> NodeInputLinkValue list \<Rightarrow> (string, NodeInputLinkValue list) result" where
  "iter_raw_links validate [] links = Inr links"
| "iter_raw_links validate (item # items) links =
     bind_result (parse_node_input_link_value validate item)
       (\<lambda>p. case p of None \<Rightarrow> Inr [] | Some lv \<Rightarrow> iter_raw_links validate items (links @ [lv]))"

definition iter_raw_link_values :: "adapter \<Rightarrow> pyval \<Rightarrow> (string, NodeInputLinkValue list) result" where
  "iter_raw_link_values validate v =
     bind_result (parse_node_input_link_value validate v)
       (\<lambda>p. case p of Some lv \<Rightarrow> Inr [lv]
            | None \<Rightarrow> (case v of PyList items \<Rightarrow> iter_raw_links validate items [] | _ \<Rightarrow> Inr []))"

definition parse_node_runtime_input_value :: "adapter \<Rightarrow> pyval \<Rightarrow> (string, NodeRuntimeInputValue option) result" where
  "parse_node_runtime_input_value validate v =
     bind_result (parse_node_input_value validate v)
       (\<lambda>p. case p of Some x \<Rightarrow> Inr (Some x)
            | None \<Rightarrow> bind_result (iter_raw_link_values validate v)
                (\<lambda>links. Inr (if links \<noteq> [] then Some (LinkValues links) else None)))"

section \<open>Nodes, definitions and classes\<close>

record NodeData =
  nd_name :: string
  nd_store_enabled :: "bool option"
  nd_inputs :: NodeRuntimeInputValues

type_synonym Pipeline = "(node_id, NodeData) dict"

definition normalize_inputs :: "adapter \<Rightarrow> (string, pyval) dict \<Rightarrow> (string, NodeRuntimeInputValues) result" where
  "normalize_inputs validate inputs =
     map_result (\<lambda>(name, raw).
       bind_result (parse_node_runtime_input_value validate raw)
         (\<lambda>p. case p of Some v \<Rightarrow> Inr (name, v)
              | None \<Rightarrow> Inl ''NodeData.inputs must use canonical '__dvt_type' payloads.'')) inputs"

record InputDefinition =
  id_attr_name :: string
  id_type :: io_type
  id_is_list_type :: bool
  id_allow_multiple_connections :: "bool option"
  id_allow_expressions :: "bool option"
  id_expression_policy :: "string option"

record OutputDefinition =
  od_attr_name :: string
  od_type :: io_type

record NodeDefinition =
  df_name :: string
  df_input_definitions :: "(string, InputDefinition) dict"
  df_output_definitions :: "(string, OutputDefinition) dict"

text \<open>
  The class attributes the pipeline reads off a node class. \<open>nc_df_output\<close> tells whether
  \<^verbatim>\<open>DFOutputBaseNode\<close> is among its bases, \<open>nc_own_cache_key\<close> whether the class itself
  defines \<^verbatim>\<open>get_metadata_cache_key\<close>.
\<close>

record NodeClass =
  nc_name :: string
  nc_OUTPUT_NODE :: bool
  nc_CACHABLE :: bool
  nc_REQUIRES_FRESH_EXECUTION :: bool
  nc_METADATA_VARIABLE_PREPASS_INPUTS :: "string list"
  nc_CAN_BE_OUTPUT_NODE :: bool
  nc_AUTO_ACTIVATE_SIGNAL_OUTPUTS :: bool
  nc_TERMINAL_OUTPUT_NAME :: "string option"
  nc_input_fields :: "(string, io_type) dict"
  nc_df_output :: bool
  nc_own_cache_key :: bool

text \<open>Names of the ports every node has (\<^verbatim>\<open>src/node_dsl/constants.py\<close>).\<close>

definition SIGNAL_IN :: string where "SIGNAL_IN = ''signal_in''"
definition INPUT_VARIABLES :: string where "INPUT_VARIABLES = ''input_variables''"
definition SIGNAL_OUT :: string where "SIGNAL_OUT = ''signal_out''"
definition SIGNAL_ERROR :: string where "SIGNAL_ERROR = ''signal_error''"
definition OUTPUT_VARIABLES :: string where "OUTPUT_VARIABLES = ''output_variables''"
definition DVT_ERROR_TEXT_VARIABLE_NAME :: string where "DVT_ERROR_TEXT_VARIABLE_NAME = ''__dvt_error_text''"

lemmas port_names = SIGNAL_IN_def INPUT_VARIABLES_def SIGNAL_OUT_def SIGNAL_ERROR_def OUTPUT_VARIABLES_def
  DVT_ERROR_TEXT_VARIABLE_NAME_def

section \<open>Facts\<close>

lemma IO_members_all: "io \<in> set (map snd IO_members)"
  by (cases io) (simp_all add: IO_members_def)

lemma IO_of_value_members: "list_all (\<lambda>io. IO_of_value (IO_value io) = Some io) (map snd IO_members)"
  by code_simp

lemma IO_of_value_IO_value: "IO_of_value (IO_value io) = Some io"
  using IO_members_all [of io] IO_of_value_members unfolding list_all_iff by blast

lemma IO_value_inj: "IO_value a = IO_value b \<longleftrightarrow> a = b"
  using IO_of_value_IO_value by (metis option.inject)

lemma split_on_ne: "split_on c s \<noteq> []"
  by (induction s) (auto split: list.splits)

lemma IO_is_subset_refl: "IO_is_subset io (IO_value io)"
  by (simp add: IO_is_subset_def)

lemma IO_is_subset_trans:
  assumes "IO_is_subset a (IO_value b)" and "IO_is_subset b (IO_value c)" and "b \<noteq> IO_ANY"
  shows "IO_is_subset a (IO_value c)"
proof -
  have "IO_value b \<noteq> ''*''" using assms(3) IO_value_inj [of b IO_ANY] by simp
  then show ?thesis using assms(1,2) unfolding IO_is_subset_def by blast
qed

lemma iter_raw_links_Inr:
  "iter_raw_links validate items acc = Inr links \<Longrightarrow>
     links = [] \<or> (\<exists>lvs. links = acc @ lvs \<and> length lvs = length items \<and>
       list_all2 (\<lambda>i lv. parse_node_input_link_value validate i = Inr (Some lv)) items lvs)"
proof (induction items arbitrary: acc)
  case Nil
  then show ?case by simp
next
  case (Cons i items)
  then obtain p where p: "parse_node_input_link_value validate i = Inr p"
    by (auto simp: bind_result_eq_Inr_iff)
  show ?case
  proof (cases p)
    case (Some lv)
    then have "iter_raw_links validate items (acc @ [lv]) = Inr links" using Cons.prems p by simp
    from Cons.IH [OF this] show ?thesis
      using p Some by (elim disjE exE conjE) (auto intro: exI [of _ "lv # lvs" for lvs])
  qed (use Cons.prems p in simp)
qed

end
