(* ===== verification/Pipeline_Graph.thy ===== *)
theory Pipeline_Graph
  imports Node_Inputs
begin

text \<open>
  Dependency analysis of pipelines (\<^verbatim>\<open>src/pipeline/graph_utils.py\<close>, lines 34-182, and
  \<^verbatim>\<open>src/pipeline/graph/targets.py\<close>): topological order, upstream and downstream closures,
  affected terminal nodes.

  A Python set is the list of its elements; \<open>ord\<close> is the order in which an iteration visits
  them, which Python leaves open: every theorem holds for each permutation.
\<close>

section \<open>Worklists\<close>

text \<open>
  The breadth-first loop the three closures share: \<open>ok\<close> is the membership test of the loop,
  \<open>adj\<close> the adjacency dictionary, \<open>vis\<close> the visited set.
\<close>

function worklist :: "('a \<Rightarrow> bool) \<Rightarrow> ('a, 'a list) dict \<Rightarrow> 'a list \<Rightarrow> 'a list \<Rightarrow> 'a list" where
  "worklist ok adj [] vis = vis"
| "worklist ok adj (x # q) vis =
     (if x \<in> set vis \<or> \<not> ok x then worklist ok adj q vis
      else worklist ok adj (q @ filter (\<lambda>y. y \<notin> set (vis @ [x])) (dict_get_default [] adj x)) (vis @ [x]))"
  by pat_completeness auto

lemma dict_get_default_values: "set (dict_get_default [] adj x) \<subseteq> \<Union> (set ` snd ` set adj)"
  by (cases "map_of adj x") (auto simp: dict_get_default_def dest: map_of_SomeD)

termination worklist
proof (relation "measures [\<lambda>(ok, adj, q, vis). card ((set q \<union> \<Union> (set ` snd ` set adj)) - set vis),
    \<lambda>(ok, adj, q, vis). length q]", goal_cases)
  case 1
  then show ?case by simp
next
  case (2 ok adj x q vis)
  have "card ((set q \<union> \<Union> (set ` snd ` set adj)) - set vis) \<le>
      card ((set (x # q) \<union> \<Union> (set ` snd ` set adj)) - set vis)"
    by (rule card_mono) auto
  then show ?case by auto
next
  case (3 ok adj x q vis)
  have "(set (q @ filter (\<lambda>y. y \<notin> set (vis @ [x])) (dict_get_default [] adj x)) \<union>
        \<Union> (set ` snd ` set adj)) - set (vis @ [x]) \<subset>
      (set (x # q) \<union> \<Union> (set ` snd ` set adj)) - set vis"
    using 3 dict_get_default_values [of adj x] by auto
  then show ?case by (simp add: psubset_card_mono)
qed

definition adj_rel :: "('a \<Rightarrow> bool) \<Rightarrow> ('a, 'a list) dict \<Rightarrow> ('a \<times> 'a) set" where
  "adj_rel ok adj = {(x, y). y \<in> set (dict_get_default [] adj x) \<and> ok y}"

lemma worklist_sound:
  "set (worklist ok adj q vis) \<subseteq> set vis \<union> (adj_rel ok adj)\<^sup>* `` {x \<in> set q. ok x}"
proof (induction ok adj q vis rule: worklist.induct)
  case (2 ok adj x q vis)
  show ?case
  proof (cases "x \<in> set vis \<or> \<not> ok x")
    case True
    then show ?thesis using 2(1) by auto
  next
    case False
    let ?q = "q @ filter (\<lambda>y. y \<notin> set (vis @ [x])) (dict_get_default [] adj x)"
    have "(adj_rel ok adj)\<^sup>* `` {y \<in> set ?q. ok y} \<subseteq> (adj_rel ok adj)\<^sup>* `` {y \<in> set (x # q). ok y}"
      using False by (auto simp: adj_rel_def intro: converse_rtrancl_into_rtrancl)
    moreover have "x \<in> (adj_rel ok adj)\<^sup>* `` {y \<in> set (x # q). ok y}" using False by auto
    moreover have "set (worklist ok adj ?q (vis @ [x])) \<subseteq> insert x (set vis \<union> (adj_rel ok adj)\<^sup>* `` {y \<in> set ?q. ok y})"
      using 2(2) [OF False] by simp
    moreover have "worklist ok adj (x # q) vis = worklist ok adj ?q (vis @ [x])" using False by simp
    ultimately show ?thesis by (simp only:) blast
  qed
qed simp

lemma worklist_complete:
  assumes "adj_rel ok adj `` set vis \<subseteq> set vis \<union> set q"
  shows "set vis \<union> {x \<in> set q. ok x} \<subseteq> set (worklist ok adj q vis) \<and>
    adj_rel ok adj `` set (worklist ok adj q vis) \<subseteq> set (worklist ok adj q vis)"
  using assms
proof (induction ok adj q vis rule: worklist.induct)
  case (1 ok adj vis)
  then show ?case by auto
next
  case (2 ok adj x q vis)
  show ?case
  proof (cases "x \<in> set vis \<or> \<not> ok x")
    case True
    have inv: "adj_rel ok adj `` set vis \<subseteq> set vis \<union> set q"
      using 2(3) True by (auto simp: adj_rel_def)
    show ?thesis using 2(1) [OF True inv] True by auto
  next
    case False
    let ?q = "q @ filter (\<lambda>y. y \<notin> set (vis @ [x])) (dict_get_default [] adj x)"
    have inv: "adj_rel ok adj `` set (vis @ [x]) \<subseteq> set (vis @ [x]) \<union> set ?q"
      using 2(3) by (auto simp: adj_rel_def)
    show ?thesis using 2(2) [OF False inv] False by (simp add: subset_iff) blast
  qed
qed

lemma worklist_closure:
  "set (worklist ok adj q []) = (adj_rel ok adj)\<^sup>* `` {x \<in> set q. ok x}"
proof
  show "set (worklist ok adj q []) \<subseteq> (adj_rel ok adj)\<^sup>* `` {x \<in> set q. ok x}"
    using worklist_sound [of ok adj q "[]"] by simp
  let ?R = "set (worklist ok adj q [])"
  have base: "{x \<in> set q. ok x} \<subseteq> ?R" and closed: "adj_rel ok adj `` ?R \<subseteq> ?R"
    using worklist_complete [of ok adj "[]" q] by auto
  have "(adj_rel ok adj)\<^sup>* `` ?R \<subseteq> ?R" using Image_closed_trancl [OF closed] by simp
  then show "(adj_rel ok adj)\<^sup>* `` {x \<in> set q. ok x} \<subseteq> ?R" using base by blast
qed

section \<open>Topological sort\<close>

datatype graph_error = NodeNotFoundError | DependencyCycleError "node_id list"

text \<open>\<^verbatim>\<open>set.add\<close> on the list of elements.\<close>

definition set_add :: "'a \<Rightarrow> 'a list \<Rightarrow> 'a list" where
  "set_add x xs = (if x \<in> set xs then xs else xs @ [x])"

definition node_links :: "NodeData \<Rightarrow> NodeInputLinkValue list" where
  "node_links nd = concat (map iter_node_input_link_values (dict_values (nd_inputs nd)))"

type_synonym dep_graph = "(node_id, node_id list) dict"
type_synonym degrees = "(node_id, int) dict"

definition add_dependency :: "Pipeline \<Rightarrow> node_id \<Rightarrow> NodeInputLinkValue \<Rightarrow> dep_graph \<times> degrees \<Rightarrow> dep_graph \<times> degrees" where
  "add_dependency pipeline n lv s =
     (let (graph, in_degree) = s; src = lv_node_id lv in
      if src \<in> set (dict_keys pipeline) then
        if n \<notin> set (dict_get_default [] graph src)
        then (dict_modify src (\<lambda>ns. ns @ [n]) graph, dict_modify n (\<lambda>d. d + 1) in_degree)
        else s
      else s)"

definition dependency_graph :: "Pipeline \<Rightarrow> dep_graph \<times> degrees" where
  "dependency_graph pipeline =
     fold (\<lambda>(n, nd). fold (add_dependency pipeline n) (node_links nd)) pipeline
       (map (\<lambda>n. (n, [])) (dict_keys pipeline), map (\<lambda>n. (n, 0)) (dict_keys pipeline))"

definition release_neighbor :: "node_id \<Rightarrow> degrees \<times> node_id list \<Rightarrow> degrees \<times> node_id list" where
  "release_neighbor n s =
     (let (deg, queue) = s; deg' = dict_modify n (\<lambda>d. d - 1) deg
      in (deg', if map_of deg' n = Some 0 then queue @ [n] else queue))"

definition pending :: "degrees \<Rightarrow> nat" where
  "pending deg = length (filter (\<lambda>p. snd p > 0) deg)"

lemma pending_release:
  "pending (fst (release_neighbor n (deg, q))) + length (snd (release_neighbor n (deg, q))) \<le> pending deg + length q"
proof -
  have "pending (dict_modify n (\<lambda>d. d - 1) deg) + (if map_of (dict_modify n (\<lambda>d. d - 1) deg) n = Some 0 then 1 else 0)
      \<le> pending deg"
    by (induction n "\<lambda>d::int. d - 1" deg rule: dict_modify.induct) (auto simp: pending_def)
  then show ?thesis by (simp add: release_neighbor_def Let_def split: if_splits)
qed

lemma pending_fold_release:
  "pending (fst (fold release_neighbor ns s)) + length (snd (fold release_neighbor ns s)) \<le> pending (fst s) + length (snd s)"
proof (induction ns arbitrary: s)
  case (Cons n ns)
  have "pending (fst (release_neighbor n s)) + length (snd (release_neighbor n s)) \<le> pending (fst s) + length (snd s)"
    using pending_release [of n "fst s" "snd s"] by simp
  then show ?case using Cons [of "release_neighbor n s"] by simp
qed simp

function kahn_loop :: "(node_id list \<Rightarrow> node_id list) \<Rightarrow> dep_graph \<Rightarrow> degrees \<Rightarrow> node_id list \<Rightarrow> node_id list \<Rightarrow> node_id list" where
  "kahn_loop ord graph deg [] full_order = full_order"
| "kahn_loop ord graph deg (n # queue) full_order =
     (let s = fold release_neighbor (ord (dict_get_default [] graph n)) (deg, queue)
      in kahn_loop ord graph (fst s) (snd s) (full_order @ [n]))"
  by pat_completeness auto

termination kahn_loop
proof (relation "measure (\<lambda>(ord, graph, deg, queue, full_order). pending deg + length queue)", goal_cases)
  case (2 ord graph deg n queue full_order s)
  have "pending (fst s) + length (snd s) \<le> pending deg + length queue"
    using pending_fold_release [of "ord (dict_get_default [] graph n)" "(deg, queue)"] 2 by simp
  then show ?case by simp
qed simp

definition find_all_dependencies :: "Pipeline \<Rightarrow> node_id list \<Rightarrow> node_id list" where
  "find_all_dependencies pipeline target_nodes =
     worklist (\<lambda>n. n \<in> set (dict_keys pipeline))
       (map (\<lambda>(n, nd). (n, map lv_node_id (node_links nd))) pipeline) target_nodes []"

definition topological_sort ::
    "(node_id list \<Rightarrow> node_id list) \<Rightarrow> Pipeline \<Rightarrow> node_id list option \<Rightarrow> (graph_error, node_id list) result" where
  "topological_sort ord pipeline target_nodes =
     (let (graph, in_degree) = dependency_graph pipeline;
          targets = (case target_nodes of None \<Rightarrow> [] | Some ts \<Rightarrow> ts)
      in if \<exists>t \<in> set targets. t \<notin> set (dict_keys pipeline) then Inl NodeNotFoundError
         else
           let full_order = kahn_loop ord graph in_degree
                 (map fst (filter (\<lambda>p. snd p = 0) in_degree)) []
           in if length full_order \<noteq> length pipeline
              then Inl (DependencyCycleError (filter (\<lambda>n. n \<notin> set full_order) (dict_keys pipeline)))
              else if targets = [] then Inr full_order
              else let nodes_to_process = find_all_dependencies pipeline targets
                   in Inr (filter (\<lambda>n. n \<in> set nodes_to_process) full_order))"

definition add_dependent :: "Pipeline \<Rightarrow> node_id \<Rightarrow> NodeInputLinkValue \<Rightarrow> dep_graph \<Rightarrow> dep_graph" where
  "add_dependent pipeline n lv graph =
     (if lv_node_id lv \<in> set (dict_keys pipeline) then dict_modify (lv_node_id lv) (set_add n) graph else graph)"

definition dependents_graph :: "Pipeline \<Rightarrow> dep_graph" where
  "dependents_graph pipeline =
     fold (\<lambda>(n, nd). fold (add_dependent pipeline n) (node_links nd)) pipeline
       (map (\<lambda>n. (n, [])) (dict_keys pipeline))"

definition find_all_dependents ::
    "(node_id list \<Rightarrow> node_id list) \<Rightarrow> Pipeline \<Rightarrow> node_id list \<Rightarrow> node_id list" where
  "find_all_dependents ord pipeline source_nodes =
     worklist (\<lambda>n. n \<in> set (dict_keys pipeline))
       (map (\<lambda>(n, ns). (n, ord ns)) (dependents_graph pipeline)) source_nodes []"

section \<open>The dependency relation\<close>

definition links_to :: "Pipeline \<Rightarrow> node_id \<Rightarrow> node_id \<Rightarrow> bool" where
  "links_to pipeline src n \<longleftrightarrow>
     (\<exists>nd. (n, nd) \<in> set pipeline \<and> src \<in> lv_node_id ` set (node_links nd))"

definition depends_on :: "Pipeline \<Rightarrow> (node_id \<times> node_id) set" where
  "depends_on pipeline = {(src, n). links_to pipeline src n \<and> src \<in> set (dict_keys pipeline)}"

lemma depends_on_keys: "(a, b) \<in> depends_on p \<Longrightarrow> a \<in> set (dict_keys p) \<and> b \<in> set (dict_keys p)"
  by (force simp: depends_on_def links_to_def dict_keys_def)

lemma finite_depends_on: "finite (depends_on p)"
  by (rule finite_subset [of _ "set (dict_keys p) \<times> set (dict_keys p)"]) (auto dest: depends_on_keys)

lemma links_to_iff:
  "dict_wf p \<Longrightarrow> links_to p src n \<longleftrightarrow> (\<exists>nd. map_of p n = Some nd \<and> src \<in> lv_node_id ` set (node_links nd))"
  by (simp add: links_to_def dict_wf_map_of_iff)

lemma find_all_dependencies_set:
  assumes "dict_wf p"
  shows "set (find_all_dependencies p ts) = {a. \<exists>t \<in> set ts. t \<in> set (dict_keys p) \<and> (a, t) \<in> (depends_on p)\<^sup>*}"
proof -
  let ?adj = "map (\<lambda>(n, nd). (n, map lv_node_id (node_links nd))) p"
  have look: "map_of ?adj n = map_option (\<lambda>nd. map lv_node_id (node_links nd)) (map_of p n)" for n
    by (induction p) auto
  have "(a, b) \<in> adj_rel (\<lambda>n. n \<in> set (dict_keys p)) ?adj \<longleftrightarrow> (b, a) \<in> depends_on p" for a b
    by (cases "map_of p a") (auto simp: adj_rel_def depends_on_def links_to_iff [OF assms] dict_get_default_def look)
  then have "adj_rel (\<lambda>n. n \<in> set (dict_keys p)) ?adj = (depends_on p)\<inverse>" by auto
  then show ?thesis
    unfolding find_all_dependencies_def worklist_closure by (auto simp: rtrancl_converse)
qed

section \<open>The graph the loops build\<close>

definition dep_state :: "Pipeline \<Rightarrow> (node_id \<times> node_id) set \<Rightarrow> dep_graph \<times> degrees \<Rightarrow> bool" where
  "dep_state p P s \<longleftrightarrow> P \<subseteq> set (dict_keys p) \<times> set (dict_keys p) \<and>
     dict_keys (fst s) = dict_keys p \<and> dict_keys (snd s) = dict_keys p \<and>
     (\<forall>a \<in> set (dict_keys p). \<exists>ns. map_of (fst s) a = Some ns \<and> distinct ns \<and> set ns = {b. (a, b) \<in> P}) \<and>
     (\<forall>b \<in> set (dict_keys p). map_of (snd s) b = Some (int (card {a. (a, b) \<in> P})))"

lemma dep_state_add:
  assumes st: "dep_state p P (g, deg)" and n: "n \<in> set (dict_keys p)"
  shows "dep_state p (P \<union> {(a, b). b = n \<and> a = lv_node_id lv \<and> a \<in> set (dict_keys p)})
    (add_dependency p n lv (g, deg))"
proof (cases "lv_node_id lv \<in> set (dict_keys p)")
  case src: True
  let ?s = "lv_node_id lv"
  obtain ns where ns: "map_of g ?s = Some ns" "distinct ns" "set ns = {b. (?s, b) \<in> P}"
    using st src by (auto simp: dep_state_def)
  have P': "P \<union> {(a, b). b = n \<and> a = ?s \<and> a \<in> set (dict_keys p)} = insert (?s, n) P" using src by auto
  show ?thesis
  proof (cases "(?s, n) \<in> P")
    case True
    then show ?thesis
      using st src ns unfolding P' by (simp add: add_dependency_def dict_get_default_def insert_absorb)
  next
    case False
    have new: "add_dependency p n lv (g, deg) =
        (dict_modify ?s (\<lambda>ns. ns @ [n]) g, dict_modify n (\<lambda>d. d + 1) deg)"
      using False src ns by (simp add: add_dependency_def dict_get_default_def)
    have "finite {a. (a, n) \<in> P}"
      using st by (auto simp: dep_state_def intro: finite_subset [of _ "set (dict_keys p)"])
    moreover have "{a. (a, n) \<in> insert (?s, n) P} = insert ?s {a. (a, n) \<in> P}" by auto
    ultimately have deg: "card {a. (a, n) \<in> insert (?s, n) P} = Suc (card {a. (a, n) \<in> P})"
      using False by simp
    have other: "{a. (a, b) \<in> insert (?s, n) P} = {a. (a, b) \<in> P}" if "b \<noteq> n" for b using that by auto
    have graph: "\<exists>ms. map_of (dict_modify ?s (\<lambda>ns. ns @ [n]) g) a = Some ms \<and> distinct ms \<and>
        set ms = {b. (a, b) \<in> insert (?s, n) P}" if a: "a \<in> set (dict_keys p)" for a
    proof (cases "a = ?s")
      case True
      then show ?thesis using ns False by (auto simp: dict_simps)
    next
      case False
      then show ?thesis using st a by (auto simp: dict_simps dep_state_def)
    qed
    have "map_of (dict_modify n (\<lambda>d. d + 1) deg) b = Some (int (card {a. (a, b) \<in> insert (?s, n) P}))"
      if b: "b \<in> set (dict_keys p)" for b
      using st b n deg other by (cases "b = n") (auto simp: dict_simps dep_state_def)
    moreover have "insert (?s, n) P \<subseteq> set (dict_keys p) \<times> set (dict_keys p)"
      using st src n by (auto simp: dep_state_def)
    moreover have "dict_keys g = dict_keys p" "dict_keys deg = dict_keys p"
      using st by (auto simp: dep_state_def)
    ultimately show ?thesis
      using graph unfolding P' new dep_state_def fst_conv snd_conv keys_dict_modify by blast
  qed
next
  case False
  then have "P \<union> {(a, b). b = n \<and> a = lv_node_id lv \<and> a \<in> set (dict_keys p)} = P" by auto
  then show ?thesis using st False by (simp add: add_dependency_def)
qed

lemma dep_state_links:
  assumes "dep_state p P s" and "n \<in> set (dict_keys p)"
  shows "dep_state p (P \<union> {(a, b). b = n \<and> a \<in> lv_node_id ` set lvs \<and> a \<in> set (dict_keys p)})
    (fold (add_dependency p n) lvs s)"
  using assms(1)
proof (induction lvs arbitrary: P s)
  case Nil
  then show ?case by simp
next
  case (Cons lv lvs)
  have "dep_state p (P \<union> {(a, b). b = n \<and> a = lv_node_id lv \<and> a \<in> set (dict_keys p)}) (add_dependency p n lv s)"
    using dep_state_add [OF _ assms(2), of P "fst s" "snd s" lv] Cons.prems by simp
  from Cons.IH [OF this] show ?case by (simp add: Un_assoc) (erule back_subst [of "\<lambda>P. dep_state p P _"], auto)
qed

lemma dep_state_nodes:
  assumes "dep_state p P s" and "set q \<subseteq> set p"
  shows "dep_state p (P \<union> {(a, b). (\<exists>nd. (b, nd) \<in> set q \<and> a \<in> lv_node_id ` set (node_links nd)) \<and> a \<in> set (dict_keys p)})
    (fold (\<lambda>(n, nd). fold (add_dependency p n) (node_links nd)) q s)"
  using assms
proof (induction q arbitrary: P s)
  case Nil
  then show ?case by simp
next
  case (Cons e q)
  obtain n nd where e: "e = (n, nd)" by (cases e)
  have "n \<in> set (dict_keys p)" using Cons.prems(2) e by (force simp: dict_keys_def)
  from dep_state_links [OF Cons.prems(1) this, of "node_links nd"]
  have "dep_state p (P \<union> {(a, b). b = n \<and> a \<in> lv_node_id ` set (node_links nd) \<and> a \<in> set (dict_keys p)})
      (fold (add_dependency p n) (node_links nd) s)" .
  from Cons.IH [OF this] Cons.prems(2) show ?case
    by (simp add: e Un_assoc) (erule back_subst [of "\<lambda>P. dep_state p P _"], auto)
qed

lemma map_of_map_const: "map_of (map (\<lambda>n. (n, v)) ks) k = (if k \<in> set ks then Some v else None)"
  by (induction ks) auto

lemma dict_keys_map_pair: "dict_keys (map (\<lambda>n. (n, f n)) ks) = ks"
  by (simp add: dict_keys_def comp_def)

lemma dependency_graph_spec: "dep_state p (depends_on p) (dependency_graph p)"
proof -
  have "dep_state p {} (map (\<lambda>n. (n, [])) (dict_keys p), map (\<lambda>n. (n, 0)) (dict_keys p))"
    by (simp add: dep_state_def map_of_map_const dict_keys_map_pair)
  from dep_state_nodes [OF this subset_refl] show ?thesis
    by (simp add: dependency_graph_def depends_on_def links_to_def)
qed

section \<open>Correctness of the loop\<close>

definition preds :: "Pipeline \<Rightarrow> node_id \<Rightarrow> node_id set" where
  "preds p n = {a. (a, n) \<in> depends_on p}"

definition topo_order :: "Pipeline \<Rightarrow> node_id list \<Rightarrow> bool" where
  "topo_order p xs \<longleftrightarrow> (\<forall>i < length xs. preds p (xs ! i) \<subseteq> set (take i xs))"

lemma topo_order_Nil [simp]: "topo_order p []"
  by (simp add: topo_order_def)

lemma topo_order_snoc: "topo_order p (xs @ [n]) \<longleftrightarrow> topo_order p xs \<and> preds p n \<subseteq> set xs"
  by (auto simp: topo_order_def nth_append less_Suc_eq)

lemma finite_preds: "finite (preds p n)"
  by (rule finite_subset [of _ "set (dict_keys p)"]) (auto simp: preds_def dest: depends_on_keys)

lemma card_eq_one_iff: "x \<in> S \<Longrightarrow> card S = 1 \<longleftrightarrow> S = {x}"
  by (metis card_1_singletonE is_singletonI is_singleton_altdef singletonD)

lemma fold_release:
  assumes "distinct ns"
  shows "map_of (fst (fold release_neighbor ns (deg, q))) m =
      (if m \<in> set ns then map_option (\<lambda>d. d - 1) (map_of deg m) else map_of deg m)"
    and "snd (fold release_neighbor ns (deg, q)) = q @ filter (\<lambda>m. map_of deg m = Some 1) ns"
    and "dict_keys (fst (fold release_neighbor ns (deg, q))) = dict_keys deg"
proof -
  have "map_of (fst (fold release_neighbor ns (deg, q))) m =
      (if m \<in> set ns then map_option (\<lambda>d. d - 1) (map_of deg m) else map_of deg m) \<and>
    snd (fold release_neighbor ns (deg, q)) = q @ filter (\<lambda>m. map_of deg m = Some 1) ns \<and>
    dict_keys (fst (fold release_neighbor ns (deg, q))) = dict_keys deg"
    using assms
  proof (induction ns arbitrary: deg q)
    case Nil
    then show ?case by simp
  next
    case (Cons n ns)
    define deg' where "deg' = dict_modify n (\<lambda>d. d - 1) deg"
    define q' where "q' = (if map_of deg n = Some 1 then q @ [n] else q)"
    have rel: "release_neighbor n (deg, q) = (deg', q')"
      by (auto simp: release_neighbor_def deg'_def q'_def dict_simps)
    have same: "filter (\<lambda>m. map_of deg' m = Some 1) ns = filter (\<lambda>m. map_of deg m = Some 1) ns"
      using Cons.prems by (intro filter_cong) (auto simp: deg'_def dict_simps)
    have "map_of deg' m = (if m = n then map_option (\<lambda>d. d - 1) (map_of deg m) else map_of deg m)"
      by (simp add: deg'_def dict_simps)
    moreover have "dict_keys deg' = dict_keys deg" by (simp add: deg'_def dict_simps)
    ultimately show ?case
      using Cons.IH [of deg' q'] Cons.prems same by (auto simp: rel q'_def)
  qed
  then show "map_of (fst (fold release_neighbor ns (deg, q))) m =
      (if m \<in> set ns then map_option (\<lambda>d. d - 1) (map_of deg m) else map_of deg m)"
    and "snd (fold release_neighbor ns (deg, q)) = q @ filter (\<lambda>m. map_of deg m = Some 1) ns"
    and "dict_keys (fst (fold release_neighbor ns (deg, q))) = dict_keys deg"
    by auto
qed

definition kahn_inv :: "Pipeline \<Rightarrow> degrees \<Rightarrow> node_id list \<Rightarrow> node_id list \<Rightarrow> bool" where
  "kahn_inv p deg q acc \<longleftrightarrow>
     distinct (acc @ q) \<and> set (acc @ q) \<subseteq> set (dict_keys p) \<and>
     (\<forall>n \<in> set (dict_keys p). map_of deg n = Some (int (card (preds p n - set acc)))) \<and>
     (\<forall>n \<in> set (dict_keys p). preds p n \<subseteq> set acc \<longleftrightarrow> n \<in> set (acc @ q)) \<and>
     topo_order p acc"

lemma kahn_inv_step:
  assumes inv: "kahn_inv p deg (x # q) acc"
    and ns: "distinct ns" "set ns = {b. (x, b) \<in> depends_on p}"
  defines "s \<equiv> fold release_neighbor ns (deg, q)"
  shows "kahn_inv p (fst s) (snd s) (acc @ [x])"
proof -
  let ?K = "set (dict_keys p)"
  have x: "x \<in> ?K" "x \<notin> set acc" "preds p x \<subseteq> set acc" using inv by (auto simp: kahn_inv_def)
  have deg: "map_of deg n = Some (int (card (preds p n - set acc)))" if "n \<in> ?K" for n
    using inv that by (simp add: kahn_inv_def)
  have mem: "preds p n \<subseteq> set acc \<longleftrightarrow> n \<in> set (acc @ x # q)" if "n \<in> ?K" for n
    using inv that by (simp add: kahn_inv_def)
  have nsK: "set ns \<subseteq> ?K" using ns(2) by (auto dest: depends_on_keys)
  have succ: "n \<in> set ns \<longleftrightarrow> x \<in> preds p n" for n using ns(2) by (simp add: preds_def)
  have snd: "snd s = q @ filter (\<lambda>m. map_of deg m = Some 1) ns"
    unfolding s_def by (rule fold_release(2) [OF ns(1)])
  have last: "map_of deg n = Some 1 \<longleftrightarrow> preds p n \<subseteq> set (acc @ [x])" if "n \<in> set ns" for n
  proof -
    have "x \<in> preds p n - set acc" using that succ x(2) by blast
    moreover have "n \<in> ?K" using that nsK by blast
    moreover have "card (preds p n - set acc) = 1 \<longleftrightarrow> preds p n - set acc = {x}"
      by (rule card_eq_one_iff) (use that succ x(2) in blast)
    moreover have "preds p n - set acc = {x} \<longleftrightarrow> preds p n \<subseteq> set (acc @ [x])"
      using calculation(1) by auto
    ultimately show ?thesis using deg [of n] by (simp del: One_nat_def)
  qed
  have fresh: "n \<notin> set (acc @ x # q)" if "n \<in> set ns" for n
    using mem [of n] that nsK succ x(2) by blast
  have card: "int (card (preds p n - set (acc @ [x]))) =
      int (card (preds p n - set acc)) - (if n \<in> set ns then 1 else 0)" for n
  proof (cases "n \<in> set ns")
    case True
    then have "x \<in> preds p n - set acc" using succ x(2) by blast
    moreover have "preds p n - set (acc @ [x]) = (preds p n - set acc) - {x}" by auto
    ultimately show ?thesis
      using True card_Suc_Diff1 [of "preds p n - set acc" x] finite_preds [of p n] by simp
  next
    case False
    then have "preds p n - set (acc @ [x]) = preds p n - set acc" using succ by auto
    then show ?thesis using False by simp
  qed
  have "distinct ((acc @ [x]) @ snd s)" "set ((acc @ [x]) @ snd s) \<subseteq> ?K"
    using inv fresh ns(1) nsK by (auto simp: kahn_inv_def snd)
  moreover have "map_of (fst s) n = Some (int (card (preds p n - set (acc @ [x]))))" if "n \<in> ?K" for n
    unfolding s_def fold_release(1) [OF ns(1)] card using deg [OF that] by simp
  moreover have "preds p n \<subseteq> set (acc @ [x]) \<longleftrightarrow> n \<in> set ((acc @ [x]) @ snd s)" if "n \<in> ?K" for n
  proof (cases "n \<in> set ns")
    case True
    then show ?thesis using last fresh by (auto simp: snd)
  next
    case False
    then have "preds p n \<subseteq> set (acc @ [x]) \<longleftrightarrow> preds p n \<subseteq> set acc" using succ by auto
    then show ?thesis using mem [OF that] False by (auto simp: snd)
  qed
  moreover have "topo_order p (acc @ [x])" using inv x(3) by (simp add: kahn_inv_def topo_order_snoc)
  ultimately show ?thesis unfolding kahn_inv_def by blast
qed

lemma kahn_loop_inv:
  assumes "dep_state p (depends_on p) (g, d0)" and "\<And>xs. mset (ord xs) = mset xs"
    and "kahn_inv p deg q acc"
  shows "\<exists>deg'. kahn_inv p deg' [] (kahn_loop ord g deg q acc)"
  using assms
proof (induction ord g deg q acc rule: kahn_loop.induct)
  case (1 ord g deg acc)
  then show ?case by auto
next
  case (2 ord g deg x q acc)
  have "x \<in> set (dict_keys p)" using 2(4) by (simp add: kahn_inv_def)
  then obtain ns where ns: "map_of g x = Some ns" "distinct ns" "set ns = {b. (x, b) \<in> depends_on p}"
    using 2(2) by (auto simp: dep_state_def)
  then have dflt: "dict_get_default [] g x = ns" by (simp add: dict_get_default_def)
  have "distinct (ord ns)" using ns(2) by (rule mset_eq_imp_distinct_iff [OF 2(3), THEN iffD2])
  moreover have "set (ord ns) = {b. (x, b) \<in> depends_on p}" using mset_eq_setD [OF 2(3) [of ns]] ns(3) by simp
  ultimately have "kahn_inv p (fst (fold release_neighbor (ord ns) (deg, q)))
      (snd (fold release_neighbor (ord ns) (deg, q))) (acc @ [x])"
    using kahn_inv_step [OF 2(4)] by blast
  then show ?case using 2(1) [OF refl 2(2) 2(3)] by (simp add: Let_def dflt)
qed

end
