(* ===== verification/Pipeline_Order.thy ===== *)
theory Pipeline_Order
  imports Pipeline_Graph
begin

text \<open>
  What the dependency analysis promises: the order of \<open>topological_sort\<close>, its errors, and the
  closures as reachability in the dependency relation.
\<close>

section \<open>The full order\<close>

definition full_order :: "(node_id list \<Rightarrow> node_id list) \<Rightarrow> Pipeline \<Rightarrow> node_id list" where
  "full_order ord p =
     (let (graph, in_degree) = dependency_graph p
      in kahn_loop ord graph in_degree (map fst (filter (\<lambda>q. snd q = 0) in_degree)) [])"

lemma topological_sort_eq:
  "topological_sort ord p ts =
     (let targets = (case ts of None \<Rightarrow> [] | Some xs \<Rightarrow> xs) in
      if \<exists>t \<in> set targets. t \<notin> set (dict_keys p) then Inl NodeNotFoundError
      else if length (full_order ord p) \<noteq> length p
      then Inl (DependencyCycleError (filter (\<lambda>n. n \<notin> set (full_order ord p)) (dict_keys p)))
      else if targets = [] then Inr (full_order ord p)
      else Inr (filter (\<lambda>n. n \<in> set (find_all_dependencies p targets)) (full_order ord p)))"
  by (simp add: topological_sort_def full_order_def Let_def split: prod.split)

lemma kahn_inv_start:
  assumes "dict_wf p" and "dep_state p (depends_on p) (g, deg)"
  shows "kahn_inv p deg (map fst (filter (\<lambda>q. snd q = 0) deg)) []"
proof -
  have keys: "dict_keys deg = dict_keys p" using assms(2) by (simp add: dep_state_def)
  have wf: "dict_wf deg" using assms(1) keys by (simp add: dict_wf_def)
  have look: "map_of deg n = Some (int (card (preds p n)))" if "n \<in> set (dict_keys p)" for n
    using assms(2) that by (simp add: dep_state_def preds_def)
  have "n \<in> set (map fst (filter (\<lambda>q. snd q = 0) deg)) \<longleftrightarrow> (n, 0) \<in> set deg" for n by force
  moreover have "(n, 0) \<in> set deg \<longleftrightarrow> preds p n = {}" if "n \<in> set (dict_keys p)" for n
    using look [OF that] finite_preds [of p n] by (simp add: dict_wf_map_of_iff [OF wf, symmetric])
  moreover have "distinct (map fst (filter (\<lambda>q. snd q = 0) deg))"
    using wf by (simp add: dict_wf_def dict_keys_def distinct_map_filter)
  moreover have "fst ` {q \<in> set deg. snd q = 0} \<subseteq> set (dict_keys p)"
    unfolding keys [symmetric] by (auto simp: dict_keys_def)
  ultimately show ?thesis using look by (simp add: kahn_inv_def)
qed

lemma full_order_inv:
  assumes "dict_wf p" and "\<And>xs. mset (ord xs) = mset xs"
  shows "\<exists>deg. kahn_inv p deg [] (full_order ord p)"
proof -
  obtain g deg where gd: "dependency_graph p = (g, deg)" by (cases "dependency_graph p")
  have st: "dep_state p (depends_on p) (g, deg)" using dependency_graph_spec [of p] gd by simp
  show ?thesis
    using kahn_loop_inv [OF st assms(2) kahn_inv_start [OF assms(1) st]] by (simp add: full_order_def gd)
qed

lemma full_order_facts:
  assumes "dict_wf p" and "\<And>xs. mset (ord xs) = mset xs"
  shows "distinct (full_order ord p)" "set (full_order ord p) \<subseteq> set (dict_keys p)"
    "topo_order p (full_order ord p)"
    "n \<in> set (dict_keys p) \<Longrightarrow> n \<in> set (full_order ord p) \<longleftrightarrow> preds p n \<subseteq> set (full_order ord p)"
  using full_order_inv [OF assms] by (auto simp: kahn_inv_def)

section \<open>Cycles\<close>

lemma topo_order_acyclic:
  assumes "topo_order p xs" and "distinct xs" and "set xs = set (dict_keys p)"
  shows "acyclic (depends_on p)"
proof -
  define idx where "idx n = (THE i. i < length xs \<and> xs ! i = n)" for n
  have idx: "idx (xs ! i) = i" if "i < length xs" for i
    unfolding idx_def using that assms(2) by (auto simp: nth_eq_iff_index_eq)
  have "(a, b) \<in> measure idx" if ab: "(a, b) \<in> depends_on p" for a b
  proof -
    obtain i where i: "i < length xs" "xs ! i = b"
      using depends_on_keys [OF ab] assms(3) by (metis in_set_conv_nth)
    then have "a \<in> set (take i xs)" using assms(1) ab by (auto simp: topo_order_def preds_def)
    then obtain j where "j < i" "xs ! j = a" by (auto simp: in_set_conv_nth)
    then show ?thesis using idx i by auto
  qed
  then have "depends_on p \<subseteq> measure idx" by auto
  then show ?thesis using wf_acyclic wf_measure acyclic_subset by blast
qed

lemma acyclic_full_order:
  assumes "dict_wf p" and "\<And>xs. mset (ord xs) = mset xs" and "acyclic (depends_on p)"
  shows "set (dict_keys p) \<subseteq> set (full_order ord p)"
proof
  fix n assume n: "n \<in> set (dict_keys p)"
  have "wf (depends_on p)" using finite_acyclic_wf [OF finite_depends_on assms(3)] .
  then show "n \<in> set (full_order ord p)" using n
  proof (induction n rule: wf_induct_rule)
    case (less n)
    then have "preds p n \<subseteq> set (full_order ord p)" by (auto simp: preds_def dest: depends_on_keys)
    then show ?case using full_order_facts(4) [OF assms(1,2) less.prems] by blast
  qed
qed

lemma full_order_complete_iff:
  assumes "dict_wf p" and "\<And>xs. mset (ord xs) = mset xs"
  shows "length (full_order ord p) = length p \<longleftrightarrow> acyclic (depends_on p)"
    and "length (full_order ord p) = length p \<longleftrightarrow> set (full_order ord p) = set (dict_keys p)"
proof -
  note facts = full_order_facts [OF assms]
  have len: "length p = card (set (dict_keys p))"
    using distinct_card [of "dict_keys p"] assms(1) by (simp add: dict_wf_def dict_keys_def)
  show eq: "length (full_order ord p) = length p \<longleftrightarrow> set (full_order ord p) = set (dict_keys p)"
    using distinct_card [OF facts(1)] len card_subset_eq [OF _ facts(2)] by auto
  show "length (full_order ord p) = length p \<longleftrightarrow> acyclic (depends_on p)"
    using eq topo_order_acyclic [OF facts(3,1)] acyclic_full_order [OF assms] facts(2) by blast
qed

lemma topo_order_filter:
  assumes "topo_order p xs" and "\<And>a b. (a, b) \<in> depends_on p \<Longrightarrow> P b \<Longrightarrow> P a"
  shows "topo_order p (filter P xs)"
  using assms(1)
proof (induction xs rule: rev_induct)
  case (snoc n xs)
  then show ?case using assms(2) by (auto simp: topo_order_snoc preds_def)
qed simp

text \<open>A diamond, and a cycle of two nodes, as samples.\<close>

definition sample_node :: "node_id list \<Rightarrow> NodeData" where
  "sample_node srcs = \<lparr>nd_name = ''N'', nd_store_enabled = None,
     nd_inputs = [(''in'', LinkValues (map (\<lambda>s. \<lparr>lv_node_id = s, lv_output_name = ''output''\<rparr>) srcs))]\<rparr>"

definition sample_diamond :: Pipeline where
  "sample_diamond = [(''d'', sample_node [''b'', ''c'']), (''b'', sample_node [''a'']),
     (''c'', sample_node [''a'']), (''a'', sample_node []), (''e'', sample_node [''gone''])]"

definition sample_cycle :: Pipeline where
  "sample_cycle = [(''a'', sample_node [''b'']), (''b'', sample_node [''a'']), (''c'', sample_node [])]"

lemma topological_sort_order:
  assumes "dict_wf p" and "\<And>xs. mset (ord xs) = mset xs" and "topological_sort ord p ts = Inr order"
  shows "distinct order \<and> topo_order p order \<and>
    set order = (if ts \<in> {None, Some []} then set (dict_keys p)
      else {a. \<exists>t \<in> set (the ts). (a, t) \<in> (depends_on p)\<^sup>*})"
proof -
  define targets where "targets = (case ts of None \<Rightarrow> [] | Some xs \<Rightarrow> xs)"
  note facts = full_order_facts [OF assms(1,2)]
  have ok: "set targets \<subseteq> set (dict_keys p)" "length (full_order ord p) = length p"
    and order: "order = (if targets = [] then full_order ord p
      else filter (\<lambda>n. n \<in> set (find_all_dependencies p targets)) (full_order ord p))"
    using assms(3) by (auto simp: topological_sort_eq targets_def Let_def split: if_splits)
  have all: "set (full_order ord p) = set (dict_keys p)" using full_order_complete_iff(2) [OF assms(1,2)] ok(2) by simp
  have deps: "set (find_all_dependencies p targets) = {a. \<exists>t \<in> set targets. (a, t) \<in> (depends_on p)\<^sup>*}"
    using find_all_dependencies_set [OF assms(1), of targets] ok(1) by blast
  show ?thesis
  proof (cases "targets = []")
    case True
    then have "ts \<in> {None, Some []}" by (auto simp: targets_def split: option.splits)
    then show ?thesis using True facts all order by simp
  next
    case False
    then have ts: "ts \<notin> {None, Some []}" "targets = the ts" by (auto simp: targets_def split: option.splits)
    have "a \<in> set (find_all_dependencies p targets)"
      if "(a, b) \<in> depends_on p" "b \<in> set (find_all_dependencies p targets)" for a b
      using that unfolding deps by (blast intro: converse_rtrancl_into_rtrancl)
    then have "topo_order p order"
      unfolding order using False topo_order_filter [OF facts(3)] by simp
    moreover have "a \<in> set (dict_keys p)" if "t \<in> set targets" "(a, t) \<in> (depends_on p)\<^sup>*" for a t
      using that(2) by (cases rule: converse_rtranclE) (use that(1) ok(1) depends_on_keys in blast)+
    then have "set order = {a. \<exists>t \<in> set targets. (a, t) \<in> (depends_on p)\<^sup>*}"
      using False all by (auto simp: order deps)
    moreover have "distinct order" using facts(1) by (simp add: order)
    ultimately show ?thesis using ts by (simp only: if_not_P) simp
  qed
qed

text \<open>
  C18. A topological sort that succeeds lists each node once and every node after all the nodes it
  depends on; it lists the whole pipeline without targets, and with targets exactly the nodes the
  targets depend on, whatever the order in which the sets are visited.
\<close>

theorem topological_sort_is_an_execution_order:
  assumes "dict_wf p" and "\<And>xs. mset (ord xs) = mset xs" and "topological_sort ord p ts = Inr order"
  shows "distinct order \<and> topo_order p order \<and>
    set order = (if ts \<in> {None, Some []} then set (dict_keys p)
      else {a. \<exists>t \<in> set (the ts). (a, t) \<in> (depends_on p)\<^sup>*})"
  by (rule topological_sort_order [OF assms])

theorem topological_sort_is_an_execution_order_witness:
  "topo_order sample_diamond [''a'', ''b'', ''c'', ''d'']"
proof -
  have "topological_sort id sample_diamond (Some [''d'']) = Inr [''a'', ''b'', ''c'', ''d'']" by code_simp
  moreover have "dict_wf sample_diamond" by code_simp
  ultimately show ?thesis using topological_sort_is_an_execution_order [where ord = id] by auto
qed

text \<open>
  C19. The sort raises \<open>NodeNotFoundError\<close> exactly when a requested target is not in the pipeline,
  and otherwise \<open>DependencyCycleError\<close> exactly when the dependencies are cyclic. The nodes the
  error names are not empty and each of them depends on another one of them.
\<close>

theorem topological_sort_errors:
  assumes "dict_wf p" and "\<And>xs. mset (ord xs) = mset xs"
  shows "(topological_sort ord p ts = Inl NodeNotFoundError \<longleftrightarrow>
      (\<exists>xs. ts = Some xs \<and> \<not> set xs \<subseteq> set (dict_keys p))) \<and>
    ((\<exists>ns. topological_sort ord p ts = Inl (DependencyCycleError ns)) \<longleftrightarrow>
      (\<forall>xs. ts = Some xs \<longrightarrow> set xs \<subseteq> set (dict_keys p)) \<and> \<not> acyclic (depends_on p)) \<and>
    (\<forall>ns. topological_sort ord p ts = Inl (DependencyCycleError ns) \<longrightarrow>
      ns \<noteq> [] \<and> (\<forall>n \<in> set ns. \<exists>m \<in> set ns. (m, n) \<in> depends_on p))"
proof -
  note facts = full_order_facts [OF assms]
  let ?F = "set (full_order ord p)"
  have ne: "filter (\<lambda>n. n \<notin> ?F) (dict_keys p) \<noteq> []" if "length (full_order ord p) \<noteq> length p"
    using full_order_complete_iff(2) [OF assms] facts(2) that by (auto simp: filter_empty_conv)
  have dep: "\<exists>m. m \<in> set (dict_keys p) \<and> m \<notin> ?F \<and> (m, n) \<in> depends_on p" if "n \<in> set (dict_keys p)" "n \<notin> ?F" for n
    using facts(4) [OF that(1)] that(2) by (auto simp: preds_def dest: depends_on_keys)
  show ?thesis
    using full_order_complete_iff(1) [OF assms] ne dep
    by (auto simp: topological_sort_eq Let_def split: option.splits)
qed

theorem topological_sort_errors_witness:
  "\<not> acyclic (depends_on sample_cycle)"
proof -
  have "\<exists>ns. topological_sort id sample_cycle None = Inl (DependencyCycleError ns)"
    by (rule exI [of _ "[''a'', ''b'']"]) code_simp
  moreover have "dict_wf sample_cycle" by code_simp
  ultimately show ?thesis using topological_sort_errors [of sample_cycle id None] by simp
qed

section \<open>Dependents\<close>

definition dept_state :: "Pipeline \<Rightarrow> (node_id \<times> node_id) set \<Rightarrow> dep_graph \<Rightarrow> bool" where
  "dept_state p P g \<longleftrightarrow> dict_keys g = dict_keys p \<and>
     (\<forall>a \<in> set (dict_keys p). \<exists>ns. map_of g a = Some ns \<and> set ns = {b. (a, b) \<in> P})"

lemma dept_state_add:
  assumes "dept_state p P g"
  shows "dept_state p (P \<union> {(a, b). b = n \<and> a = lv_node_id lv \<and> a \<in> set (dict_keys p)}) (add_dependent p n lv g)"
proof (cases "lv_node_id lv \<in> set (dict_keys p)")
  case src: True
  let ?s = "lv_node_id lv"
  have P': "P \<union> {(a, b). b = n \<and> a = ?s \<and> a \<in> set (dict_keys p)} = insert (?s, n) P" using src by auto
  have "\<exists>ms. map_of (dict_modify ?s (set_add n) g) a = Some ms \<and> set ms = {b. (a, b) \<in> insert (?s, n) P}"
    if a: "a \<in> set (dict_keys p)" for a
  proof -
    obtain ns where "map_of g a = Some ns" "set ns = {b. (a, b) \<in> P}"
      using assms a unfolding dept_state_def by blast
    then show ?thesis by (cases "a = ?s") (auto simp: dict_simps set_add_def)
  qed
  moreover have "dict_keys g = dict_keys p" using assms by (simp add: dept_state_def)
  ultimately show ?thesis
    using src unfolding P' dept_state_def add_dependent_def by (simp add: keys_dict_modify)
next
  case False
  then have "P \<union> {(a, b). b = n \<and> a = lv_node_id lv \<and> a \<in> set (dict_keys p)} = P" by auto
  then show ?thesis using assms False by (simp add: add_dependent_def)
qed

lemma dept_state_links:
  "dept_state p P g \<Longrightarrow>
     dept_state p (P \<union> {(a, b). b = n \<and> a \<in> lv_node_id ` set lvs \<and> a \<in> set (dict_keys p)})
       (fold (add_dependent p n) lvs g)"
proof (induction lvs arbitrary: P g)
  case Nil
  then show ?case by simp
next
  case (Cons lv lvs)
  from Cons.IH [OF dept_state_add [OF Cons.prems, of n lv]] show ?case
    by (simp add: Un_assoc) (erule back_subst [of "\<lambda>P. dept_state p P _"], auto)
qed

lemma dept_state_nodes:
  "dept_state p P g \<Longrightarrow>
     dept_state p (P \<union> {(a, b). (\<exists>nd. (b, nd) \<in> set q \<and> a \<in> lv_node_id ` set (node_links nd)) \<and> a \<in> set (dict_keys p)})
       (fold (\<lambda>(n, nd). fold (add_dependent p n) (node_links nd)) q g)"
proof (induction q arbitrary: P g)
  case Nil
  then show ?case by simp
next
  case (Cons e q)
  obtain n nd where e: "e = (n, nd)" by (cases e)
  from Cons.IH [OF dept_state_links [OF Cons.prems, of n "node_links nd"]] show ?case
    by (simp add: e Un_assoc) (erule back_subst [of "\<lambda>P. dept_state p P _"], auto)
qed

lemma dependents_graph_spec: "dept_state p (depends_on p) (dependents_graph p)"
proof -
  have "dept_state p {} (map (\<lambda>n. (n, [])) (dict_keys p))"
    by (simp add: dept_state_def map_of_map_const dict_keys_map_pair)
  from dept_state_nodes [OF this, of p] show ?thesis
    by (simp add: dependents_graph_def depends_on_def links_to_def)
qed

lemma find_all_dependents_set:
  assumes "\<And>xs. mset (ord xs) = mset xs"
  shows "set (find_all_dependents ord p srcs) =
    {b. \<exists>s \<in> set srcs. s \<in> set (dict_keys p) \<and> (s, b) \<in> (depends_on p)\<^sup>*}"
proof -
  let ?adj = "map (\<lambda>(n, ns). (n, ord ns)) (dependents_graph p)"
  have look: "map_of (map (\<lambda>(n, ns). (n, ord ns)) g) n = map_option ord (map_of g n)" for n g
    by (induction g) auto
  have keys: "dict_keys (dependents_graph p) = dict_keys p" using dependents_graph_spec [of p] by (simp add: dept_state_def)
  have "(a, b) \<in> adj_rel (\<lambda>n. n \<in> set (dict_keys p)) ?adj \<longleftrightarrow> (a, b) \<in> depends_on p" for a b
  proof (cases "a \<in> set (dict_keys p)")
    case True
    then obtain ns where "map_of (dependents_graph p) a = Some ns" "set ns = {b. (a, b) \<in> depends_on p}"
      using dependents_graph_spec [of p] by (auto simp: dept_state_def)
    then show ?thesis
      using mset_eq_setD [OF assms [of ns]] by (auto simp: adj_rel_def dict_get_default_def look dest: depends_on_keys)
  next
    case False
    then have "map_of (dependents_graph p) a = None" using keys by (simp add: map_of_eq_None_iff_keys)
    then show ?thesis using False by (auto simp: adj_rel_def dict_get_default_def look dest: depends_on_keys)
  qed
  then have "adj_rel (\<lambda>n. n \<in> set (dict_keys p)) ?adj = depends_on p" by auto
  then show ?thesis unfolding find_all_dependents_def worklist_closure by auto
qed

text \<open>
  C20. The upstream and downstream searches are converse to each other: for nodes of the pipeline,
  \<open>a\<close> is among the dependencies of \<open>b\<close> exactly when \<open>b\<close> is among the dependents of \<open>a\<close>, and both
  hold exactly when there is a chain of links from \<open>a\<close> to \<open>b\<close>.
\<close>

theorem dependencies_and_dependents_agree:
  assumes "dict_wf p" and "\<And>xs. mset (ord xs) = mset xs"
    and "a \<in> set (dict_keys p)" and "b \<in> set (dict_keys p)"
  shows "(a \<in> set (find_all_dependencies p [b]) \<longleftrightarrow> b \<in> set (find_all_dependents ord p [a])) \<and>
    (a \<in> set (find_all_dependencies p [b]) \<longleftrightarrow> (a, b) \<in> (depends_on p)\<^sup>*)"
  using find_all_dependencies_set [OF assms(1), of "[b]"] find_all_dependents_set [OF assms(2), of p "[a]"] assms(3,4)
  by auto

theorem dependencies_and_dependents_agree_witness:
  "(''a'', ''d'') \<in> (depends_on sample_diamond)\<^sup>*"
proof -
  have "''a'' \<in> set (find_all_dependencies sample_diamond [''d''])" by code_simp
  moreover have "dict_wf sample_diamond" "''a'' \<in> set (dict_keys sample_diamond)" "''d'' \<in> set (dict_keys sample_diamond)"
    by code_simp+
  ultimately show ?thesis using dependencies_and_dependents_agree [where ord = id] by auto
qed

end
