(* ===== verification/Graph_Builder.thy ===== *)
theory Graph_Builder
  imports Pipeline_Order
begin

text \<open>
  From the stored graph to a pipeline (\<^verbatim>\<open>src/pipeline/graph/builders.py\<close>) and the terminal
  nodes affected by a change (\<^verbatim>\<open>src/pipeline/graph/targets.py\<close>).

  The registries are parameters: \<open>defs\<close> and \<open>classes\<close> return the definition and the class of a
  node name, or None where the registry raises.
\<close>

section \<open>Stored graph\<close>

record GraphNodeRecord =
  gn_ui_id :: node_id
  gn_type :: string
  gn_name :: string
  gn_input_values :: "(string, pyval) dict option"
  gn_store_enabled :: "bool option"

record GraphEdgeRecord =
  ge_source :: node_id
  ge_source_handle :: "string option"
  ge_target :: node_id
  ge_target_handle :: "string option"

definition WIDGET_TYPE :: string where
  "WIDGET_TYPE = ''widget''"

text \<open>\<^verbatim>\<open>s.replace(pat, "")\<close> for a non-empty pattern.\<close>

function str_remove :: "string \<Rightarrow> string \<Rightarrow> string" where
  "str_remove pat [] = []"
| "str_remove pat (c # cs) =
     (if pat \<noteq> [] \<and> take (length pat) (c # cs) = pat then str_remove pat (drop (length pat) (c # cs))
      else c # str_remove pat cs)"
  by pat_completeness auto

termination str_remove
  by (relation "measure (\<lambda>(pat, s). length s)") auto

section \<open>Registry lookups\<close>

definition allows_multiple_connections ::
    "(string \<Rightarrow> NodeDefinition option) \<Rightarrow> string \<Rightarrow> string \<Rightarrow> bool" where
  "allows_multiple_connections defs node_name input_name =
     (case defs node_name of
        None \<Rightarrow> input_name \<in> {''input_variables'', ''signal_in''}
      | Some node_def \<Rightarrow>
          (case map_of (df_input_definitions node_def) input_name of
             None \<Rightarrow> False
           | Some input_def \<Rightarrow> id_allow_multiple_connections input_def = Some True))"

definition resolve_terminal_output_name ::
    "(string \<Rightarrow> NodeDefinition option) \<Rightarrow> (string \<Rightarrow> NodeClass option) \<Rightarrow> string \<Rightarrow> string" where
  "resolve_terminal_output_name defs classes node_name =
     (case (defs node_name, classes node_name) of
        (Some node_def, Some node_class) \<Rightarrow>
          let output_names = dict_keys (df_output_definitions node_def);
              non_signal_outputs = filter (\<lambda>n. n \<notin> {''signal_out'', ''signal_error'', ''output_variables''}) output_names
          in if output_names = [] then ''output''
             else case nc_TERMINAL_OUTPUT_NAME node_class of
               Some n \<Rightarrow>
                 if n \<in> set output_names then n
                 else if ''output'' \<in> set output_names then ''output''
                 else if non_signal_outputs \<noteq> [] then hd non_signal_outputs
                 else if ''signal_out'' \<in> set output_names then ''signal_out''
                 else hd output_names
             | None \<Rightarrow>
                 if ''output'' \<in> set output_names then ''output''
                 else if non_signal_outputs \<noteq> [] then hd non_signal_outputs
                 else if ''signal_out'' \<in> set output_names then ''signal_out''
                 else hd output_names
      | _ \<Rightarrow> ''output'')"

section \<open>Targets\<close>

definition normalize_target_nodes :: "node_id list option \<Rightarrow> node_id list" where
  "normalize_target_nodes target_nodes =
     fold (\<lambda>n acc. if n \<noteq> [] \<and> n \<notin> set acc then acc @ [n] else acc)
       (case target_nodes of None \<Rightarrow> [] | Some ns \<Rightarrow> ns) []"

definition resolve_service_output_node_id :: "node_id \<Rightarrow> node_id list option \<Rightarrow> node_id" where
  "resolve_service_output_node_id n target_nodes =
     (if length (normalize_target_nodes target_nodes) = 1 then ''__service_output__''
      else ''__service_output_'' @ n @ ''__'')"

definition resolve_execution_target_nodes :: "Pipeline \<Rightarrow> node_id list option \<Rightarrow> node_id list option" where
  "resolve_execution_target_nodes pipeline target_nodes =
     (let normalized = normalize_target_nodes target_nodes in
      if normalized = [] then None
      else Some (map (\<lambda>n.
             let service = resolve_service_output_node_id n (Some normalized)
             in if service \<in> set (dict_keys pipeline) then service else n) normalized))"

section \<open>Building the pipeline\<close>

definition normalize_graph_input_value :: "adapter \<Rightarrow> pyval \<Rightarrow> (string, NodeRuntimeInputValue) result" where
  "normalize_graph_input_value validate v =
     bind_result (parse_node_runtime_input_value validate v)
       (\<lambda>p. case p of Some x \<Rightarrow> Inr x
            | None \<Rightarrow> Inl ''GraphNodeRecord.input_values must use canonical '__dvt_type' payloads.'')"

fun stored_inputs :: "adapter \<Rightarrow> (string, pyval) dict \<Rightarrow> NodeRuntimeInputValues \<Rightarrow> (string, NodeRuntimeInputValues) result" where
  "stored_inputs validate [] inputs = Inr inputs"
| "stored_inputs validate ((name, v) # rest) inputs =
     (if v = PyNone then stored_inputs validate rest inputs
      else bind_result (normalize_graph_input_value validate v)
        (\<lambda>parsed. stored_inputs validate rest
           (case parsed of LinkValue lv \<Rightarrow> inputs | _ \<Rightarrow> dict_put name parsed inputs)))"

definition edge_handle :: "string \<Rightarrow> string option \<Rightarrow> string option" where
  "edge_handle prefix handle =
     (case handle of None \<Rightarrow> None | Some h \<Rightarrow> if h = [] then None else Some (str_remove prefix h))"

definition edge_link :: "GraphEdgeRecord \<Rightarrow> (string \<times> NodeInputLinkValue) option" where
  "edge_link e =
     (case (edge_handle ''input-'' (ge_target_handle e), edge_handle ''output-'' (ge_source_handle e)) of
        (Some th, Some sh) \<Rightarrow>
          if th \<noteq> [] \<and> ge_source e \<noteq> [] \<and> sh \<noteq> []
          then Some (th, \<lparr>lv_node_id = ge_source e, lv_output_name = sh\<rparr>) else None
      | _ \<Rightarrow> None)"

definition add_edge ::
    "(string \<Rightarrow> NodeDefinition option) \<Rightarrow> string \<Rightarrow> GraphEdgeRecord \<Rightarrow> NodeRuntimeInputValues \<Rightarrow> NodeRuntimeInputValues" where
  "add_edge defs node_name e inputs =
     (case edge_link e of
        None \<Rightarrow> inputs
      | Some (th, new_link) \<Rightarrow>
          let existing_links = (case map_of inputs th of None \<Rightarrow> []
                | Some v \<Rightarrow> iter_node_input_link_values v)
          in if allows_multiple_connections defs node_name th \<and> existing_links \<noteq> []
             then dict_put th (LinkValues (existing_links @ [new_link])) inputs
             else dict_put th (LinkValue new_link) inputs)"

definition build_node ::
    "adapter \<Rightarrow> (string \<Rightarrow> NodeDefinition option) \<Rightarrow> GraphEdgeRecord list \<Rightarrow> GraphNodeRecord \<Rightarrow> (string, NodeData) result" where
  "build_node validate defs edges node =
     bind_result (stored_inputs validate (case gn_input_values node of None \<Rightarrow> [] | Some m \<Rightarrow> m) [])
       (\<lambda>inputs. Inr \<lparr>nd_name = gn_name node, nd_store_enabled = gn_store_enabled node,
          nd_inputs = fold (add_edge defs (gn_name node))
            (filter (\<lambda>e. ge_target e = gn_ui_id node) edges) inputs\<rparr>)"

fun build_nodes ::
    "adapter \<Rightarrow> (string \<Rightarrow> NodeDefinition option) \<Rightarrow> GraphEdgeRecord list \<Rightarrow> GraphNodeRecord list \<Rightarrow> Pipeline \<Rightarrow>
     (string, Pipeline) result" where
  "build_nodes validate defs edges [] pipeline = Inr pipeline"
| "build_nodes validate defs edges (node # nodes) pipeline =
     bind_result (build_node validate defs edges node)
       (\<lambda>nd. build_nodes validate defs edges nodes (dict_put (gn_ui_id node) nd pipeline))"

definition service_output_node :: "node_id \<Rightarrow> string \<Rightarrow> NodeData" where
  "service_output_node n output_name =
     \<lparr>nd_name = ''ServiceOutputNode'', nd_store_enabled = Some False,
      nd_inputs = [(''input'', LinkValue \<lparr>lv_node_id = n, lv_output_name = output_name\<rparr>)]\<rparr>"

text \<open>One candidate for a synthetic output node.\<close>

definition add_service_output ::
    "(string \<Rightarrow> NodeDefinition option) \<Rightarrow> (string \<Rightarrow> NodeClass option) \<Rightarrow> GraphEdgeRecord list \<Rightarrow> node_id list \<Rightarrow>
     GraphNodeRecord \<Rightarrow> Pipeline \<Rightarrow> (string, Pipeline) result" where
  "add_service_output defs classes edges targets node pipeline =
     (let is_target_node = (targets \<noteq> [] \<and> gn_ui_id node \<in> set targets);
          is_empty_output = (targets = [] \<and> gn_ui_id node \<notin> set (map ge_source edges))
      in if gn_type node = WIDGET_TYPE then Inr pipeline
         else if is_target_node \<or> is_empty_output then
           (case classes (gn_name node) of
              None \<Rightarrow> Inr pipeline
            | Some node_class \<Rightarrow>
                if is_target_node \<and> \<not> nc_CAN_BE_OUTPUT_NODE node_class
                then Inl (gn_name node @ '' cannot be used as an explicit target node.'')
                else Inr (dict_put (resolve_service_output_node_id (gn_ui_id node) (Some targets))
                       (service_output_node (gn_ui_id node)
                         (resolve_terminal_output_name defs classes (gn_name node))) pipeline))
         else Inr pipeline)"

fun add_service_outputs ::
    "(string \<Rightarrow> NodeDefinition option) \<Rightarrow> (string \<Rightarrow> NodeClass option) \<Rightarrow> GraphEdgeRecord list \<Rightarrow> node_id list \<Rightarrow>
     GraphNodeRecord list \<Rightarrow> Pipeline \<Rightarrow> (string, Pipeline) result" where
  "add_service_outputs defs classes edges targets [] pipeline = Inr pipeline"
| "add_service_outputs defs classes edges targets (node # nodes) pipeline =
     bind_result (add_service_output defs classes edges targets node pipeline)
       (add_service_outputs defs classes edges targets nodes)"

definition build_pipeline_from_graph ::
    "adapter \<Rightarrow> (string \<Rightarrow> NodeDefinition option) \<Rightarrow> (string \<Rightarrow> NodeClass option) \<Rightarrow> GraphNodeRecord list \<Rightarrow>
     GraphEdgeRecord list \<Rightarrow> node_id list option \<Rightarrow> (string, Pipeline) result" where
  "build_pipeline_from_graph validate defs classes nodes edges target_nodes =
     (let targets = normalize_target_nodes target_nodes;
          candidates = (if targets \<noteq> [] then filter (\<lambda>n. gn_ui_id n \<in> set targets) nodes else nodes)
      in bind_result (build_nodes validate defs edges nodes [])
           (add_service_outputs defs classes edges targets candidates))"

section \<open>Affected terminal nodes\<close>

definition outgoing_edges_map :: "GraphEdgeRecord list \<Rightarrow> (node_id, node_id list) dict" where
  "outgoing_edges_map edges =
     fold (\<lambda>e m. dict_put (ge_source e) (dict_get_default [] m (ge_source e) @ [ge_target e]) m) edges []"

definition collect_affected_terminal_node_ids ::
    "(string \<Rightarrow> NodeClass option) \<Rightarrow> GraphNodeRecord list \<Rightarrow> GraphEdgeRecord list \<Rightarrow> node_id list \<Rightarrow> node_id list" where
  "collect_affected_terminal_node_ids classes nodes edges seed_node_ids =
     (let outgoing = outgoing_edges_map edges;
          affected = worklist (\<lambda>_. True) outgoing
            (filter (\<lambda>n. n \<in> set (map gn_ui_id nodes)) seed_node_ids) []
      in map gn_ui_id (filter (\<lambda>node.
           gn_ui_id node \<in> set affected \<and> gn_type node \<noteq> WIDGET_TYPE \<and>
           (case classes (gn_name node) of
              None \<Rightarrow> False
            | Some node_class \<Rightarrow> nc_OUTPUT_NODE node_class \<or> gn_ui_id node \<notin> set (dict_keys outgoing))) nodes))"

end
