(* ===== verification/Graph_Targets.thy ===== *)
theory Graph_Targets
  imports Graph_Builder
begin

text \<open>
  Correctness of the pipeline builder: the links of a built node are its edges, targets resolve to
  nodes of the built pipeline, and a change reaches exactly the terminal nodes downstream of it.
\<close>

section \<open>Links of a built node\<close>

definition port_links :: "NodeRuntimeInputValues \<Rightarrow> string \<Rightarrow> NodeInputLinkValue list" where
  "port_links inputs h = (case map_of inputs h of None \<Rightarrow> [] | Some v \<Rightarrow> iter_node_input_link_values v)"

definition edge_links :: "string \<Rightarrow> GraphEdgeRecord list \<Rightarrow> NodeInputLinkValue list" where
  "edge_links h es = map snd (filter (\<lambda>(th, l). th = h) (List.map_filter edge_link es))"

text \<open>What a port holds after its edges: all of them if it takes several, otherwise the last.\<close>

definition connected :: "bool \<Rightarrow> NodeInputLinkValue list \<Rightarrow> NodeInputLinkValue list \<Rightarrow> NodeInputLinkValue list" where
  "connected multi stored new = (if multi then stored @ new else if new = [] then stored else [last new])"

lemma edge_links_Nil [simp]: "edge_links h [] = []"
  by (simp add: edge_links_def)

lemma edge_links_Cons:
  "edge_links h (e # es) =
     (case edge_link e of Some (th, l) \<Rightarrow> if th = h then l # edge_links h es else edge_links h es
      | None \<Rightarrow> edge_links h es)"
  by (auto simp: edge_links_def map_filter_simps split: option.splits)

lemma port_links_add_edge:
  "port_links (add_edge defs name e inputs) h =
     (case edge_link e of
        Some (th, l) \<Rightarrow> if th = h then connected (allows_multiple_connections defs name h) (port_links inputs h) [l]
                       else port_links inputs h
      | None \<Rightarrow> port_links inputs h)"
  by (auto simp: add_edge_def port_links_def connected_def Let_def dict_simps split: option.splits)

lemma port_links_fold:
  "port_links (fold (add_edge defs name) es inputs) h =
     connected (allows_multiple_connections defs name h) (port_links inputs h) (edge_links h es)"
  by (induction es arbitrary: inputs)
     (auto simp: connected_def edge_links_Cons port_links_add_edge split: option.splits prod.splits)

definition literal_links :: "adapter \<Rightarrow> GraphNodeRecord \<Rightarrow> string \<Rightarrow> NodeInputLinkValue list" where
  "literal_links validate node h =
     (case stored_inputs validate (case gn_input_values node of None \<Rightarrow> [] | Some m \<Rightarrow> m) [] of
        Inl e \<Rightarrow> [] | Inr inputs \<Rightarrow> port_links inputs h)"

lemma build_node_links:
  assumes "build_node validate defs edges node = Inr nd"
  shows "nd_name nd = gn_name node"
    and "port_links (nd_inputs nd) h = connected (allows_multiple_connections defs (gn_name node) h)
      (literal_links validate node h) (edge_links h (filter (\<lambda>e. ge_target e = gn_ui_id node) edges))"
  using assms by (auto simp: build_node_def bind_result_eq_Inr_iff literal_links_def port_links_fold)

section \<open>Entries of the built pipeline\<close>

lemma build_nodes_lookup:
  assumes "build_nodes validate defs edges nodes p0 = Inr p" and "distinct (map gn_ui_id nodes)"
  shows "set (dict_keys p) = set (dict_keys p0) \<union> gn_ui_id ` set nodes"
    and "node \<in> set nodes \<Longrightarrow> \<exists>nd. build_node validate defs edges node = Inr nd \<and> map_of p (gn_ui_id node) = Some nd"
    and "n \<notin> gn_ui_id ` set nodes \<Longrightarrow> map_of p n = map_of p0 n"
    and "dict_wf p0 \<Longrightarrow> dict_wf p"
proof -
  have "set (dict_keys p) = set (dict_keys p0) \<union> gn_ui_id ` set nodes \<and>
    (\<forall>node \<in> set nodes. \<exists>nd. build_node validate defs edges node = Inr nd \<and> map_of p (gn_ui_id node) = Some nd) \<and>
    (\<forall>n. n \<notin> gn_ui_id ` set nodes \<longrightarrow> map_of p n = map_of p0 n) \<and> (dict_wf p0 \<longrightarrow> dict_wf p)"
    using assms
  proof (induction nodes arbitrary: p0)
    case Nil
    then show ?case by simp
  next
    case (Cons m nodes)
    obtain nd where nd: "build_node validate defs edges m = Inr nd"
      and rest: "build_nodes validate defs edges nodes (dict_put (gn_ui_id m) nd p0) = Inr p"
      using Cons.prems(1) by (auto simp: bind_result_eq_Inr_iff)
    have "map_of p (gn_ui_id m) = Some nd" and "\<forall>n. n \<notin> gn_ui_id ` set (m # nodes) \<longrightarrow> map_of p n = map_of p0 n"
      using Cons.IH [OF rest] Cons.prems(2) by (auto simp: dict_simps)
    then show ?case
      using Cons.IH [OF rest] Cons.prems(2) nd by (auto simp: keys_dict_put)
  qed
  then show "set (dict_keys p) = set (dict_keys p0) \<union> gn_ui_id ` set nodes"
    and "node \<in> set nodes \<Longrightarrow> \<exists>nd. build_node validate defs edges node = Inr nd \<and> map_of p (gn_ui_id node) = Some nd"
    and "n \<notin> gn_ui_id ` set nodes \<Longrightarrow> map_of p n = map_of p0 n"
    and "dict_wf p0 \<Longrightarrow> dict_wf p"
    by blast+
qed

definition gets_service_output ::
    "(string \<Rightarrow> NodeClass option) \<Rightarrow> GraphEdgeRecord list \<Rightarrow> node_id list \<Rightarrow> GraphNodeRecord \<Rightarrow> bool" where
  "gets_service_output classes edges targets node \<longleftrightarrow>
     gn_type node \<noteq> WIDGET_TYPE \<and> classes (gn_name node) \<noteq> None \<and>
     (if targets \<noteq> [] then gn_ui_id node \<in> set targets else gn_ui_id node \<notin> set (map ge_source edges))"

lemma add_service_output_eq:
  assumes "add_service_output defs classes edges targets node p0 = Inr p"
  shows "p = (if gets_service_output classes edges targets node
    then dict_put (resolve_service_output_node_id (gn_ui_id node) (Some targets))
      (service_output_node (gn_ui_id node) (resolve_terminal_output_name defs classes (gn_name node))) p0
    else p0)"
  using assms
  by (auto simp: add_service_output_def gets_service_output_def Let_def split: if_splits option.splits)

lemma add_service_outputs_lookup:
  assumes "add_service_outputs defs classes edges targets nodes p0 = Inr p"
  defines "sid \<equiv> \<lambda>node :: GraphNodeRecord. resolve_service_output_node_id (gn_ui_id node) (Some targets)"
    and "served \<equiv> {node \<in> set nodes. gets_service_output classes edges targets node}"
  shows "set (dict_keys p) = set (dict_keys p0) \<union> sid ` served"
    and "n \<notin> sid ` served \<Longrightarrow> map_of p n = map_of p0 n"
    and "\<forall>node \<in> served. \<exists>m \<in> served. sid m = sid node \<and> map_of p (sid node) =
      Some (service_output_node (gn_ui_id m) (resolve_terminal_output_name defs classes (gn_name m)))"
    and "dict_wf p0 \<Longrightarrow> dict_wf p"
proof -
  define S where "S ns = {node \<in> set ns. gets_service_output classes edges targets node}" for ns
  define out where "out m = service_output_node (gn_ui_id m) (resolve_terminal_output_name defs classes (gn_name m))" for m :: GraphNodeRecord
  have "set (dict_keys p) = set (dict_keys p0) \<union> sid ` S nodes \<and>
    (\<forall>n. n \<notin> sid ` S nodes \<longrightarrow> map_of p n = map_of p0 n) \<and>
    (\<forall>node \<in> S nodes. \<exists>m \<in> S nodes. sid m = sid node \<and> map_of p (sid node) = Some (out m)) \<and>
    (dict_wf p0 \<longrightarrow> dict_wf p)"
    using assms(1)
  proof (induction nodes arbitrary: p0)
    case Nil
    then show ?case by (simp add: S_def)
  next
    case (Cons x nodes)
    obtain p1 where p1: "add_service_output defs classes edges targets x p0 = Inr p1"
      and rest: "add_service_outputs defs classes edges targets nodes p1 = Inr p"
      using Cons.prems by (auto simp: bind_result_eq_Inr_iff)
    note IH = Cons.IH [OF rest]
    show ?case
    proof (cases "gets_service_output classes edges targets x")
      case False
      then have "p1 = p0" "S (x # nodes) = S nodes" using add_service_output_eq [OF p1] by (auto simp: S_def)
      then show ?thesis using IH by simp
    next
      case True
      have p1: "p1 = dict_put (sid x) (out x) p0" and Sx: "S (x # nodes) = insert x (S nodes)"
        using add_service_output_eq [OF p1] True by (auto simp: S_def sid_def out_def)
      have "\<exists>m \<in> S (x # nodes). sid m = sid x \<and> map_of p (sid x) = Some (out m)"
      proof (cases "sid x \<in> sid ` S nodes")
        case True
        then obtain y where "y \<in> S nodes" "sid y = sid x" by auto
        then show ?thesis using IH unfolding Sx by (metis insertI2)
      next
        case False
        then have "map_of p (sid x) = Some (out x)" using IH by (simp add: p1 dict_simps)
        then show ?thesis unfolding Sx by blast
      qed
      moreover have "\<forall>n. n \<notin> sid ` S (x # nodes) \<longrightarrow> map_of p n = map_of p0 n"
        using IH by (auto simp: p1 Sx dict_simps)
      moreover have "set (dict_keys p) = set (dict_keys p0) \<union> sid ` S (x # nodes)"
        using IH by (auto simp: p1 Sx keys_dict_put)
      moreover have "dict_wf p0 \<longrightarrow> dict_wf p" using IH by (auto simp: p1)
      ultimately show ?thesis using IH unfolding Sx by blast
    qed
  qed
  then show "set (dict_keys p) = set (dict_keys p0) \<union> sid ` served"
    and "n \<notin> sid ` served \<Longrightarrow> map_of p n = map_of p0 n"
    and "\<forall>node \<in> served. \<exists>m \<in> served. sid m = sid node \<and> map_of p (sid node) =
      Some (service_output_node (gn_ui_id m) (resolve_terminal_output_name defs classes (gn_name m)))"
    and "dict_wf p0 \<Longrightarrow> dict_wf p"
    unfolding served_def S_def out_def by blast+
qed

section \<open>Targets\<close>

lemma normalize_fold:
  "set (fold (\<lambda>n acc. if n \<noteq> [] \<and> n \<notin> set acc then acc @ [n] else acc) ns acc) = set acc \<union> (set ns - {[]})"
  "distinct acc \<Longrightarrow> distinct (fold (\<lambda>n acc. if n \<noteq> [] \<and> n \<notin> set acc then acc @ [n] else acc) ns acc)"
  by (induction ns arbitrary: acc) auto

lemma normalize_target_nodes_set:
  "set (normalize_target_nodes ts) = (case ts of None \<Rightarrow> {} | Some ns \<Rightarrow> set ns - {[]})"
  "distinct (normalize_target_nodes ts)"
  by (auto simp: normalize_target_nodes_def normalize_fold split: option.splits)

lemma normalize_distinct_id:
  assumes "distinct ns" and "[] \<notin> set ns"
  shows "normalize_target_nodes (Some ns) = ns"
proof -
  have "fold (\<lambda>n acc. if n \<noteq> [] \<and> n \<notin> set acc then acc @ [n] else acc) ns acc = acc @ ns"
    if "distinct (acc @ ns)" "[] \<notin> set ns" for acc
    using that by (induction ns arbitrary: acc) auto
  from this [of "[]"] show ?thesis using assms by (simp add: normalize_target_nodes_def)
qed

lemma normalize_idem [simp]: "normalize_target_nodes (Some (normalize_target_nodes ts)) = normalize_target_nodes ts"
  by (rule normalize_distinct_id) (auto simp: normalize_target_nodes_set split: option.splits)

lemma service_id_normalized:
  "resolve_service_output_node_id n (Some (normalize_target_nodes ts)) = resolve_service_output_node_id n ts"
  by (simp add: resolve_service_output_node_id_def)

lemma length_one_member: "length xs = 1 \<Longrightarrow> a \<in> set xs \<Longrightarrow> b \<in> set xs \<Longrightarrow> a = b"
  by (cases xs) auto

lemma service_id_inj:
  assumes "gets_service_output classes edges (normalize_target_nodes ts) a"
    and "gets_service_output classes edges (normalize_target_nodes ts) b"
    and "resolve_service_output_node_id (gn_ui_id a) ts = resolve_service_output_node_id (gn_ui_id b) ts"
  shows "gn_ui_id a = gn_ui_id b"
proof (cases "length (normalize_target_nodes ts) = 1")
  case True
  then have "normalize_target_nodes ts \<noteq> []" by auto
  then show ?thesis using assms(1,2) length_one_member [OF True] by (simp add: gets_service_output_def)
next
  case False
  then show ?thesis using assms(3) by (simp add: resolve_service_output_node_id_def)
qed

lemma build_pipeline_cases:
  assumes "build_pipeline_from_graph validate defs classes nodes edges ts = Inr p" and "distinct (map gn_ui_id nodes)"
  defines "served \<equiv> {node \<in> set nodes. gets_service_output classes edges (normalize_target_nodes ts) node}"
    and "sid \<equiv> \<lambda>node. resolve_service_output_node_id (gn_ui_id node) ts"
  shows "dict_wf p" and "set (dict_keys p) = gn_ui_id ` set nodes \<union> sid ` served"
    and "node \<in> set nodes \<Longrightarrow> gn_ui_id node \<notin> sid ` served \<Longrightarrow>
      \<exists>nd. build_node validate defs edges node = Inr nd \<and> map_of p (gn_ui_id node) = Some nd"
    and "node \<in> served \<Longrightarrow> \<exists>name. map_of p (sid node) = Some (service_output_node (gn_ui_id node) name)"
proof -
  let ?T = "normalize_target_nodes ts"
  let ?C = "if ?T \<noteq> [] then filter (\<lambda>n. gn_ui_id n \<in> set ?T) nodes else nodes"
  obtain p0 where p0: "build_nodes validate defs edges nodes [] = Inr p0"
    and p: "add_service_outputs defs classes edges ?T ?C p0 = Inr p"
    using assms(1) by (auto simp: build_pipeline_from_graph_def Let_def bind_result_eq_Inr_iff)
  note built = build_nodes_lookup [OF p0 assms(2)]
  have S: "{node \<in> set ?C. gets_service_output classes edges ?T node} = served"
    by (auto simp: served_def gets_service_output_def)
  note added = add_service_outputs_lookup [OF p, unfolded S service_id_normalized]
  show "dict_wf p" using added(4) built(4) by simp
  show "set (dict_keys p) = gn_ui_id ` set nodes \<union> sid ` served"
    using added(1) built(1) by (simp add: sid_def dict_keys_def)
  show "\<exists>nd. build_node validate defs edges node = Inr nd \<and> map_of p (gn_ui_id node) = Some nd"
    if "node \<in> set nodes" "gn_ui_id node \<notin> sid ` served"
    using built(2) [OF that(1)] added(2) [OF that(2) [unfolded sid_def]] by simp
  show "\<exists>name. map_of p (sid node) = Some (service_output_node (gn_ui_id node) name)" if node: "node \<in> served"
  proof -
    obtain m where m: "m \<in> served" "sid m = sid node"
      "map_of p (sid node) = Some (service_output_node (gn_ui_id m) (resolve_terminal_output_name defs classes (gn_name m)))"
      using bspec [OF added(3) node] unfolding sid_def by blast
    then have "gn_ui_id m = gn_ui_id node"
      using node service_id_inj [of classes edges ts m node] by (simp add: served_def sid_def)
    then show ?thesis using m(3) by metis
  qed
qed

definition sample_adapter :: adapter where
  "sample_adapter m = Inr (ConstantValue (PyDict m))"

definition sample_defs :: "string \<Rightarrow> NodeDefinition option" where
  "sample_defs name = Some \<lparr>df_name = name, df_input_definitions = [(''left'', \<lparr>id_attr_name = ''left'',
     id_type = IoMember IO_DATAFRAME, id_is_list_type = False, id_allow_multiple_connections = Some True,
     id_allow_expressions = None, id_expression_policy = None\<rparr>)],
     df_output_definitions = [(''output'', \<lparr>od_attr_name = ''output'', od_type = IoMember IO_DATAFRAME\<rparr>)]\<rparr>"

definition sample_classes :: "string \<Rightarrow> NodeClass option" where
  "sample_classes name = Some \<lparr>nc_name = name, nc_OUTPUT_NODE = False, nc_CACHABLE = True,
     nc_REQUIRES_FRESH_EXECUTION = False, nc_METADATA_VARIABLE_PREPASS_INPUTS = [], nc_CAN_BE_OUTPUT_NODE = True,
     nc_AUTO_ACTIVATE_SIGNAL_OUTPUTS = True, nc_TERMINAL_OUTPUT_NAME = None,
     nc_input_fields = [(''left'', IoMember IO_DATAFRAME)], nc_df_output = False, nc_own_cache_key = False\<rparr>"

definition sample_graph_node :: "node_id \<Rightarrow> GraphNodeRecord" where
  "sample_graph_node n = \<lparr>gn_ui_id = n, gn_type = ''base'', gn_name = ''Join'', gn_input_values = None,
     gn_store_enabled = None\<rparr>"

definition sample_graph_edge :: "node_id \<Rightarrow> node_id \<Rightarrow> GraphEdgeRecord" where
  "sample_graph_edge a b = \<lparr>ge_source = a, ge_source_handle = Some ''output-output'', ge_target = b,
     ge_target_handle = Some ''input-left''\<rparr>"

definition sample_graph_nodes :: "GraphNodeRecord list" where
  "sample_graph_nodes = map sample_graph_node [''a'', ''b'', ''c'']"

definition sample_graph_edges :: "GraphEdgeRecord list" where
  "sample_graph_edges = [sample_graph_edge ''a'' ''c'', sample_graph_edge ''b'' ''c'']"

definition sample_built :: Pipeline where
  "sample_built = (case build_pipeline_from_graph sample_adapter sample_defs sample_classes sample_graph_nodes
     sample_graph_edges (Some [''c'']) of Inr p \<Rightarrow> p | Inl e \<Rightarrow> [])"

lemma sample_built_ok:
  "build_pipeline_from_graph sample_adapter sample_defs sample_classes sample_graph_nodes sample_graph_edges
     (Some [''c'']) = Inr sample_built"
  "distinct (map gn_ui_id sample_graph_nodes)"
  by code_simp+





section \<open>Affected terminal nodes\<close>

definition edge_rel :: "GraphEdgeRecord list \<Rightarrow> (node_id \<times> node_id) set" where
  "edge_rel edges = (\<lambda>e. (ge_source e, ge_target e)) ` set edges"

definition add_outgoing :: "GraphEdgeRecord \<Rightarrow> (node_id, node_id list) dict \<Rightarrow> (node_id, node_id list) dict" where
  "add_outgoing e m = dict_put (ge_source e) (dict_get_default [] m (ge_source e) @ [ge_target e]) m"

lemma outgoing_edges_map_fold: "outgoing_edges_map edges = fold add_outgoing edges []"
  unfolding outgoing_edges_map_def by (rule arg_cong [of _ _ "\<lambda>f. fold f edges []"]) (simp add: add_outgoing_def fun_eq_iff)

lemma set_dict_append:
  "set (dict_get_default [] (dict_put s (dict_get_default [] m s @ [t]) m) x) =
     set (dict_get_default [] m x) \<union> (if s = x then {t} else {})"
  by (cases "map_of m x") (auto simp: dict_get_default_def map_of_dict_put)

lemma outgoing_targets:
  "set (dict_get_default [] (fold add_outgoing es m) x) =
     set (dict_get_default [] m x) \<union> ge_target ` set (filter (\<lambda>e. ge_source e = x) es)"
proof (induction es arbitrary: m)
  case (Cons e es)
  have "set (dict_get_default [] (add_outgoing e m) x) =
      set (dict_get_default [] m x) \<union> (if ge_source e = x then {ge_target e} else {})"
    unfolding add_outgoing_def by (rule set_dict_append)
  note step = this
  have "set (dict_get_default [] (fold add_outgoing (e # es) m) x) =
      set (dict_get_default [] (add_outgoing e m) x) \<union> ge_target ` set (filter (\<lambda>e. ge_source e = x) es)"
    unfolding fold_Cons comp_def Cons ..
  then show ?case unfolding step by (cases "ge_source e = x") simp_all
qed simp

lemma outgoing_sources: "set (dict_keys (fold add_outgoing es m)) = set (dict_keys m) \<union> ge_source ` set es"
proof (induction es arbitrary: m)
  case (Cons e es)
  have "set (dict_keys (add_outgoing e m)) = insert (ge_source e) (set (dict_keys m))"
    by (auto simp add: add_outgoing_def keys_dict_put)
  then show ?case using Cons [of "add_outgoing e m"] by simp
qed simp

text \<open>
  C23. The terminal nodes of a change are, in graph order, exactly the non-widget nodes with a
  registered class that can be reached from a changed node along edges and are output nodes or have
  no outgoing edge.
\<close>

theorem affected_terminal_nodes_exact:
  "collect_affected_terminal_node_ids classes nodes edges seeds =
     map gn_ui_id (filter (\<lambda>node.
       gn_ui_id node \<in> (edge_rel edges)\<^sup>* `` (set seeds \<inter> gn_ui_id ` set nodes) \<and> gn_type node \<noteq> WIDGET_TYPE \<and>
       (\<exists>c. classes (gn_name node) = Some c \<and> (nc_OUTPUT_NODE c \<or> gn_ui_id node \<notin> ge_source ` set edges))) nodes)"
proof -
  have rel: "adj_rel (\<lambda>_. True) (outgoing_edges_map edges) = edge_rel edges"
    unfolding adj_rel_def outgoing_edges_map_fold edge_rel_def outgoing_targets by (auto simp: dict_get_default_def)
  have keys: "set (dict_keys (outgoing_edges_map edges)) = ge_source ` set edges"
    unfolding outgoing_edges_map_fold outgoing_sources by (simp add: dict_keys_def)
  have seeds: "{x \<in> set (filter (\<lambda>n. n \<in> set (map gn_ui_id nodes)) seeds). True} = set seeds \<inter> gn_ui_id ` set nodes"
    by auto
  show ?thesis
    unfolding collect_affected_terminal_node_ids_def Let_def worklist_closure rel keys seeds
    by (auto intro!: arg_cong [of _ _ "map gn_ui_id"] filter_cong split: option.splits)
qed

theorem affected_terminal_nodes_exact_witness:
  "collect_affected_terminal_node_ids sample_classes sample_graph_nodes sample_graph_edges [''a''] = [''c''] \<and>
   ''c'' \<in> (edge_rel sample_graph_edges)\<^sup>* `` {''a''}"
proof
  show eval: "collect_affected_terminal_node_ids sample_classes sample_graph_nodes sample_graph_edges [''a''] = [''c'']"
    by code_simp
  have "''c'' \<in> set (collect_affected_terminal_node_ids sample_classes sample_graph_nodes sample_graph_edges [''a''])"
    unfolding eval by simp
  then have "''c'' \<in> (edge_rel sample_graph_edges)\<^sup>* `` (set [''a''] \<inter> gn_ui_id ` set sample_graph_nodes)"
    unfolding affected_terminal_nodes_exact by (simp add: image_iff) metis
  then show "''c'' \<in> (edge_rel sample_graph_edges)\<^sup>* `` {''a''}" by auto
qed

end
