(* ===== verification/Pipeline_Validation.thy ===== *)
theory Pipeline_Validation
  imports Graph_Targets
begin

text \<open>
  Validation of a pipeline before it runs (\<^verbatim>\<open>src/pipeline/validation.py\<close>). The registries are
  parameters as in the builder; the texts of the messages are replaced by the branch that raises
  them.
\<close>

section \<open>Results\<close>

datatype node_error =
    NodeClassNotFound
  | RouterOutputsRejoined "node_id list"
  | SourceNodeNotFound node_id string
  | SourceOutputNotFound string node_id
  | TypeMismatch string
  | UnexpectedError

datatype validation_error =
    PipelineEmpty
  | NodeClassesNotFound
  | CycleError "node_id list"
  | GraphValidationError
  | NodesInvalid

record PipelineValidationResult =
  pv_is_valid :: bool
  pv_error_info :: "validation_error option"
  pv_target_nodes :: "node_id list"
  pv_node_errors :: "(node_id, node_error) dict"

section \<open>One node\<close>

text \<open>\<^verbatim>\<open>IO(t) if isinstance(t, str) else t\<close>; a string that is no member raises.\<close>

fun as_io :: "io_type \<Rightarrow> io_type option" where
  "as_io (IoName s) = map_option IoMember (IO_of_value s)"
| "as_io t = Some t"

fun io_compatible :: "io_type \<Rightarrow> io_type \<Rightarrow> bool option" where
  "io_compatible (IoMember out) (IoMember inp) = Some (IO_is_subset out (IO_value inp))"
| "io_compatible (IoMember out) inp = Some (IO_value out = ''*'')"
| "io_compatible out inp = None"

definition router_signal_links ::
    "(string \<Rightarrow> NodeClass option) \<Rightarrow> Pipeline \<Rightarrow> NodeInputLinkValue list \<Rightarrow> (node_id, string list) dict" where
  "router_signal_links classes pipeline lvs =
     fold (\<lambda>lv m.
       case map_of pipeline (lv_node_id lv) of
         None \<Rightarrow> m
       | Some nd \<Rightarrow>
           (case classes (nd_name nd) of
              None \<Rightarrow> m
            | Some c \<Rightarrow>
                if nc_CAN_BE_OUTPUT_NODE c then m
                else dict_put (lv_node_id lv)
                       (set_add (lv_output_name lv) (dict_get_default [] m (lv_node_id lv))) m)) lvs []"

definition validate_router ::
    "(string \<Rightarrow> NodeClass option) \<Rightarrow> Pipeline \<Rightarrow> string \<Rightarrow> NodeInputLinkValue list \<Rightarrow> (node_error, unit) result" where
  "validate_router classes pipeline input_name lvs =
     (if input_name \<noteq> SIGNAL_IN then Inr ()
      else if \<exists>lv \<in> set lvs. (case map_of pipeline (lv_node_id lv) of None \<Rightarrow> False
             | Some nd \<Rightarrow> classes (nd_name nd) = None)
      then Inl NodeClassNotFound
      else case map fst (filter (\<lambda>(n, outs). length outs > 1) (router_signal_links classes pipeline lvs)) of
             [] \<Rightarrow> Inr ()
           | ns \<Rightarrow> Inl (RouterOutputsRejoined ns))"

definition validate_link ::
    "(string \<Rightarrow> NodeDefinition option) \<Rightarrow> Pipeline \<Rightarrow> string \<Rightarrow> io_type \<Rightarrow> NodeInputLinkValue \<Rightarrow> (node_error, unit) result" where
  "validate_link defs pipeline input_name resolved_type lv =
     (case map_of pipeline (lv_node_id lv) of
        None \<Rightarrow> Inl (SourceNodeNotFound (lv_node_id lv) input_name)
      | Some src \<Rightarrow>
          (case defs (nd_name src) of
             None \<Rightarrow> Inl UnexpectedError
           | Some src_def \<Rightarrow>
               (case map_of (df_output_definitions src_def) (lv_output_name lv) of
                  None \<Rightarrow> Inl (SourceOutputNotFound (lv_output_name lv) (lv_node_id lv))
                | Some out \<Rightarrow>
                    (case (as_io resolved_type, as_io (od_type out)) of
                       (Some input_type_io, Some output_type_io) \<Rightarrow>
                         (case io_compatible output_type_io input_type_io of
                            None \<Rightarrow> Inl UnexpectedError
                          | Some True \<Rightarrow> Inr ()
                          | Some False \<Rightarrow> Inl (TypeMismatch input_name))
                     | _ \<Rightarrow> Inl UnexpectedError))))"

fun all_ok :: "('a \<Rightarrow> ('e, unit) result) \<Rightarrow> 'a list \<Rightarrow> ('e, unit) result" where
  "all_ok f [] = Inr ()"
| "all_ok f (x # xs) = bind_result (f x) (\<lambda>_. all_ok f xs)"

definition validate_input ::
    "(string \<Rightarrow> NodeClass option) \<Rightarrow> (string \<Rightarrow> NodeDefinition option) \<Rightarrow> Pipeline \<Rightarrow> NodeClass \<Rightarrow>
     string \<times> NodeRuntimeInputValue \<Rightarrow> (node_error, unit) result" where
  "validate_input classes defs pipeline node_class entry =
     (case entry of (input_name, input_data) \<Rightarrow>
        case map_of (nc_input_fields node_class) input_name of
          None \<Rightarrow> Inr ()
        | Some resolved_type \<Rightarrow>
            let link_values = iter_node_input_link_values input_data in
            bind_result (validate_router classes pipeline input_name link_values)
              (\<lambda>_. all_ok (validate_link defs pipeline input_name resolved_type) link_values))"

definition validate_node ::
    "(string \<Rightarrow> NodeClass option) \<Rightarrow> (string \<Rightarrow> NodeDefinition option) \<Rightarrow> Pipeline \<Rightarrow> NodeData \<Rightarrow> (node_error, unit) result" where
  "validate_node classes defs pipeline nd =
     (case classes (nd_name nd) of
        None \<Rightarrow> Inl NodeClassNotFound
      | Some node_class \<Rightarrow> all_ok (validate_input classes defs pipeline node_class) (nd_inputs nd))"

section \<open>The pipeline\<close>

definition output_targets :: "(string \<Rightarrow> NodeClass option) \<Rightarrow> Pipeline \<Rightarrow> node_id list" where
  "output_targets classes pipeline =
     map fst (filter (\<lambda>(n, nd). case classes (nd_name nd) of None \<Rightarrow> False | Some c \<Rightarrow> nc_OUTPUT_NODE c) pipeline)"

definition missing_classes :: "(string \<Rightarrow> NodeClass option) \<Rightarrow> Pipeline \<Rightarrow> (node_id, node_error) dict" where
  "missing_classes classes pipeline =
     map (\<lambda>(n, nd). (n, NodeClassNotFound)) (filter (\<lambda>(n, nd). classes (nd_name nd) = None) pipeline)"

definition invalid_nodes ::
    "(string \<Rightarrow> NodeClass option) \<Rightarrow> (string \<Rightarrow> NodeDefinition option) \<Rightarrow> Pipeline \<Rightarrow> (node_id, node_error) dict" where
  "invalid_nodes classes defs pipeline =
     concat (map (\<lambda>(n, nd). case validate_node classes defs pipeline nd of Inl e \<Rightarrow> [(n, e)] | Inr _ \<Rightarrow> []) pipeline)"

definition validate_pipeline ::
    "(node_id list \<Rightarrow> node_id list) \<Rightarrow> (string \<Rightarrow> NodeClass option) \<Rightarrow> (string \<Rightarrow> NodeDefinition option) \<Rightarrow> Pipeline \<Rightarrow>
     PipelineValidationResult" where
  "validate_pipeline ord classes defs pipeline =
     (if pipeline = [] then \<lparr>pv_is_valid = False, pv_error_info = Some PipelineEmpty,
        pv_target_nodes = [], pv_node_errors = []\<rparr>
      else let targets = output_targets classes pipeline; errors = missing_classes classes pipeline in
        if errors \<noteq> [] then \<lparr>pv_is_valid = False, pv_error_info = Some NodeClassesNotFound,
          pv_target_nodes = targets, pv_node_errors = errors\<rparr>
        else case topological_sort ord pipeline None of
          Inl (DependencyCycleError ns) \<Rightarrow> \<lparr>pv_is_valid = False, pv_error_info = Some (CycleError ns),
            pv_target_nodes = targets, pv_node_errors = []\<rparr>
        | Inl NodeNotFoundError \<Rightarrow> \<lparr>pv_is_valid = False, pv_error_info = Some GraphValidationError,
            pv_target_nodes = targets, pv_node_errors = []\<rparr>
        | Inr order \<Rightarrow>
            let invalid = invalid_nodes classes defs pipeline in
            if invalid \<noteq> [] then \<lparr>pv_is_valid = False, pv_error_info = Some NodesInvalid,
              pv_target_nodes = targets, pv_node_errors = invalid\<rparr>
            else \<lparr>pv_is_valid = True, pv_error_info = None, pv_target_nodes = targets, pv_node_errors = []\<rparr>)"

section \<open>What a valid pipeline is\<close>

text \<open>The port contract of a link: its source exists and offers a compatible output.\<close>

definition link_ok :: "(string \<Rightarrow> NodeDefinition option) \<Rightarrow> Pipeline \<Rightarrow> io_type \<Rightarrow> NodeInputLinkValue \<Rightarrow> bool" where
  "link_ok defs p t lv \<longleftrightarrow>
     (\<exists>src src_def out ti to. map_of p (lv_node_id lv) = Some src \<and> defs (nd_name src) = Some src_def \<and>
        map_of (df_output_definitions src_def) (lv_output_name lv) = Some out \<and>
        as_io t = Some ti \<and> as_io (od_type out) = Some to \<and> io_compatible to ti = Some True)"

text \<open>A router is a node that cannot be an output; no signal input joins two outputs of one.\<close>

definition is_router :: "(string \<Rightarrow> NodeClass option) \<Rightarrow> Pipeline \<Rightarrow> node_id \<Rightarrow> bool" where
  "is_router classes p n \<longleftrightarrow>
     (\<exists>nd c. map_of p n = Some nd \<and> classes (nd_name nd) = Some c \<and> \<not> nc_CAN_BE_OUTPUT_NODE c)"

definition router_ok :: "(string \<Rightarrow> NodeClass option) \<Rightarrow> Pipeline \<Rightarrow> NodeInputLinkValue list \<Rightarrow> bool" where
  "router_ok classes p lvs \<longleftrightarrow>
     (\<forall>a \<in> set lvs. \<forall>b \<in> set lvs. is_router classes p (lv_node_id a) \<and> lv_node_id a = lv_node_id b \<longrightarrow>
        lv_output_name a = lv_output_name b)"

definition node_ok ::
    "(string \<Rightarrow> NodeClass option) \<Rightarrow> (string \<Rightarrow> NodeDefinition option) \<Rightarrow> Pipeline \<Rightarrow> NodeData \<Rightarrow> bool" where
  "node_ok classes defs p nd \<longleftrightarrow>
     (\<forall>c. classes (nd_name nd) = Some c \<longrightarrow>
       (\<forall>(name, v) \<in> set (nd_inputs nd). \<forall>t. map_of (nc_input_fields c) name = Some t \<longrightarrow>
          (name = SIGNAL_IN \<longrightarrow> router_ok classes p (iter_node_input_link_values v)) \<and>
          (\<forall>lv \<in> set (iter_node_input_link_values v). link_ok defs p t lv)))"

lemma all_ok_iff: "all_ok f xs = Inr () \<longleftrightarrow> (\<forall>x \<in> set xs. f x = Inr ())"
  by (induction xs) (auto simp: bind_result_eq_Inr_iff)

lemma validate_link_iff: "validate_link defs p name t lv = Inr () \<longleftrightarrow> link_ok defs p t lv"
proof (cases "map_of p (lv_node_id lv)")
  case (Some src)
  show ?thesis
  proof (cases "defs (nd_name src)")
    case def: (Some src_def)
    then show ?thesis
      using Some by (cases "map_of (df_output_definitions src_def) (lv_output_name lv)")
        (auto simp: validate_link_def link_ok_def split: option.splits bool.splits)
  qed (use Some in \<open>simp add: validate_link_def link_ok_def\<close>)
qed (simp add: validate_link_def link_ok_def)

section \<open>Router outputs\<close>

definition add_router_link :: "NodeInputLinkValue \<Rightarrow> (node_id, string list) dict \<Rightarrow> (node_id, string list) dict" where
  "add_router_link lv m = dict_put (lv_node_id lv) (set_add (lv_output_name lv) (dict_get_default [] m (lv_node_id lv))) m"

lemma router_signal_links_eq:
  "router_signal_links classes p lvs =
     fold (\<lambda>lv m. if is_router classes p (lv_node_id lv) then add_router_link lv m else m) lvs []"
  unfolding router_signal_links_def
  by (rule arg_cong [of _ _ "\<lambda>f. fold f lvs []"])
     (auto simp: is_router_def add_router_link_def fun_eq_iff split: option.splits)

definition router_state :: "(node_id \<Rightarrow> bool) \<Rightarrow> NodeInputLinkValue list \<Rightarrow> (node_id, string list) dict \<Rightarrow> bool" where
  "router_state R lvs m \<longleftrightarrow> dict_wf m \<and>
     (\<forall>n. case map_of m n of
        None \<Rightarrow> \<not> (R n \<and> n \<in> lv_node_id ` set lvs)
      | Some outs \<Rightarrow> R n \<and> distinct outs \<and> set outs = lv_output_name ` set (filter (\<lambda>lv. lv_node_id lv = n) lvs))"

lemma router_state_step:
  assumes "router_state R lvs m"
  shows "router_state R (lvs @ [lv]) (if R (lv_node_id lv) then add_router_link lv m else m)"
proof (cases "R (lv_node_id lv)")
  case True
  have "dict_wf (add_router_link lv m)" using assms by (auto simp: router_state_def add_router_link_def)
  moreover have "case map_of (add_router_link lv m) n of
      None \<Rightarrow> \<not> (R n \<and> n \<in> lv_node_id ` set (lvs @ [lv]))
    | Some outs \<Rightarrow> R n \<and> distinct outs \<and> set outs = lv_output_name ` set (filter (\<lambda>lv. lv_node_id lv = n) (lvs @ [lv]))" for n
  proof -
    have st: "case map_of m n of None \<Rightarrow> \<not> (R n \<and> n \<in> lv_node_id ` set lvs)
      | Some outs \<Rightarrow> R n \<and> distinct outs \<and> set outs = lv_output_name ` set (filter (\<lambda>lv. lv_node_id lv = n) lvs)"
      using assms unfolding router_state_def by blast
    have none: "set (filter (\<lambda>lv. lv_node_id lv = n) lvs) = {}" if "n \<notin> lv_node_id ` set lvs"
      using that by (auto simp: image_iff)
    show ?thesis
      using st True none by (cases "map_of m n")
        (auto simp: add_router_link_def map_of_dict_put dict_get_default_def set_add_def)
  qed
  ultimately show ?thesis using True by (simp add: router_state_def)
next
  case False
  have "case map_of m n of
      None \<Rightarrow> \<not> (R n \<and> n \<in> lv_node_id ` set (lvs @ [lv]))
    | Some outs \<Rightarrow> R n \<and> distinct outs \<and> set outs = lv_output_name ` set (filter (\<lambda>lv. lv_node_id lv = n) (lvs @ [lv]))" for n
  proof -
    have "case map_of m n of None \<Rightarrow> \<not> (R n \<and> n \<in> lv_node_id ` set lvs)
      | Some outs \<Rightarrow> R n \<and> distinct outs \<and> set outs = lv_output_name ` set (filter (\<lambda>lv. lv_node_id lv = n) lvs)"
      using assms unfolding router_state_def by blast
    then show ?thesis using False by (cases "map_of m n") auto
  qed
  then show ?thesis using False assms by (simp add: router_state_def)
qed

lemma router_state_links:
  "router_state (is_router classes p) lvs (router_signal_links classes p lvs)"
proof -
  have "router_state R (xs @ ys) (fold (\<lambda>lv m. if R (lv_node_id lv) then add_router_link lv m else m) ys m)"
    if "router_state R xs m" for R xs ys m
    using that
  proof (induction ys arbitrary: xs m)
    case (Cons y ys)
    from Cons.IH [OF router_state_step [OF Cons.prems, of y]] show ?case by simp
  qed simp
  from this [of "is_router classes p" "[]" "[]" lvs] show ?thesis
    by (simp add: router_signal_links_eq router_state_def)
qed

lemma distinct_length_le_one: "distinct xs \<Longrightarrow> length xs \<le> 1 \<longleftrightarrow> (\<forall>a \<in> set xs. \<forall>b \<in> set xs. a = b)"
  by (cases xs; cases "tl xs") auto

lemma router_ok_iff:
  "(\<forall>(n, outs) \<in> set (router_signal_links classes p lvs). length outs \<le> 1) \<longleftrightarrow> router_ok classes p lvs"
proof -
  let ?m = "router_signal_links classes p lvs"
  have st: "router_state (is_router classes p) lvs ?m" by (rule router_state_links)
  have wf: "dict_wf ?m" using st by (simp add: router_state_def)
  have look: "case map_of ?m n of None \<Rightarrow> \<not> (is_router classes p n \<and> n \<in> lv_node_id ` set lvs)
      | Some outs \<Rightarrow> is_router classes p n \<and> distinct outs \<and>
          set outs = lv_output_name ` set (filter (\<lambda>lv. lv_node_id lv = n) lvs)" for n
    using st unfolding router_state_def by blast
  have "(\<forall>(n, outs) \<in> set ?m. length outs \<le> 1) \<longleftrightarrow> (\<forall>n outs. map_of ?m n = Some outs \<longrightarrow> length outs \<le> 1)"
    using dict_wf_map_of_iff [OF wf] by auto
  also have "\<dots> \<longleftrightarrow> (\<forall>n. is_router classes p n \<longrightarrow> (\<forall>a \<in> set lvs. \<forall>b \<in> set lvs.
      lv_node_id a = n \<longrightarrow> lv_node_id b = n \<longrightarrow> lv_output_name a = lv_output_name b))"
  proof (rule all_cong1)
    fix n
    show "(\<forall>outs. map_of ?m n = Some outs \<longrightarrow> length outs \<le> 1) \<longleftrightarrow> (is_router classes p n \<longrightarrow>
        (\<forall>a \<in> set lvs. \<forall>b \<in> set lvs. lv_node_id a = n \<longrightarrow> lv_node_id b = n \<longrightarrow> lv_output_name a = lv_output_name b))"
    proof (cases "map_of ?m n")
      case None
      then show ?thesis using look [of n] by auto
    next
      case (Some outs)
      then have "is_router classes p n" "distinct outs"
        "set outs = lv_output_name ` {lv \<in> set lvs. lv_node_id lv = n}" using look [of n] by auto
      then show ?thesis using Some distinct_length_le_one [of outs] by auto
    qed
  qed
  also have "\<dots> \<longleftrightarrow> router_ok classes p lvs"
    unfolding router_ok_def by metis
  finally show ?thesis .
qed

definition classes_known :: "(string \<Rightarrow> NodeClass option) \<Rightarrow> Pipeline \<Rightarrow> bool" where
  "classes_known classes p \<longleftrightarrow> (\<forall>(n, nd) \<in> set p. classes (nd_name nd) \<noteq> None)"

lemma classes_known_lookup: "classes_known classes p \<Longrightarrow> map_of p n = Some nd \<Longrightarrow> classes (nd_name nd) \<noteq> None"
  unfolding classes_known_def using map_of_SomeD by fastforce

lemma validate_router_iff:
  assumes "classes_known classes p"
  shows "validate_router classes p name lvs = Inr () \<longleftrightarrow> (name = SIGNAL_IN \<longrightarrow> router_ok classes p lvs)"
proof -
  have "filter (\<lambda>(n, outs). length outs > 1) (router_signal_links classes p lvs) = [] \<longleftrightarrow> router_ok classes p lvs"
    unfolding router_ok_iff [symmetric] by (auto simp: filter_empty_conv not_less)
  moreover have "\<not> (\<exists>lv \<in> set lvs. (case map_of p (lv_node_id lv) of None \<Rightarrow> False
      | Some nd \<Rightarrow> classes (nd_name nd) = None))"
    using classes_known_lookup [OF assms] by (simp split: option.split)
  ultimately show ?thesis unfolding validate_router_def by (auto split: list.splits)
qed

section \<open>Correctness\<close>

lemma validate_input_iff:
  assumes "classes_known classes p"
  shows "validate_input classes defs p c (name, v) = Inr () \<longleftrightarrow>
    (\<forall>t. map_of (nc_input_fields c) name = Some t \<longrightarrow>
      (name = SIGNAL_IN \<longrightarrow> router_ok classes p (iter_node_input_link_values v)) \<and>
      (\<forall>lv \<in> set (iter_node_input_link_values v). link_ok defs p t lv))"
  using validate_router_iff [OF assms]
  by (auto simp: validate_input_def Let_def bind_result_eq_Inr_iff all_ok_iff validate_link_iff split: option.splits)

lemma validate_node_iff:
  assumes "classes_known classes p" and "classes (nd_name nd) \<noteq> None"
  shows "validate_node classes defs p nd = Inr () \<longleftrightarrow> node_ok classes defs p nd"
proof -
  obtain c where "classes (nd_name nd) = Some c" using assms(2) by blast
  then show ?thesis
    using validate_input_iff [OF assms(1), of defs c]
    by (simp add: validate_node_def node_ok_def all_ok_iff Ball_def split_paired_All)
qed

lemma keys_collect_errors:
  "n \<in> set (dict_keys (concat (map (\<lambda>(n, nd). case f nd of Inl e \<Rightarrow> [(n, e)] | Inr _ \<Rightarrow> []) q))) \<longleftrightarrow>
     (\<exists>nd e. (n, nd) \<in> set q \<and> f nd = Inl e)"
proof (induction q)
  case (Cons x q)
  obtain m nd where "x = (m, nd)" by (cases x)
  then show ?case using Cons by (cases "f nd") (auto simp: dict_keys_def)
qed (simp add: dict_keys_def)

lemma invalid_nodes_iff:
  "n \<in> set (dict_keys (invalid_nodes classes defs p)) \<longleftrightarrow>
     (\<exists>nd. (n, nd) \<in> set p \<and> validate_node classes defs p nd \<noteq> Inr ())"
proof -
  have "(\<exists>e. validate_node classes defs p nd = Inl e) \<longleftrightarrow> validate_node classes defs p nd \<noteq> Inr ()" for nd
    by (cases "validate_node classes defs p nd") auto
  then show ?thesis unfolding invalid_nodes_def keys_collect_errors by blast
qed

text \<open>
  C24. Validation accepts a pipeline exactly when it is not empty, the class of every node is
  registered, its dependencies are acyclic, and every link at a declared input comes from an
  existing node with a compatible output and joins no two outputs of a router. When only the links
  are at fault, the nodes reported are exactly the faulty ones.
\<close>

theorem validation_accepts_exactly_well_formed:
  assumes "dict_wf p" and "\<And>xs. mset (ord xs) = mset xs"
  shows "(pv_is_valid (validate_pipeline ord classes defs p) \<longleftrightarrow>
      p \<noteq> [] \<and> classes_known classes p \<and> acyclic (depends_on p) \<and>
      (\<forall>(n, nd) \<in> set p. node_ok classes defs p nd)) \<and>
    (pv_error_info (validate_pipeline ord classes defs p) = Some NodesInvalid \<longrightarrow>
      set (dict_keys (pv_node_errors (validate_pipeline ord classes defs p))) =
        {n. \<exists>nd. map_of p n = Some nd \<and> \<not> node_ok classes defs p nd})"
proof -
  have missing: "missing_classes classes p = [] \<longleftrightarrow> classes_known classes p"
    by (auto simp: missing_classes_def classes_known_def filter_empty_conv)
  have sort: "topological_sort ord p None = (if acyclic (depends_on p) then Inr (full_order ord p)
      else Inl (DependencyCycleError (filter (\<lambda>n. n \<notin> set (full_order ord p)) (dict_keys p))))"
    using full_order_complete_iff(1) [OF assms] by (simp add: topological_sort_eq)
  have node: "validate_node classes defs p nd = Inr () \<longleftrightarrow> node_ok classes defs p nd"
    if "classes_known classes p" "(n, nd) \<in> set p" for n nd
    using validate_node_iff [OF that(1)] that by (auto simp: classes_known_def)
  have bad: "set (dict_keys (invalid_nodes classes defs p)) = {n. \<exists>nd. (n, nd) \<in> set p \<and> \<not> node_ok classes defs p nd}"
    if "classes_known classes p"
    using invalid_nodes_iff [of _ classes defs p] node [OF that] by blast
  have empty: "invalid_nodes classes defs p = [] \<longleftrightarrow> (\<forall>(n, nd) \<in> set p. node_ok classes defs p nd)"
    if "classes_known classes p"
  proof -
    have "invalid_nodes classes defs p = [] \<longleftrightarrow> set (dict_keys (invalid_nodes classes defs p)) = {}"
      by (simp add: dict_keys_def)
    then show ?thesis unfolding bad [OF that] by blast
  qed
  show ?thesis
    using missing empty bad by (auto simp: validate_pipeline_def Let_def sort dict_wf_map_of_iff [OF assms(1)])
qed

theorem validation_accepts_exactly_well_formed_witness:
  "acyclic (depends_on sample_built) \<and>
   list_all (\<lambda>(n, nd). node_ok sample_classes sample_defs sample_built nd) sample_built"
proof -
  have "pv_is_valid (validate_pipeline id sample_classes sample_defs sample_built)" by code_simp
  moreover have "dict_wf sample_built" by code_simp
  ultimately show ?thesis
    using validation_accepts_exactly_well_formed [of sample_built id sample_classes sample_defs]
    by (simp add: list_all_iff)
qed

end
