(* ===== verification/Variable_Values.thy ===== *)
theory Variable_Values
  imports Node_Inputs
begin

text \<open>
  Typed variables and the resolution of input values: \<^verbatim>\<open>src/node_dsl/variables\<close>
  (\<^verbatim>\<open>type_system.py\<close>, \<^verbatim>\<open>helpers.py\<close>),
  \<^verbatim>\<open>src/node_dsl/input_expressions/coercion.py\<close> and \<^verbatim>\<open>resolve_node_input_value\<close> of
  \<^verbatim>\<open>src/node_dsl/core/input_values/helpers.py\<close>.

  The conversions of Pydantic, the JSON decoder, \<^verbatim>\<open>str\<close> on values and the Jinja evaluator are
  the fields of the environment \<open>value_env\<close>; they return the text of the error where they raise
  \<^verbatim>\<open>ValueError\<close>. Sets are not among the values of the model, and durations are unbounded
  (\<^verbatim>\<open>timedelta\<close> overflows beyond 999999999 days).
\<close>

section \<open>Environment\<close>

record value_env =
  ve_str :: "pyval \<Rightarrow> string"
  ve_bool_adapter :: "pyval \<Rightarrow> (string, pyval) result"
  ve_int_adapter :: "pyval \<Rightarrow> (string, pyval) result"
  ve_float_adapter :: "pyval \<Rightarrow> (string, pyval) result"
  ve_datetime_adapter :: "pyval \<Rightarrow> (string, pyval) result"
  ve_timedelta_adapter :: "pyval \<Rightarrow> (string, pyval) result"
  ve_json_loads :: "string \<Rightarrow> pyval option"
  ve_evaluate :: "string \<Rightarrow> (string, pyval) dict \<Rightarrow> (string, pyval) dict \<Rightarrow> expression_kind \<Rightarrow> string option \<Rightarrow>
    (string, pyval) result"

section \<open>Variable types\<close>

definition VARIABLE_SCALAR_IOS :: "IO list" where
  "VARIABLE_SCALAR_IOS = [IO_STRING, IO_BOOLEAN, IO_INT, IO_FLOAT, IO_DATETIME, IO_TIMEDELTA, IO_JSON]"

definition LIST_VARIABLE_SCALAR_IOS :: "IO list" where
  "LIST_VARIABLE_SCALAR_IOS = [IO_STRING, IO_BOOLEAN, IO_INT, IO_FLOAT, IO_DATETIME, IO_TIMEDELTA]"

definition EXPRESSION_VARIABLE_SCALAR_IOS :: "IO list" where
  "EXPRESSION_VARIABLE_SCALAR_IOS =
     [IO_STRING, IO_BOOLEAN, IO_INT, IO_FLOAT, IO_DATETIME, IO_TIMEDELTA, IO_JSON]"

definition unsupported_type :: "string \<Rightarrow> string" where
  "unsupported_type s = ''Unsupported variable type '' @ CHR 0x27 # s @ [CHR 0x27, CHR ''.'']"

fun normalize_variable_scalar_type :: "io_type \<Rightarrow> (string, IO) result" where
  "normalize_variable_scalar_type (IoMember io) =
     (if io \<in> set VARIABLE_SCALAR_IOS then Inr io else Inl (unsupported_type (IO_value io)))"
| "normalize_variable_scalar_type (IoName s) =
     (case IO_of_value s of
        None \<Rightarrow> Inl (unsupported_type s)
      | Some io \<Rightarrow> if io \<in> set VARIABLE_SCALAR_IOS then Inr io else Inl (unsupported_type (IO_value io)))"
| "normalize_variable_scalar_type (IoList ts) = Inl (unsupported_type ''list'')"

fun normalize_variable_scalar_target :: "io_type option \<Rightarrow> IO option" where
  "normalize_variable_scalar_target None = None"
| "normalize_variable_scalar_target (Some (IoList [])) = None"
| "normalize_variable_scalar_target (Some (IoList (t # ts))) =
     (case normalize_variable_scalar_type t of Inl e \<Rightarrow> None | Inr io \<Rightarrow> Some io)"
| "normalize_variable_scalar_target (Some t) =
     (case normalize_variable_scalar_type t of Inl e \<Rightarrow> None | Inr io \<Rightarrow> Some io)"

definition is_variable_scalar_type :: "io_type \<Rightarrow> bool" where
  "is_variable_scalar_type t = (case normalize_variable_scalar_type t of Inl e \<Rightarrow> False | Inr io \<Rightarrow> True)"

definition ensure_expression_supported_variable_type :: "io_type \<Rightarrow> (string, IO) result" where
  "ensure_expression_supported_variable_type t =
     bind_result (normalize_variable_scalar_type t)
       (\<lambda>io. if io \<notin> set EXPRESSION_VARIABLE_SCALAR_IOS
             then Inl (''Expressions are supported only for STRING/BOOLEAN/INT/FLOAT/DATETIME/TIMEDELTA variables, got ''
               @ CHR 0x27 # IO_value io @ [CHR 0x27, CHR ''.'']) else Inr io)"

definition ensure_list_supported_variable_type :: "io_type \<Rightarrow> (string, IO) result" where
  "ensure_list_supported_variable_type t =
     bind_result (normalize_variable_scalar_type t)
       (\<lambda>io. if io \<notin> set LIST_VARIABLE_SCALAR_IOS
             then Inl (''List variables are supported only for STRING/BOOLEAN/INT/FLOAT/DATETIME/TIMEDELTA types, got ''
               @ CHR 0x27 # IO_value io @ [CHR 0x27, CHR ''.'']) else Inr io)"

section \<open>Durations in words\<close>

definition is_space :: "char \<Rightarrow> bool" where
  "is_space c \<longleftrightarrow> c \<in> {CHR '' '', CHR 0x09, CHR 0x0A, CHR 0x0B, CHR 0x0C, CHR 0x0D}"

definition is_digit :: "char \<Rightarrow> bool" where
  "is_digit c \<longleftrightarrow> c \<in> set ''0123456789''"

definition digit_value :: "char \<Rightarrow> nat" where
  "digit_value c = of_char c - of_char (CHR ''0'')"

definition int_of_digits :: "string \<Rightarrow> nat" where
  "int_of_digits s = fold (\<lambda>c n. 10 * n + digit_value c) s 0"

definition lower_char :: "char \<Rightarrow> char" where
  "lower_char c = (if of_char c \<ge> (65::nat) \<and> of_char c \<le> (90::nat) then char_of (of_char c + (32::nat)) else c)"

definition strip_left :: "string \<Rightarrow> string" where
  "strip_left s = dropWhile is_space s"

text \<open>The longest of the spellings of a unit that the text starts with, ignoring case.\<close>

fun match_word :: "string list \<Rightarrow> string \<Rightarrow> string option" where
  "match_word [] s = None"
| "match_word (w # ws) s =
     (if length w \<le> length s \<and> map lower_char (take (length w) s) = w
      then Some (drop (length w) s) else match_word ws s)"

text \<open>An optional group \<open>digits spaces unit spaces\<close> of the pattern; a group that does not match is 0.\<close>

definition match_unit :: "string list \<Rightarrow> string \<Rightarrow> nat \<times> string" where
  "match_unit ws s =
     (let ds = takeWhile is_digit s in
      if ds = [] then (0, s)
      else case match_word ws (strip_left (dropWhile is_digit s)) of
             None \<Rightarrow> (0, s)
           | Some rest \<Rightarrow> (int_of_digits ds, strip_left rest))"

definition match_sign :: "string \<Rightarrow> bool \<times> string" where
  "match_sign s =
     (case s of c # cs \<Rightarrow> if c = CHR ''-'' then (True, cs) else if c = CHR ''+'' then (False, cs) else (False, s)
      | [] \<Rightarrow> (False, s))"

definition MICROS :: int where "MICROS = 1000000"

definition parse_human_timedelta :: "string \<Rightarrow> int option" where
  "parse_human_timedelta value =
     (let (negative, s0) = match_sign (strip_left value);
          (weeks, s1) = match_unit [''weeks'', ''week'', ''w''] (strip_left s0);
          (days, s2) = match_unit [''days'', ''day'', ''d''] s1;
          (hours, s3) = match_unit [''hours'', ''hour'', ''h''] s2;
          (minutes, s4) = match_unit [''minutes'', ''minute'', ''min'', ''m''] s3;
          (seconds, s5) = match_unit [''seconds'', ''second'', ''sec'', ''s''] s4;
          total = MICROS * (int weeks * 604800 + int days * 86400 + int hours * 3600 + int minutes * 60 + int seconds)
      in if strip_left s5 = [] then Some (if negative then - total else total) else None)"

definition coerce_timedelta_value :: "value_env \<Rightarrow> pyval \<Rightarrow> (string, pyval) result" where
  "coerce_timedelta_value ve v =
     (case v of
        PyTimedelta d \<Rightarrow> Inr v
      | PyStr s \<Rightarrow> (case parse_human_timedelta s of Some d \<Rightarrow> Inr (PyTimedelta d) | None \<Rightarrow> ve_timedelta_adapter ve v)
      | _ \<Rightarrow> ve_timedelta_adapter ve v)"

section \<open>Coercion\<close>

fun is_py_bool :: "pyval \<Rightarrow> bool" where
  "is_py_bool (PyBool b) = True"
| "is_py_bool v = False"

definition coerce_scalar_variable_value :: "value_env \<Rightarrow> pyval \<Rightarrow> io_type \<Rightarrow> bool \<Rightarrow> (string, pyval) result" where
  "coerce_scalar_variable_value ve v t allow_none =
     bind_result (normalize_variable_scalar_type t) (\<lambda>io.
       if v = PyNone then if allow_none then Inr PyNone else Inl (IO_value io @ '' variable value cannot be null.'')
       else case io of
           IO_STRING \<Rightarrow> Inr (PyStr (ve_str ve v))
         | IO_BOOLEAN \<Rightarrow> ve_bool_adapter ve v
         | IO_INT \<Rightarrow> if is_py_bool v then Inl ''INT variable value must not be boolean.'' else ve_int_adapter ve v
         | IO_FLOAT \<Rightarrow> if is_py_bool v then Inl ''FLOAT variable value must not be boolean.'' else ve_float_adapter ve v
         | IO_DATETIME \<Rightarrow> ve_datetime_adapter ve v
         | IO_TIMEDELTA \<Rightarrow> coerce_timedelta_value ve v
         | _ \<Rightarrow> Inr v)"

definition normalize_variable_list_items :: "value_env \<Rightarrow> pyval \<Rightarrow> bool \<Rightarrow> (string, pyval list) result" where
  "normalize_variable_list_items ve v parse_json_strings =
     bind_result
       (case v of
          PyStr s \<Rightarrow>
            if \<not> parse_json_strings then Inl ''List variable value must be a list-like value, got string.''
            else (case ve_json_loads ve s of
                    None \<Rightarrow> Inl ''List variable value must be a list-like value, got string.''
                  | Some d \<Rightarrow> Inr d)
        | _ \<Rightarrow> Inr v)
       (\<lambda>w. case w of
          PyTuple xs \<Rightarrow> Inr xs
        | PyList xs \<Rightarrow> Inr xs
        | _ \<Rightarrow> Inl ''List variable value must be a list-like value'')"

definition coerce_list_variable_value ::
    "value_env \<Rightarrow> pyval \<Rightarrow> io_type \<Rightarrow> bool \<Rightarrow> bool \<Rightarrow> (string, pyval) result" where
  "coerce_list_variable_value ve v t allow_none parse_json_strings =
     bind_result (ensure_list_supported_variable_type t) (\<lambda>io.
       if v = PyNone then if allow_none then Inr PyNone else Inl ''List variable value cannot be null.''
       else bind_result (normalize_variable_list_items ve v parse_json_strings) (\<lambda>items.
         bind_result
           (map_result (\<lambda>item. if item = PyNone then Inl ''List variable items cannot be null.''
              else coerce_scalar_variable_value ve item (IoMember io) False) items)
           (\<lambda>xs. Inr (PyList xs))))"

fun infer_variable_scalar_type_from_value :: "IO \<Rightarrow> pyval \<Rightarrow> IO" where
  "infer_variable_scalar_type_from_value dflt (PyBool b) = IO_BOOLEAN"
| "infer_variable_scalar_type_from_value dflt (PyInt i) = IO_INT"
| "infer_variable_scalar_type_from_value dflt (PyFloat r) = IO_FLOAT"
| "infer_variable_scalar_type_from_value dflt (PyDatetime d) = IO_DATETIME"
| "infer_variable_scalar_type_from_value dflt (PyTimedelta d) = IO_TIMEDELTA"
| "infer_variable_scalar_type_from_value dflt (PyStr s) = IO_STRING"
| "infer_variable_scalar_type_from_value dflt (PyDict m) = IO_JSON"
| "infer_variable_scalar_type_from_value dflt (PyList xs) = IO_JSON"
| "infer_variable_scalar_type_from_value dflt (PyTuple xs) = IO_JSON"
| "infer_variable_scalar_type_from_value dflt v = dflt"

definition infer_list_item_variable_type_from_value :: "pyval list \<Rightarrow> (string, IO) result" where
  "infer_list_item_variable_type_from_value items =
     (if items = [] then Inl ''Cannot infer list item type from an empty list. Set `target_dtype` explicitly.''
      else bind_result
        (map_result (\<lambda>item.
           if item = PyNone then Inl ''Cannot infer list item type when list contains null items.''
           else let t = infer_variable_scalar_type_from_value IO_JSON item
                in if t \<notin> set LIST_VARIABLE_SCALAR_IOS
                   then Inl ''List variables support only STRING/BOOLEAN/INT/FLOAT/DATETIME/TIMEDELTA items.''
                   else Inr t) items)
        (\<lambda>ts. case remdups ts of [t] \<Rightarrow> Inr t
              | _ \<Rightarrow> Inl ''Cannot infer list item type from a mixed list. Set `target_dtype` explicitly.''))"

section \<open>Unresolved values\<close>

fun is_unresolved_value :: "pyval \<Rightarrow> bool" where
  "is_unresolved_value (PyUnresolved reason ty is_list) = True"
| "is_unresolved_value v = False"

definition make_unresolved_value :: "string option \<Rightarrow> io_type option \<Rightarrow> bool \<Rightarrow> pyval" where
  "make_unresolved_value reason declared_type is_list_type = PyUnresolved reason declared_type is_list_type"

definition coerce_variable_value :: "value_env \<Rightarrow> pyval \<Rightarrow> io_type \<Rightarrow> bool \<Rightarrow> bool \<Rightarrow> bool \<Rightarrow> (string, pyval) result" where
  "coerce_variable_value ve v t allow_none is_list_type parse_json_strings =
     (if is_unresolved_value v then Inr v
      else if is_list_type then coerce_list_variable_value ve v t allow_none parse_json_strings
      else coerce_scalar_variable_value ve v t allow_none)"

text \<open>An UNSET default is None here.\<close>

definition resolve_literal_input_value :: "NodeRuntimeInputValue + pyval \<Rightarrow> (string, pyval) result" where
  "resolve_literal_input_value raw =
     (case raw of
        Inl (ConstantValue v) \<Rightarrow> Inr v
      | Inl _ \<Rightarrow> Inl ''must be a literal value.''
      | Inr v \<Rightarrow> Inr v)"

definition apply_nullable_default_policy ::
    "pyval \<Rightarrow> bool \<Rightarrow> (NodeRuntimeInputValue + pyval) option \<Rightarrow> (pyval \<Rightarrow> (string, pyval) result) \<Rightarrow> string \<Rightarrow>
     (string, pyval) result" where
  "apply_nullable_default_policy v nullable default_value resolver null_error =
     (if is_unresolved_value v then Inr v
      else if v \<noteq> PyNone then Inr v
      else case default_value of
             Some d \<Rightarrow> bind_result (resolve_literal_input_value d) resolver
           | None \<Rightarrow> if nullable then Inr PyNone else Inl null_error)"

fun build_variable_output :: "string \<Rightarrow> pyval \<Rightarrow> (string, pyval) result" where
  "build_variable_output name (PyVariable n ty v scope is_list) =
     (if n \<noteq> name then Inl ''Variable payload name does not match key'' else Inr (PyVariable n ty v scope is_list))"
| "build_variable_output name (PyDict m) =
     (if dict_get_default (PyStr name) m ''name'' \<noteq> PyStr name then Inl ''Variable payload name does not match key''
      else bind_result
        (case dict_get_default PyNone m ''type'' of
           PyStr s \<Rightarrow> normalize_variable_scalar_type (IoName s)
         | _ \<Rightarrow> Inl ''Unsupported variable type'')
        (\<lambda>ty.
          let is_list = py_truthy (dict_get_default (PyBool False) m ''is_list_type'');
              scope = dict_get_default (PyStr ''user'') m ''var_type''
          in bind_result (if is_list then ensure_list_supported_variable_type (IoMember ty) else Inr ty)
               (\<lambda>_. if scope = PyStr ''user'' \<or> scope = PyStr ''system''
                    then Inr (PyVariable name ty (dict_get_default PyNone m ''value'')
                           (case scope of PyStr s \<Rightarrow> s | _ \<Rightarrow> []) is_list)
                    else Inl ''unsupported var_type'')))"
| "build_variable_output name v = Inl ''must be a VariableOutput or mapping payload.''"

section \<open>Resolution of input values\<close>

fun copy_json_containers :: "pyval \<Rightarrow> pyval" where
  "copy_json_containers (PyDict m) = PyDict (map (\<lambda>(k, v). (k, copy_json_containers v)) m)"
| "copy_json_containers (PyList xs) = PyList (map copy_json_containers xs)"
| "copy_json_containers (PyTuple xs) = PyList (map copy_json_containers xs)"
| "copy_json_containers v = v"

definition expression_error :: "string \<Rightarrow> string" where
  "expression_error e =
     (if e = ''INT variable value must not be boolean.'' then ''Expression result for INT input must not be boolean.''
      else if e = ''FLOAT variable value must not be boolean.''
      then ''Expression result for FLOAT input must not be boolean.'' else e)"

definition coerce_expression_result ::
    "value_env \<Rightarrow> pyval \<Rightarrow> io_type option \<Rightarrow> bool \<Rightarrow> bool \<Rightarrow> bool \<Rightarrow> (string, pyval) result" where
  "coerce_expression_result ve v target_type is_list_type allow_unresolved allow_none =
     (case normalize_variable_scalar_target target_type of
        None \<Rightarrow> Inr v
      | Some io \<Rightarrow>
          if is_unresolved_value v then Inr v
          else if v = PyNone then
            if allow_none then Inr PyNone
            else if allow_unresolved
            then Inr (make_unresolved_value (Some (''Expression result for '' @ IO_value io @ '' input cannot be null.''))
                        (Some (IoMember io)) False)
            else Inl (''Expression result for '' @ IO_value io @ '' input cannot be null.'')
          else
            let w = (if io = IO_JSON then copy_json_containers v else v);
                r = (if is_list_type then coerce_list_variable_value ve w (IoMember io) allow_none False
                     else coerce_scalar_variable_value ve w (IoMember io) allow_none)
            in (case r of Inl e \<Rightarrow> Inl (expression_error e) | Inr x \<Rightarrow> Inr x))"

definition unwrap_variable :: "pyval \<Rightarrow> pyval" where
  "unwrap_variable v =
     (case v of
        PyDict m \<Rightarrow> if ''name'' \<in> set (dict_keys m) \<and> ''value'' \<in> set (dict_keys m)
                    then dict_get_default PyNone m ''value'' else v
      | _ \<Rightarrow> if py_hasattr ''name'' v \<and> py_hasattr ''value'' v then py_getattr ''value'' v else v)"

definition link_object :: "NodeInputLinkValue \<Rightarrow> pyval" where
  "link_object lv = PyObject ''NodeInputLinkValue''
     [(''node_id'', PyStr (lv_node_id lv)), (''output_name'', PyStr (lv_output_name lv))]"

text \<open>\<open>raw\<close> is a parsed input value or a plain value.\<close>

definition resolve_node_input_value ::
    "value_env \<Rightarrow> NodeRuntimeInputValue + pyval \<Rightarrow> (string, pyval) dict \<Rightarrow> (string, pyval) dict \<Rightarrow> io_type option \<Rightarrow>
     bool \<Rightarrow> bool \<Rightarrow> string option \<Rightarrow> bool \<Rightarrow> bool \<Rightarrow> (string, pyval) result" where
  "resolve_node_input_value ve raw variables project_variables target_type is_list_type allow_expressions
       expression_policy allow_unresolved allow_none =
     (case raw of
        Inl (ConstantValue v) \<Rightarrow> Inr v
      | Inl (ExpressionValue text kind) \<Rightarrow>
          if \<not> allow_expressions then Inl ''Expressions are not enabled for this input.''
          else
            let unwrap = map (\<lambda>(k, v). (k, unwrap_variable v));
                r = bind_result (ve_evaluate ve text (unwrap variables) (unwrap project_variables) kind expression_policy)
                      (\<lambda>v. coerce_expression_result ve v target_type is_list_type allow_unresolved allow_none)
            in (case r of
                  Inr v \<Rightarrow> Inr v
                | Inl e \<Rightarrow> if allow_unresolved then Inr (make_unresolved_value (Some e) target_type False) else Inl e)
      | Inl (LinkValue lv) \<Rightarrow> Inr (link_object lv)
      | Inl (LinkValues lvs) \<Rightarrow> Inr (PyList (map link_object lvs))
      | Inr v \<Rightarrow> Inr v)"

definition null_message :: "bool \<Rightarrow> IO \<Rightarrow> string" where
  "null_message is_list_type io =
     (if is_list_type then ''List variable value cannot be null.''
      else IO_value io @ '' variable value cannot be null.'')"

definition resolve_variable_runtime_value ::
    "value_env \<Rightarrow> NodeRuntimeInputValue + pyval \<Rightarrow> (string, pyval) dict \<Rightarrow> io_type \<Rightarrow> bool \<Rightarrow> bool \<Rightarrow>
     (NodeRuntimeInputValue + pyval) option \<Rightarrow> bool \<Rightarrow> (string, pyval) result" where
  "resolve_variable_runtime_value ve raw variables variable_type allow_unresolved nullable default_value is_list_type =
     bind_result (normalize_variable_scalar_type variable_type) (\<lambda>io.
     bind_result (if is_list_type then ensure_list_supported_variable_type (IoMember io) else Inr io) (\<lambda>_.
       let t = IoMember io;
           coerce = (\<lambda>v. coerce_variable_value ve v t True is_list_type False);
           policy = (\<lambda>v. apply_nullable_default_policy v nullable default_value coerce (null_message is_list_type io));
           fail = (\<lambda>e. if allow_unresolved then Inr (make_unresolved_value (Some e) (Some t) is_list_type) else Inl e)
       in case raw of
            Inl (ExpressionValue text kind) \<Rightarrow>
              if is_list_type \<and> kind \<noteq> Single then fail ''List variables support only single expressions.''
              else (case (if is_list_type then Inr io else ensure_expression_supported_variable_type t) of
                Inl e \<Rightarrow> fail e
              | Inr _ \<Rightarrow>
                  bind_result (resolve_node_input_value ve raw variables [] (if is_list_type then None else Some t)
                      False True (Some ''default'') allow_unresolved True)
                    (\<lambda>v. case v of
                       PyUnresolved reason ty l \<Rightarrow> Inr (make_unresolved_value reason (Some t) True)
                     | _ \<Rightarrow> (case coerce v of Inl e \<Rightarrow> fail e | Inr x \<Rightarrow> policy x)))
          | Inl (ConstantValue v) \<Rightarrow> bind_result (coerce v) policy
          | Inl _ \<Rightarrow> Inl ''Variable links are not supported when defining variable values.''
          | Inr v \<Rightarrow> bind_result (coerce v) policy))"

end
