(* ===== verification/Variable_Types.thy ===== *)
theory Variable_Types
  imports Variable_Values
begin

text \<open>
  Properties of variable values: the text form of durations, the types of coerced values, and what
  the resolution of an expression may return.
\<close>

section \<open>Durations\<close>

fun digits :: "nat \<Rightarrow> string" where
  "digits n = (if n < 10 then [char_of (48 + n)] else digits (n div 10) @ [char_of (48 + n mod 10)])"

declare digits.simps [simp del]

lemma digit_chars:
  "list_all (\<lambda>d::nat. digit_value (char_of (48 + d)) = d \<and> is_digit (char_of (48 + d))) [0..<10]"
  by code_simp

lemma digit_char: "d < 10 \<Longrightarrow> digit_value (char_of (48 + d)) = d \<and> is_digit (char_of (48 + d))" for d :: nat
  using digit_chars by (simp only: list_all_iff set_upt atLeastLessThan_iff) simp

lemma int_of_digits_snoc: "int_of_digits (s @ [c]) = 10 * int_of_digits s + digit_value c"
  by (simp add: int_of_digits_def)

lemma int_of_digits_digits: "int_of_digits (digits n) = n"
proof (induction n rule: digits.induct)
  case (1 n)
  show ?case
  proof (cases "n < 10")
    case True
    then show ?thesis using digit_char [OF True] by (simp add: digits.simps [of n] int_of_digits_def)
  next
    case False
    then show ?thesis using 1 digit_char [of "n mod 10"] by (simp add: digits.simps [of n] int_of_digits_snoc)
  qed
qed

lemma digits_all: "list_all is_digit (digits n) \<and> digits n \<noteq> []"
proof (induction n rule: digits.induct)
  case (1 n)
  then show ?case using digit_char [of n] digit_char [of "n mod 10"] by (simp add: digits.simps [of n])
qed

lemma takeWhile_digits:
  assumes "\<not> is_digit c"
  shows "takeWhile is_digit (digits n @ c # s) = digits n" and "dropWhile is_digit (digits n @ c # s) = c # s"
  using digits_all [of n] assms by (auto simp: list_all_iff takeWhile_append dropWhile_append)

lemma digits_no_space: "strip_left (digits n @ s) = digits n @ s"
proof -
  obtain c cs where cs: "digits n = c # cs" using digits_all [of n] by (cases "digits n") auto
  have "is_digit c" using digits_all [of n] cs by simp
  then have "\<not> is_space c" by (auto simp: is_digit_def is_space_def)
  then show ?thesis by (simp add: cs strip_left_def)
qed

text \<open>The canonical text of a duration.\<close>

definition unit_text :: "nat \<Rightarrow> char \<Rightarrow> string" where
  "unit_text n c = digits n @ [c, CHR '' '']"

definition human_timedelta :: "bool \<Rightarrow> nat \<Rightarrow> nat \<Rightarrow> nat \<Rightarrow> nat \<Rightarrow> nat \<Rightarrow> string" where
  "human_timedelta negative w d h m s =
     (if negative then ''-'' else []) @ unit_text w (CHR ''w'') @ unit_text d (CHR ''d'') @
     unit_text h (CHR ''h'') @ unit_text m (CHR ''m'') @ unit_text s (CHR ''s'')"

lemma match_unit_text:
  assumes "match_word ws (c # CHR '' '' # rest) = Some (CHR '' '' # rest)"
    and "\<not> is_digit c" and "\<not> is_space c" and "strip_left rest = rest"
  shows "match_unit ws (unit_text n c @ rest) = (n, rest)"
proof -
  have "unit_text n c @ rest = digits n @ c # CHR '' '' # rest" by (simp add: unit_text_def)
  moreover have "strip_left (c # CHR '' '' # rest) = c # CHR '' '' # rest" using assms(3) by (simp add: strip_left_def)
  moreover have "strip_left (CHR '' '' # rest) = rest" using assms(4) by (simp add: strip_left_def is_space_def)
  ultimately show ?thesis
    using assms(1,2) digits_all [of n] by (simp add: match_unit_def takeWhile_digits int_of_digits_digits Let_def)
qed

lemma strip_unit_text: "strip_left (unit_text n c @ s) = unit_text n c @ s"
  by (simp add: unit_text_def digits_no_space)

lemma unit_words:
  "match_word [''weeks'', ''week'', ''w''] (CHR ''w'' # CHR '' '' # r) = Some (CHR '' '' # r)"
  "match_word [''days'', ''day'', ''d''] (CHR ''d'' # CHR '' '' # r) = Some (CHR '' '' # r)"
  "match_word [''hours'', ''hour'', ''h''] (CHR ''h'' # CHR '' '' # r) = Some (CHR '' '' # r)"
  "match_word [''minutes'', ''minute'', ''min'', ''m''] (CHR ''m'' # CHR '' '' # r) = Some (CHR '' '' # r)"
  "match_word [''seconds'', ''second'', ''sec'', ''s''] (CHR ''s'' # CHR '' '' # r) = Some (CHR '' '' # r)"
  by (simp_all add: lower_char_def)

lemma unit_letters:
  "\<not> is_digit (CHR ''w'')" "\<not> is_digit (CHR ''d'')" "\<not> is_digit (CHR ''h'')" "\<not> is_digit (CHR ''m'')" "\<not> is_digit (CHR ''s'')"
  "\<not> is_space (CHR ''w'')" "\<not> is_space (CHR ''d'')" "\<not> is_space (CHR ''h'')" "\<not> is_space (CHR ''m'')" "\<not> is_space (CHR ''s'')"
  by (simp_all add: is_digit_def is_space_def)

lemma match_sign_text:
  "match_sign (strip_left ((if negative then ''-'' else []) @ unit_text n c @ s)) = (negative, unit_text n c @ s)"
proof -
  obtain x xs where xs: "digits n = x # xs" using digits_all [of n] by (cases "digits n") auto
  have "is_digit x" using digits_all [of n] xs by simp
  then have "x \<noteq> CHR ''-'' \<and> x \<noteq> CHR ''+'' \<and> \<not> is_space x" by (auto simp: is_digit_def is_space_def)
  then show ?thesis by (simp add: match_sign_def strip_left_def unit_text_def xs is_space_def)
qed

text \<open>
  C25. Writing a duration as weeks, days, hours, minutes and seconds with an optional minus sign
  and parsing the text gives back the duration.
\<close>

theorem human_timedelta_round_trip:
  "parse_human_timedelta (human_timedelta negative w d h m s) =
     Some ((if negative then -1 else 1) *
       (1000000 * (int w * 604800 + int d * 86400 + int h * 3600 + int m * 60 + int s)))"
proof -
  note unit = match_unit_text [OF unit_words(1) unit_letters(1,6)] match_unit_text [OF unit_words(2) unit_letters(2,7)]
    match_unit_text [OF unit_words(3) unit_letters(3,8)] match_unit_text [OF unit_words(4) unit_letters(4,9)]
  have last: "match_unit [''seconds'', ''second'', ''sec'', ''s''] (unit_text s (CHR ''s'')) = (s, [])"
    using match_unit_text [OF unit_words(5) unit_letters(5,10), of "[]" s] by (simp add: strip_left_def)
  have tail: "strip_left (unit_text s (CHR ''s'')) = unit_text s (CHR ''s'')"
    using strip_unit_text [of s "CHR ''s''" "[]"] by simp
  show ?thesis
    unfolding parse_human_timedelta_def human_timedelta_def match_sign_text
    by (simp add: strip_unit_text unit last tail Let_def MICROS_def) (simp add: strip_left_def)
qed

section \<open>Types of coerced values\<close>

fun value_has_type :: "IO \<Rightarrow> pyval \<Rightarrow> bool" where
  "value_has_type IO_STRING v = (\<exists>s. v = PyStr s)"
| "value_has_type IO_BOOLEAN v = (\<exists>b. v = PyBool b)"
| "value_has_type IO_INT v = (\<exists>i. v = PyInt i)"
| "value_has_type IO_FLOAT v = (\<exists>r. v = PyFloat r)"
| "value_has_type IO_DATETIME v = (\<exists>d. v = PyDatetime d)"
| "value_has_type IO_TIMEDELTA v = (\<exists>d. v = PyTimedelta d)"
| "value_has_type io v = (v \<noteq> PyNone)"

text \<open>The documented contract of the Pydantic adapters: an adapter for a type returns values of it.\<close>

definition adapters_typed :: "value_env \<Rightarrow> bool" where
  "adapters_typed ve \<longleftrightarrow>
     (\<forall>v x. ve_bool_adapter ve v = Inr x \<longrightarrow> value_has_type IO_BOOLEAN x) \<and>
     (\<forall>v x. ve_int_adapter ve v = Inr x \<longrightarrow> value_has_type IO_INT x) \<and>
     (\<forall>v x. ve_float_adapter ve v = Inr x \<longrightarrow> value_has_type IO_FLOAT x) \<and>
     (\<forall>v x. ve_datetime_adapter ve v = Inr x \<longrightarrow> value_has_type IO_DATETIME x) \<and>
     (\<forall>v x. ve_timedelta_adapter ve v = Inr x \<longrightarrow> value_has_type IO_TIMEDELTA x)"

lemma coerce_timedelta_typed:
  "adapters_typed ve \<Longrightarrow> coerce_timedelta_value ve v = Inr x \<Longrightarrow> value_has_type IO_TIMEDELTA x"
  by (auto simp: coerce_timedelta_value_def adapters_typed_def split: pyval.splits option.splits)

lemma normalize_scalar_member:
  "normalize_variable_scalar_type t = Inr io \<Longrightarrow> io \<in> set VARIABLE_SCALAR_IOS"
  by (cases t) (auto split: if_splits option.splits)

lemma coerce_scalar_typed:
  assumes "adapters_typed ve" and "coerce_scalar_variable_value ve v t allow_none = Inr x"
    and "normalize_variable_scalar_type t = Inr io"
  shows "value_has_type io x \<or> (x = PyNone \<and> v = PyNone \<and> allow_none)"
proof (cases "v = PyNone")
  case True
  then show ?thesis using assms by (auto simp: coerce_scalar_variable_value_def split: if_splits)
next
  case False
  have "io \<in> set VARIABLE_SCALAR_IOS" using assms(3) by (rule normalize_scalar_member)
  then show ?thesis
    using False assms coerce_timedelta_typed [OF assms(1)]
    by (auto simp: coerce_scalar_variable_value_def VARIABLE_SCALAR_IOS_def adapters_typed_def split: if_splits)
qed

lemma coerce_list_typed:
  assumes "adapters_typed ve" and "coerce_list_variable_value ve v t allow_none json = Inr x"
    and "normalize_variable_scalar_type t = Inr io"
  shows "(\<exists>xs. x = PyList xs \<and> (\<forall>y \<in> set xs. value_has_type io y)) \<or> (x = PyNone \<and> v = PyNone \<and> allow_none)"
proof (cases "v = PyNone")
  case True
  then show ?thesis using assms(2) by (auto simp: coerce_list_variable_value_def bind_result_eq_Inr_iff split: if_splits)
next
  case False
  have io: "ensure_list_supported_variable_type t = Inr io' \<Longrightarrow> io' = io" for io'
    using assms(3) by (auto simp: ensure_list_supported_variable_type_def split: if_splits)
  obtain items xs where xs: "x = PyList xs"
    and map: "map_result (\<lambda>item. if item = PyNone then Inl ''List variable items cannot be null.''
      else coerce_scalar_variable_value ve item (IoMember io) False) items = Inr xs"
    using assms(2) False io by (auto simp: coerce_list_variable_value_def bind_result_eq_Inr_iff)
  have "value_has_type io y" if "y \<in> set xs" for y
  proof -
    obtain item where "item \<noteq> PyNone" "coerce_scalar_variable_value ve item (IoMember io) False = Inr y"
      using map \<open>y \<in> set xs\<close> unfolding map_result_Inr_iff
      by (auto simp: list_all2_conv_all_nth in_set_conv_nth split: if_splits)
    then show ?thesis
      using coerce_scalar_typed [OF assms(1)] normalize_scalar_member [OF assms(3)] by fastforce
  qed
  then show ?thesis using xs by blast
qed

definition sample_env :: value_env where
  "sample_env = \<lparr>ve_str = (\<lambda>v. case v of PyStr s \<Rightarrow> s | _ \<Rightarrow> ''?''),
     ve_bool_adapter = (\<lambda>v. case v of PyBool b \<Rightarrow> Inr v | _ \<Rightarrow> Inl ''bool''),
     ve_int_adapter = (\<lambda>v. case v of PyInt i \<Rightarrow> Inr v | _ \<Rightarrow> Inl ''int''),
     ve_float_adapter = (\<lambda>v. case v of PyFloat r \<Rightarrow> Inr v | PyInt i \<Rightarrow> Inr (PyFloat (of_int i)) | _ \<Rightarrow> Inl ''float''),
     ve_datetime_adapter = (\<lambda>v. case v of PyDatetime d \<Rightarrow> Inr v | _ \<Rightarrow> Inl ''datetime''),
     ve_timedelta_adapter = (\<lambda>v. case v of PyTimedelta d \<Rightarrow> Inr v | _ \<Rightarrow> Inl ''timedelta''),
     ve_json_loads = (\<lambda>s. None),
     ve_evaluate = (\<lambda>text vars proj kind policy. case map_of vars text of Some v \<Rightarrow> Inr v | None \<Rightarrow> Inl ''undefined'')\<rparr>"

lemma sample_env_typed: "adapters_typed sample_env"
  by (auto simp: adapters_typed_def sample_env_def split: pyval.splits)

text \<open>
  C26. A coerced variable value has its declared type: a scalar value is of the type, a list value
  is a list of such values. Null comes out only where it went in and is allowed, and an unresolved
  value only where it went in.
\<close>

theorem coerced_values_have_their_type:
  assumes "adapters_typed ve" and "normalize_variable_scalar_type t = Inr io"
    and "coerce_variable_value ve v t allow_none is_list json = Inr x"
  shows "(if is_list then \<exists>xs. x = PyList xs \<and> (\<forall>y \<in> set xs. value_has_type io y) else value_has_type io x) \<or>
    (x = PyNone \<and> v = PyNone \<and> allow_none) \<or> (x = v \<and> is_unresolved_value v)"
proof (cases "is_unresolved_value v")
  case True
  then show ?thesis using assms(3) by (simp add: coerce_variable_value_def)
next
  case False
  then show ?thesis
    using assms(3) coerce_scalar_typed [OF assms(1) _ assms(2)] coerce_list_typed [OF assms(1) _ assms(2)]
    by (cases is_list) (auto simp: coerce_variable_value_def)
qed

theorem coerced_values_have_their_type_witness:
  "coerce_variable_value sample_env (PyStr ''1h 30min'') (IoName ''TIMEDELTA'') False False False =
     Inr (PyTimedelta 5400000000) \<and> value_has_type IO_TIMEDELTA (PyTimedelta 5400000000)"
proof -
  have "coerce_variable_value sample_env (PyStr ''1h 30min'') (IoName ''TIMEDELTA'') False False False =
      Inr (PyTimedelta 5400000000)" by code_simp
  moreover have "normalize_variable_scalar_type (IoName ''TIMEDELTA'') = Inr IO_TIMEDELTA" by code_simp
  ultimately show ?thesis
    using coerced_values_have_their_type [OF sample_env_typed] by fastforce
qed

section \<open>Resolution\<close>

text \<open>
  An expression for a scalar variable that cannot be evaluated yields an unresolved value marked as
  a list: the list flag of the result is constant.
\<close>

lemma unresolved_scalar_is_marked_as_list:
  assumes "normalize_variable_scalar_type t = Inr io" and "ve_evaluate ve text (map (\<lambda>(k, v). (k, unwrap_variable v)) vars) []
      kind (Some ''default'') = Inl e"
  shows "resolve_variable_runtime_value ve (Inl (ExpressionValue text kind)) vars t True nullable dflt False =
    Inr (PyUnresolved (Some e) (Some (IoMember io)) True)"
proof -
  have "io \<in> set VARIABLE_SCALAR_IOS" using assms(1) by (rule normalize_scalar_member)
  then have "ensure_expression_supported_variable_type (IoMember io) = Inr io"
    by (auto simp: ensure_expression_supported_variable_type_def VARIABLE_SCALAR_IOS_def EXPRESSION_VARIABLE_SCALAR_IOS_def)
  then show ?thesis
    using assms by (simp add: resolve_variable_runtime_value_def resolve_node_input_value_def make_unresolved_value_def Let_def)
qed

lemma resolve_expression_total:
  "\<exists>v. resolve_node_input_value ve (Inl (ExpressionValue text kind)) vars proj t is_list True policy True allow_none = Inr v"
  by (simp add: resolve_node_input_value_def Let_def split: sum.split)



end
