(* ===== verification/Node_Kwargs.thy ===== *)
theory Node_Kwargs
  imports Pipeline_Validation Variable_Types
begin

text \<open>
  The arguments a node is built with (\<^verbatim>\<open>src/pipeline/graph_utils.py\<close>, lines 185-479): linked
  outputs, variables, constants, expressions and SQL templates.

  Parameters: the value environment and the Pydantic adapter of the earlier theories; \<open>selector\<close>,
  the optional \<^verbatim>\<open>runtime_inputs\<close> hook of the node class; \<open>sql_template\<close>, the flag of the
  field with a given attribute name; \<open>dialect\<close>, the SQL dialect of a connection; \<open>render\<close>, the SQL
  template renderer.
\<close>

section \<open>Variables\<close>

datatype input_error =
    MissingOutput NodeInputLinkValue string
  | NotAVariable string
  | SingleConnectionOnly string
  | InputValueError string

type_synonym node_outputs = "(node_id, (string, pyval) dict) dict"

fun fold_result :: "('a \<Rightarrow> 's \<Rightarrow> ('e, 's) result) \<Rightarrow> 'a list \<Rightarrow> 's \<Rightarrow> ('e, 's) result" where
  "fold_result f [] s = Inr s"
| "fold_result f (x # xs) s = bind_result (f x s) (fold_result f xs)"

definition is_variable_input :: "InputDefinition \<Rightarrow> bool" where
  "is_variable_input d = contains_exact_io (id_type d) IO_VARIABLE"

definition is_signal_input :: "InputDefinition \<Rightarrow> bool" where
  "is_signal_input d = contains_exact_io (id_type d) IO_SIGNAL"

definition iter_variable_items :: "pyval \<Rightarrow> (string \<times> pyval) list" where
  "iter_variable_items v =
     (case v of
        PyDict m \<Rightarrow>
          (case map_of m ''name'' of
             Some (PyStr (c # cs)) \<Rightarrow> [(c # cs, v)]
           | _ \<Rightarrow> filter (\<lambda>(k, item). k \<noteq> []) m)
      | _ \<Rightarrow> (case py_getattr ''name'' v of PyStr (c # cs) \<Rightarrow> [(c # cs, v)] | _ \<Rightarrow> []))"

definition is_empty_variable_payload :: "pyval \<Rightarrow> bool" where
  "is_empty_variable_payload v \<longleftrightarrow> v = PyDict []"

definition merge_variable_items :: "(string \<times> pyval) list \<Rightarrow> (string, pyval) dict \<Rightarrow> (string, pyval) dict" where
  "merge_variable_items items target = fold (\<lambda>(k, v). dict_put k v) items target"

definition output_value :: "node_outputs \<Rightarrow> NodeInputLinkValue \<Rightarrow> pyval option" where
  "output_value outputs lv =
     (case map_of outputs (lv_node_id lv) of None \<Rightarrow> None | Some os \<Rightarrow> map_of os (lv_output_name lv))"

definition merge_link ::
    "node_outputs \<Rightarrow> string \<Rightarrow> NodeInputLinkValue \<Rightarrow> (string, pyval) dict \<Rightarrow> (input_error, (string, pyval) dict) result" where
  "merge_link outputs input_name lv target =
     (case output_value outputs lv of
        None \<Rightarrow> Inl (MissingOutput lv input_name)
      | Some payload \<Rightarrow>
          if is_empty_variable_payload payload then Inr target
          else let items = iter_variable_items payload
               in if items = [] then Inl (NotAVariable input_name) else Inr (merge_variable_items items target))"

definition collect_linked_variables ::
    "NodeDefinition \<Rightarrow> NodeData \<Rightarrow> node_outputs \<Rightarrow> (input_error, (string, pyval) dict) result" where
  "collect_linked_variables node_def nd outputs =
     fold_result (\<lambda>(input_name, input_data) acc.
       case map_of (df_input_definitions node_def) input_name of
         None \<Rightarrow> Inr acc
       | Some d \<Rightarrow>
           if \<not> is_variable_input d then Inr acc
           else fold_result (merge_link outputs input_name) (iter_node_input_link_values input_data) acc)
       (nd_inputs nd) []"

definition collect_variable_source_node_ids :: "NodeDefinition \<Rightarrow> NodeData \<Rightarrow> node_id list" where
  "collect_variable_source_node_ids node_def nd =
     fold (\<lambda>(input_name, input_data) acc.
       case map_of (df_input_definitions node_def) input_name of
         None \<Rightarrow> acc
       | Some d \<Rightarrow>
           if \<not> is_variable_input d then acc
           else fold (\<lambda>lv. set_add (lv_node_id lv)) (iter_node_input_link_values input_data) acc)
       (nd_inputs nd) []"

section \<open>One input\<close>

record kwargs_env =
  ke_value :: value_env
  ke_validate :: adapter
  ke_sql_template :: "string \<Rightarrow> bool"
  ke_dialect :: "pyval \<Rightarrow> string option"
  ke_render :: "string \<Rightarrow> (string, pyval) dict \<Rightarrow> (string, pyval) dict \<Rightarrow> string option \<Rightarrow> (string, string) result"

definition linked_input ::
    "node_outputs \<Rightarrow> string \<Rightarrow> InputDefinition \<Rightarrow> NodeInputLinkValue list \<Rightarrow> (input_error, pyval) result" where
  "linked_input outputs input_name d lvs =
     (let allow_multi = (id_allow_multiple_connections d = Some True);
          required = map_result (\<lambda>lv. case output_value outputs lv of
            None \<Rightarrow> Inl (MissingOutput lv input_name) | Some v \<Rightarrow> Inr v) lvs
      in if allow_multi \<and> is_variable_input d then
           bind_result (fold_result (merge_link outputs input_name) lvs []) (\<lambda>vars. Inr (PyDict vars))
         else if allow_multi \<and> contains_exact_io (id_type d) IO_COLUMN then
           bind_result required (\<lambda>columns. Inr (case columns of [c] \<Rightarrow> c | _ \<Rightarrow> PyList columns))
         else if allow_multi \<and> is_signal_input d then bind_result required (\<lambda>_. Inr PyNone)
         else case lvs of
                [lv] \<Rightarrow> (case output_value outputs lv of
                           None \<Rightarrow> Inl (MissingOutput lv input_name) | Some v \<Rightarrow> Inr v)
              | _ \<Rightarrow> Inl (SingleConnectionOnly input_name))"

text \<open>
  The raw value of an input without links. A constant is unwrapped and its content parsed again, so
  that a constant that holds a marked payload counts as that payload.
\<close>

definition raw_input :: "adapter \<Rightarrow> NodeRuntimeInputValue \<Rightarrow> (string, NodeRuntimeInputValue + pyval) result" where
  "raw_input validate v =
     (case v of
        ConstantValue c \<Rightarrow>
          bind_result (parse_node_input_value validate c)
            (\<lambda>p. Inr (case p of None \<Rightarrow> Inr c | Some (LinkValue lv) \<Rightarrow> Inr c | Some x \<Rightarrow> Inl x))
      | _ \<Rightarrow> Inr (Inl v))"

type_synonym deferred = "string \<times> string \<times> io_type"

definition sql_template_text :: "kwargs_env \<Rightarrow> InputDefinition \<Rightarrow> NodeRuntimeInputValue + pyval \<Rightarrow> string option" where
  "sql_template_text ke d raw =
     (case raw of
        Inl (ExpressionValue text Template) \<Rightarrow> if ke_sql_template ke (id_attr_name d) then Some text else None
      | _ \<Rightarrow> None)"

definition plain_input ::
    "kwargs_env \<Rightarrow> (string, pyval) dict \<Rightarrow> (string, pyval) dict \<Rightarrow> bool \<Rightarrow> InputDefinition \<Rightarrow> NodeRuntimeInputValue \<Rightarrow>
     (input_error, pyval + deferred) result" where
  "plain_input ke variables project_variables allow_unresolved d v =
     (case raw_input (ke_validate ke) v of
        Inl e \<Rightarrow> Inl (InputValueError e)
      | Inr raw \<Rightarrow>
          (case sql_template_text ke d raw of
             Some text \<Rightarrow> Inr (Inr (id_attr_name d, text, id_type d))
           | None \<Rightarrow>
               (case resolve_node_input_value (ke_value ke) raw variables project_variables (Some (id_type d))
                       (id_is_list_type d) (id_allow_expressions d = Some True) (id_expression_policy d)
                       allow_unresolved False of
                  Inl e \<Rightarrow> Inl (InputValueError e)
                | Inr x \<Rightarrow> Inr (Inl x))))"

definition input_step ::
    "kwargs_env \<Rightarrow> NodeDefinition \<Rightarrow> node_outputs \<Rightarrow> (string, pyval) dict \<Rightarrow> (string, pyval) dict \<Rightarrow> bool \<Rightarrow>
     string \<times> NodeRuntimeInputValue \<Rightarrow> (string, pyval) dict \<times> deferred list \<Rightarrow>
     (input_error, (string, pyval) dict \<times> deferred list) result" where
  "input_step ke node_def outputs variables project_variables allow_unresolved entry s =
     (case entry of (input_name, input_data) \<Rightarrow>
        case map_of (df_input_definitions node_def) input_name of
          None \<Rightarrow> Inr s
        | Some d \<Rightarrow>
            (case iter_node_input_link_values input_data of
               [] \<Rightarrow>
                 bind_result (plain_input ke variables project_variables allow_unresolved d input_data)
                   (\<lambda>r. Inr (case r of
                      Inl x \<Rightarrow> (dict_put (id_attr_name d) x (fst s), snd s)
                    | Inr t \<Rightarrow> (fst s, snd s @ [t])))
             | lvs \<Rightarrow>
                 bind_result (linked_input outputs input_name d lvs)
                   (\<lambda>x. Inr (dict_put (id_attr_name d) x (fst s), snd s))))"

section \<open>All inputs\<close>

definition kwargs_dialect :: "kwargs_env \<Rightarrow> (string, pyval) dict \<Rightarrow> string option" where
  "kwargs_dialect ke kwargs =
     (case map_of kwargs ''connection'' of
        None \<Rightarrow> None
      | Some c \<Rightarrow> if c = PyNone \<or> is_unresolved_value c then None else ke_dialect ke c)"

definition deferred_step ::
    "kwargs_env \<Rightarrow> (string, pyval) dict \<Rightarrow> (string, pyval) dict \<Rightarrow> string option \<Rightarrow> bool \<Rightarrow> deferred \<Rightarrow>
     (string, pyval) dict \<Rightarrow> (input_error, (string, pyval) dict) result" where
  "deferred_step ke variables project_variables dialect_name allow_unresolved t kwargs =
     (case t of (attr_name, text, ty) \<Rightarrow>
        case ke_render ke text variables project_variables dialect_name of
          Inr sql \<Rightarrow> Inr (dict_put attr_name (PyStr sql) kwargs)
        | Inl e \<Rightarrow> if allow_unresolved
                   then Inr (dict_put attr_name (make_unresolved_value (Some e) (Some ty) False) kwargs)
                   else Inl (InputValueError e))"

definition build_node_kwargs ::
    "kwargs_env \<Rightarrow> (NodeRuntimeInputValues \<Rightarrow> NodeRuntimeInputValues) option \<Rightarrow> NodeDefinition \<Rightarrow> NodeData \<Rightarrow> node_outputs \<Rightarrow>
     (string, pyval) dict \<Rightarrow> bool \<Rightarrow> (input_error, (string, pyval) dict) result" where
  "build_node_kwargs ke selector node_def nd outputs project_variables metadata_only =
     (let nd' = (case selector of None \<Rightarrow> nd | Some f \<Rightarrow> nd\<lparr>nd_inputs := f (nd_inputs nd)\<rparr>)
      in bind_result (collect_linked_variables node_def nd' outputs) (\<lambda>linked_variables.
           let variables = merge_variable_items linked_variables project_variables
           in bind_result
                (fold_result (input_step ke node_def outputs variables project_variables metadata_only) (nd_inputs nd') ([], []))
                (\<lambda>(kwargs, deferred_sql_templates).
                   fold_result (deferred_step ke variables project_variables (kwargs_dialect ke kwargs) metadata_only)
                     deferred_sql_templates kwargs)))"

section \<open>What a link delivers\<close>

lemma fold_result_append:
  "fold_result f (xs @ ys) s = bind_result (fold_result f xs s) (fold_result f ys)"
proof (induction xs arbitrary: s)
  case (Cons x xs)
  then show ?case by (cases "f x s") auto
qed simp

text \<open>The attributes an input step may write.\<close>

definition input_attr :: "NodeDefinition \<Rightarrow> string \<times> NodeRuntimeInputValue \<Rightarrow> string option" where
  "input_attr node_def entry = map_option id_attr_name (map_of (df_input_definitions node_def) (fst entry))"

lemma plain_input_deferred: "plain_input ke vars proj m d v = Inr (Inr t) \<Longrightarrow> fst t = id_attr_name d"
  by (auto simp: plain_input_def split: sum.splits option.splits)

lemma input_step_cases:
  assumes "input_step ke df outs vars proj m entry s = Inr s'"
  shows "s' = s \<or> (\<exists>a x. input_attr df entry = Some a \<and>
    (s' = (dict_put a x (fst s), snd s) \<or> (\<exists>t. fst t = a \<and> s' = (fst s, snd s @ [t]))))"
proof -
  obtain name v where e: "entry = (name, v)" by (cases entry)
  show ?thesis
  proof (cases "map_of (df_input_definitions df) name")
    case None
    then show ?thesis using assms by (simp add: input_step_def e)
  next
    case (Some d)
    show ?thesis
    proof (cases "iter_node_input_link_values v")
      case Nil
      obtain r where "plain_input ke vars proj m d v = Inr r" "s' = (case r of
          Inl x \<Rightarrow> (dict_put (id_attr_name d) x (fst s), snd s) | Inr t \<Rightarrow> (fst s, snd s @ [t]))"
        using assms Some Nil by (auto simp: input_step_def e bind_result_eq_Inr_iff)
      then show ?thesis
        using Some plain_input_deferred by (cases r) (auto simp: input_attr_def e)
    next
      case (Cons lv lvs)
      then show ?thesis using assms Some by (auto simp: input_step_def e bind_result_eq_Inr_iff input_attr_def)
    qed
  qed
qed

lemma input_step_frame:
  assumes "input_step ke df outs vars proj m entry s = Inr s'" and "input_attr df entry \<noteq> Some a"
  shows "map_of (fst s') a = map_of (fst s) a"
    and "a \<notin> fst ` set (snd s) \<Longrightarrow> a \<notin> fst ` set (snd s')"
  using input_step_cases [OF assms(1)] assms(2) by (auto simp: map_of_dict_put)

lemma input_steps_frame:
  assumes "fold_result (input_step ke df outs vars proj m) entries s = Inr s'"
    and "\<forall>e \<in> set entries. input_attr df e \<noteq> Some a"
  shows "map_of (fst s') a = map_of (fst s) a \<and> (a \<notin> fst ` set (snd s) \<longrightarrow> a \<notin> fst ` set (snd s'))"
  using assms
proof (induction entries arbitrary: s)
  case (Cons e entries)
  obtain s1 where s1: "input_step ke df outs vars proj m e s = Inr s1"
    "fold_result (input_step ke df outs vars proj m) entries s1 = Inr s'"
    using Cons.prems(1) by (auto simp: bind_result_eq_Inr_iff)
  then show ?case using Cons.IH [OF s1(2)] Cons.prems(2) input_step_frame [OF s1(1)] by auto
qed simp

lemma deferred_steps_frame:
  assumes "fold_result (deferred_step ke vars proj dn m) ts kw = Inr kw'" and "a \<notin> fst ` set ts"
  shows "map_of kw' a = map_of kw a"
  using assms
proof (induction ts arbitrary: kw)
  case (Cons t ts)
  obtain kw1 where kw1: "deferred_step ke vars proj dn m t kw = Inr kw1"
    "fold_result (deferred_step ke vars proj dn m) ts kw1 = Inr kw'"
    using Cons.prems(1) by (auto simp: bind_result_eq_Inr_iff)
  have "map_of kw1 a = map_of kw a"
    using kw1(1) Cons.prems(2) by (auto simp: deferred_step_def map_of_dict_put split: prod.splits sum.splits if_splits)
  then show ?case using Cons.IH [OF kw1(2)] Cons.prems(2) by simp
qed simp

lemma linked_input_single:
  assumes "linked_input outs name d [lv] = Inr x"
    and "\<not> (id_allow_multiple_connections d = Some True \<and> (is_variable_input d \<or> is_signal_input d))"
  shows "output_value outs lv = Some x"
  using assms by (auto simp: linked_input_def Let_def bind_result_eq_Inr_iff split: if_splits option.splits)

lemma input_steps_link:
  assumes "fold_result (input_step ke df outs vars proj m) inputs ([], []) = Inr (kw, ts)"
    and "inputs = before @ (name, v) # after" and "map_of (df_input_definitions df) name = Some d"
    and "iter_node_input_link_values v = lv # lvs"
    and "\<forall>e \<in> set (before @ after). input_attr df e \<noteq> Some (id_attr_name d)"
  shows "id_attr_name d \<notin> fst ` set ts \<and>
    (\<exists>x. linked_input outs name d (lv # lvs) = Inr x \<and> map_of kw (id_attr_name d) = Some x)"
proof -
  let ?f = "input_step ke df outs vars proj m" and ?a = "id_attr_name d"
  obtain s1 s2 where s1: "fold_result ?f before ([], []) = Inr s1"
    and s2: "?f (name, v) s1 = Inr s2" and rest: "fold_result ?f after s2 = Inr (kw, ts)"
    using assms(1,2) by (auto simp: fold_result_append bind_result_eq_Inr_iff)
  have ts1: "?a \<notin> fst ` set (snd s1)" using input_steps_frame [OF s1, of ?a] assms(5) by simp
  obtain x where x: "linked_input outs name d (lv # lvs) = Inr x" "s2 = (dict_put ?a x (fst s1), snd s1)"
    using s2 assms(3,4) by (auto simp: input_step_def bind_result_eq_Inr_iff)
  then show ?thesis using input_steps_frame [OF rest, of ?a] assms(5) ts1 by (simp add: map_of_dict_put)
qed

lemma distinct_attr_split:
  assumes "distinct (map (input_attr df) inputs)" and "inputs = before @ e # after"
  shows "\<forall>u \<in> set (before @ after). input_attr df u \<noteq> input_attr df e"
  using assms by (force simp: image_iff)

definition sample_kwargs_env :: kwargs_env where
  "sample_kwargs_env = \<lparr>ke_value = sample_env, ke_validate = sample_adapter, ke_sql_template = (\<lambda>a. False),
     ke_dialect = (\<lambda>c. None), ke_render = (\<lambda>t v p d. Inl ''no template'')\<rparr>"

definition sample_linked_node :: NodeData where
  "sample_linked_node = \<lparr>nd_name = ''Join'', nd_store_enabled = None, nd_inputs = [(''left'',
     LinkValue \<lparr>lv_node_id = ''a'', lv_output_name = ''output''\<rparr>)]\<rparr>"

text \<open>
  C28. When the arguments of a node can be built, an input with one link receives exactly the value
  of the linked output, whatever the other inputs, expressions and templates of the node are
  (variable and signal ports, which merge or drop their links, apart); in particular the linked
  output has been produced.
\<close>

theorem linked_input_receives_its_output:
  assumes "build_node_kwargs ke None node_def nd outputs proj metadata_only = Inr kwargs"
    and "distinct (map (input_attr node_def) (nd_inputs nd))"
    and "(name, v) \<in> set (nd_inputs nd)" and "map_of (df_input_definitions node_def) name = Some d"
    and "iter_node_input_link_values v = [lv]"
    and "\<not> (id_allow_multiple_connections d = Some True \<and> (is_variable_input d \<or> is_signal_input d))"
  shows "\<exists>x. output_value outputs lv = Some x \<and> map_of kwargs (id_attr_name d) = Some x"
proof -
  obtain vars kw ts dn where steps: "fold_result (input_step ke node_def outputs vars proj metadata_only) (nd_inputs nd) ([], []) = Inr (kw, ts)"
    and late: "fold_result (deferred_step ke vars proj dn metadata_only) ts kw = Inr kwargs"
    using assms(1) by (auto simp: build_node_kwargs_def Let_def bind_result_eq_Inr_iff split: prod.splits)
  obtain before after where split: "nd_inputs nd = before @ (name, v) # after"
    using assms(3) by (meson split_list)
  have "\<forall>e \<in> set (before @ after). input_attr node_def e \<noteq> Some (id_attr_name d)"
    using distinct_attr_split [OF assms(2) split] assms(4) by (simp add: input_attr_def)
  from input_steps_link [OF steps split assms(4,5) this]
  obtain x where "id_attr_name d \<notin> fst ` set ts" "linked_input outputs name d [lv] = Inr x" "map_of kw (id_attr_name d) = Some x"
    by auto
  then show ?thesis
    using deferred_steps_frame [OF late] linked_input_single [OF _ assms(6)] by auto
qed

theorem linked_input_receives_its_output_witness:
  "\<exists>x. output_value [(''a'', [(''output'', PyInt 7)])] \<lparr>lv_node_id = ''a'', lv_output_name = ''output''\<rparr> = Some x \<and>
     map_of [(''left'', PyInt 7)] ''left'' = Some x"
proof -
  let ?lv = "\<lparr>lv_node_id = ''a'', lv_output_name = ''output''\<rparr>"
  obtain df where df: "sample_defs ''Join'' = Some df" by (simp add: sample_defs_def)
  then have ins: "df_input_definitions df = [(''left'', \<lparr>id_attr_name = ''left'',
     id_type = IoMember IO_DATAFRAME, id_is_list_type = False, id_allow_multiple_connections = Some True,
     id_allow_expressions = None, id_expression_policy = None\<rparr>)]" by (auto simp: sample_defs_def)
  have "build_node_kwargs sample_kwargs_env None (the (sample_defs ''Join'')) sample_linked_node
      [(''a'', [(''output'', PyInt 7)])] [] False = Inr [(''left'', PyInt 7)]" by code_simp
  then have built: "build_node_kwargs sample_kwargs_env None df sample_linked_node
      [(''a'', [(''output'', PyInt 7)])] [] False = Inr [(''left'', PyInt 7)]" by (simp add: df)
  have "distinct (map (input_attr df) (nd_inputs sample_linked_node))"
    "(''left'', LinkValue ?lv) \<in> set (nd_inputs sample_linked_node)"
    by (simp_all add: sample_linked_node_def)
  from linked_input_receives_its_output [OF built this, of "snd (hd (df_input_definitions df))" ?lv]
  show ?thesis by (simp add: ins is_variable_input_def is_signal_input_def matches_exact_io_def)
qed

end
