(* ===== verification/Pipeline_Processor.thy ===== *)
theory Pipeline_Processor
  imports Node_Kwargs Task_Types
begin

text \<open>
  The executor of a pipeline (\<^verbatim>\<open>src/pipeline/processor.py\<close>): node scheduling, signals,
  recoverable errors, the metadata cache, the dataframe cache frontier and the outcome of a run.

  The state of the processor is a record; callbacks are appended to its list of events. What the
  processor calls is the record \<open>run_env\<close>: the registries, the behaviour of a node built with given
  arguments (\<open>node_run\<close>), the hash function, the contents of the stores and the answers of the stop
  event, indexed by the number of polls. \<open>re_ord\<close> is the visiting order of sets. Every callback is
  given and returns; logging is left out.
\<close>

section \<open>Environment and state\<close>

datatype exec_result =
    Executed "(string, pyval) dict"
  | NodeRaised string
  | NodeCancelled string

datatype validation_result =
    Valid
  | NodeValidationError string
  | ValidationRaised string

text \<open>
  A node instance: an error of its construction, its validation, its cache key, its execution, its two
  variable attributes after the execution (not a dictionary is the empty one) and the metadata it
  resolves.
\<close>

record node_run =
  nr_create_error :: "string option"
  nr_validate :: validation_result
  nr_cache_key :: "string option"
  nr_execute :: exec_result
  nr_input_variables :: "(string, pyval) dict"
  nr_output_variables :: "(string, pyval) dict"
  nr_resolve_metadata :: "(string, (string, pyval) dict) result"

record MetadataCacheEntry =
  ce_outputs :: "(string, pyval) dict"
  ce_metadata :: "(string, pyval) dict option"

datatype perror = InputError input_error | GraphError graph_error | UnexpectedException string

definition not_registered :: perror where
  "not_registered = UnexpectedException ''node class or definition not registered''"

datatype event =
    TaskStarted | TaskRunning | TaskSucceeded | TaskFailed perror | TaskFailedWith string | TaskCanceled
  | NodeErrorEvent node_id string
  | NodeMetadataEvent node_id
  | MetadataStored node_id string
  | SnapshotStored node_id

record run_env =
  re_ord :: "node_id list \<Rightarrow> node_id list"
  re_pipeline :: Pipeline
  re_target_nodes :: "node_id list option"
  re_mode :: PipelineExecutionMode
  re_changed_node_ids :: "node_id list"
  re_project_variables :: "(string, pyval) dict"
  re_classes :: "string \<Rightarrow> NodeClass option"
  re_defs :: "string \<Rightarrow> NodeDefinition option"
  re_kwargs :: kwargs_env
  re_selector :: "string \<Rightarrow> (NodeRuntimeInputValues \<Rightarrow> NodeRuntimeInputValues) option"
  re_node :: "node_id \<Rightarrow> (string, pyval) dict \<Rightarrow> node_run"
  re_hash :: "bool \<Rightarrow> pyval \<Rightarrow> string"
  re_has_metadata_store :: bool
  re_metadata_get :: "(string \<times> MetadataCacheEntry) list \<Rightarrow> string \<Rightarrow> MetadataCacheEntry option"
  re_has_data_stores :: bool
  re_snapshot :: "node_id \<Rightarrow> MetadataCacheEntry option"
  re_stop :: "nat \<Rightarrow> bool"

record processor =
  pr_planned :: "node_id list option"
  pr_completed :: "node_id list"
  pr_recoverable_failed :: "node_id list"
  pr_executed :: "node_id list"
  pr_failed :: "node_id list"
  pr_skipped :: "node_id list"
  pr_restored :: "node_id list"
  pr_outputs :: node_outputs
  pr_hashes :: "(node_id, (string, string) dict) dict"
  pr_metadata :: "(node_id, (string, pyval) dict) dict"
  pr_signals :: "(node_id, (string, bool) dict) dict"
  pr_stored :: "(string \<times> MetadataCacheEntry) list"
  pr_polls :: nat
  pr_events :: "event list"

definition init_processor :: processor where
  "init_processor = \<lparr>pr_planned = None, pr_completed = [], pr_recoverable_failed = [], pr_executed = [],
     pr_failed = [], pr_skipped = [], pr_restored = [], pr_outputs = [], pr_hashes = [], pr_metadata = [],
     pr_signals = [], pr_stored = [], pr_polls = 0, pr_events = []\<rparr>"

definition emit :: "event \<Rightarrow> processor \<Rightarrow> processor" where
  "emit e s = s\<lparr>pr_events := pr_events s @ [e]\<rparr>"

definition stop_requested :: "run_env \<Rightarrow> processor \<Rightarrow> bool \<times> processor" where
  "stop_requested re s = (re_stop re (pr_polls s), s\<lparr>pr_polls := Suc (pr_polls s)\<rparr>)"

section \<open>Order, parents and targets\<close>

definition execution_order :: "run_env \<Rightarrow> (graph_error, node_id list) result" where
  "execution_order re = topological_sort (re_ord re) (re_pipeline re) (re_target_nodes re)"

definition effective_execution_order :: "node_id list \<Rightarrow> processor \<Rightarrow> node_id list" where
  "effective_execution_order order s = (case pr_planned s of Some p \<Rightarrow> p | None \<Rightarrow> order)"

definition incremental_metadata_enabled :: "run_env \<Rightarrow> bool" where
  "incremental_metadata_enabled re \<longleftrightarrow> re_mode re = METADATA_ONLY \<and> re_changed_node_ids re \<noteq> []"

definition affected_metadata_nodes :: "run_env \<Rightarrow> node_id list" where
  "affected_metadata_nodes re = find_all_dependents (re_ord re) (re_pipeline re) (re_changed_node_ids re)"

definition metadata_cache_allowed_for_node :: "run_env \<Rightarrow> node_id \<Rightarrow> bool" where
  "metadata_cache_allowed_for_node re n \<longleftrightarrow>
     (if incremental_metadata_enabled re then n \<notin> set (affected_metadata_nodes re) else True)"

definition cache_frontier_enabled :: "run_env \<Rightarrow> bool" where
  "cache_frontier_enabled re \<longleftrightarrow> re_changed_node_ids re \<noteq> [] \<and> re_has_data_stores re"

definition gather_parent_ids :: "NodeRuntimeInputValues \<Rightarrow> node_id list" where
  "gather_parent_ids inputs =
     fold (\<lambda>input_data acc. fold (\<lambda>lv. set_add (lv_node_id lv)) (iter_node_input_link_values input_data) acc)
       (dict_values inputs) []"

definition execution_target_ids :: "run_env \<Rightarrow> node_id list \<Rightarrow> node_id list" where
  "execution_target_ids re order =
     (let explicit_targets = filter (\<lambda>n. n \<in> set order) (case re_target_nodes re of None \<Rightarrow> [] | Some ts \<Rightarrow> ts);
          parent_ids = concat (map (\<lambda>n. case map_of (re_pipeline re) n of
            None \<Rightarrow> [] | Some nd \<Rightarrow> filter (\<lambda>m. m \<in> set order) (gather_parent_ids (nd_inputs nd))) order)
      in if explicit_targets \<noteq> [] then explicit_targets
         else filter (\<lambda>n. n \<notin> set parent_ids) order)"

section \<open>Signals\<close>

definition is_signal_output_definition :: "OutputDefinition \<Rightarrow> bool" where
  "is_signal_output_definition d = contains_exact_io (od_type d) IO_SIGNAL"

definition iter_signal_links :: "NodeRuntimeInputValues \<Rightarrow> NodeInputLinkValue list" where
  "iter_signal_links inputs =
     (case map_of inputs SIGNAL_IN of None \<Rightarrow> [] | Some v \<Rightarrow> iter_node_input_link_values v)"

definition resolve_signal_output_state :: "string \<Rightarrow> pyval option \<Rightarrow> bool \<Rightarrow> bool" where
  "resolve_signal_output_state output_name node_output auto_activate =
     (case node_output of
        Some (PyBool b) \<Rightarrow> b
      | _ \<Rightarrow> auto_activate \<and> output_name = SIGNAL_OUT)"

definition sync_node_signal_states ::
    "node_id \<Rightarrow> NodeClass \<Rightarrow> (string, OutputDefinition) dict \<Rightarrow> (string, pyval) dict \<Rightarrow> processor \<Rightarrow> processor" where
  "sync_node_signal_states n node_class output_definitions outputs s =
     s\<lparr>pr_signals := dict_put n
         (map (\<lambda>(name, d). (name, resolve_signal_output_state name (map_of outputs name)
                (nc_AUTO_ACTIVATE_SIGNAL_OUTPUTS node_class)))
           (filter (\<lambda>(name, d). is_signal_output_definition d) output_definitions)) (pr_signals s)\<rparr>"

definition signal_active :: "processor \<Rightarrow> NodeInputLinkValue \<Rightarrow> bool" where
  "signal_active s lv =
     dict_get_default False (dict_get_default [] (pr_signals s) (lv_node_id lv)) (lv_output_name lv)"

definition has_inactive_required_signal :: "NodeRuntimeInputValues \<Rightarrow> processor \<Rightarrow> bool" where
  "has_inactive_required_signal inputs s \<longleftrightarrow>
     (let links = iter_signal_links inputs in
      links \<noteq> [] \<and> \<not> list_all (signal_active s) links)"

definition has_error_signal_downstream :: "Pipeline \<Rightarrow> node_id \<Rightarrow> bool" where
  "has_error_signal_downstream pipeline n \<longleftrightarrow>
     (\<exists>nd \<in> set (dict_values pipeline). \<exists>lv \<in> set (iter_signal_links (nd_inputs nd)).
        lv_node_id lv = n \<and> lv_output_name lv = SIGNAL_ERROR)"

definition failed_links_by_source ::
    "NodeRuntimeInputValues \<Rightarrow> node_id list \<Rightarrow> (node_id, (string \<times> NodeInputLinkValue) list) dict" where
  "failed_links_by_source inputs failed =
     fold (\<lambda>(input_name, input_data) m.
       fold (\<lambda>lv m. if lv_node_id lv \<in> set failed
             then dict_put (lv_node_id lv) (dict_get_default [] m (lv_node_id lv) @ [(input_name, lv)]) m else m)
         (iter_node_input_link_values input_data) m) inputs []"

definition is_error_gate :: "string \<times> NodeInputLinkValue \<Rightarrow> bool" where
  "is_error_gate p \<longleftrightarrow> fst p = SIGNAL_IN \<and> lv_output_name (snd p) = SIGNAL_ERROR"

definition should_skip_due_to_recoverable_parent_failure :: "NodeRuntimeInputValues \<Rightarrow> processor \<Rightarrow> bool" where
  "should_skip_due_to_recoverable_parent_failure inputs s \<longleftrightarrow>
     (\<exists>source_links \<in> set (dict_values (failed_links_by_source inputs (pr_recoverable_failed s))).
        \<not> list_ex is_error_gate source_links \<or>
        list_ex (\<lambda>p. \<not> (is_error_gate p \<or> lv_output_name (snd p) = OUTPUT_VARIABLES)) source_links)"

definition build_runtime_error_outputs ::
    "node_run \<Rightarrow> NodeDefinition \<Rightarrow> string \<Rightarrow> (string, pyval) dict" where
  "build_runtime_error_outputs nr node_def error_message =
     (let variables = dict_put DVT_ERROR_TEXT_VARIABLE_NAME
            (PyVariable DVT_ERROR_TEXT_VARIABLE_NAME IO_STRING (PyStr error_message) ''system'' False)
            (merge_variable_items (nr_output_variables nr) (nr_input_variables nr));
          outputs = map (\<lambda>d. (od_attr_name d, PyNone)) (dict_values (df_output_definitions node_def))
      in dict_put SIGNAL_ERROR (PyBool True) (dict_put SIGNAL_OUT (PyBool False)
           (dict_put OUTPUT_VARIABLES (PyDict variables) outputs)))"

section \<open>Outputs and caches\<close>

definition put_output :: "run_env \<Rightarrow> node_id \<Rightarrow> string \<Rightarrow> pyval \<Rightarrow> processor \<Rightarrow> processor" where
  "put_output re n name v s =
     s\<lparr>pr_outputs := dict_put n (dict_put name v (dict_get_default [] (pr_outputs s) n)) (pr_outputs s),
       pr_hashes := dict_put n (dict_put name (re_hash re True v) (dict_get_default [] (pr_hashes s) n)) (pr_hashes s)\<rparr>"

text \<open>The outputs of a node by its definitions; an output the node does not return is a KeyError.\<close>

fun store_outputs ::
    "run_env \<Rightarrow> node_id \<Rightarrow> OutputDefinition list \<Rightarrow> (string, pyval) dict \<Rightarrow> processor \<Rightarrow> bool \<times> processor" where
  "store_outputs re n [] outputs s = (True, s)"
| "store_outputs re n (d # ds) outputs s =
     (case map_of outputs (od_attr_name d) of
        None \<Rightarrow> (False, s)
      | Some v \<Rightarrow> store_outputs re n ds outputs (put_output re n (od_attr_name d) v s))"

definition set_outputs :: "run_env \<Rightarrow> node_id \<Rightarrow> (string, pyval) dict \<Rightarrow> processor \<Rightarrow> processor" where
  "set_outputs re n outputs s =
     s\<lparr>pr_outputs := dict_put n outputs (pr_outputs s),
       pr_hashes := dict_put n (fold (\<lambda>(name, v). dict_put name (re_hash re True v)) outputs
         (dict_get_default [] (pr_hashes s) n)) (pr_hashes s)\<rparr>"

definition complete :: "node_id \<Rightarrow> processor \<Rightarrow> processor" where
  "complete n s = s\<lparr>pr_completed := set_add n (pr_completed s)\<rparr>"

definition apply_restored_entry ::
    "run_env \<Rightarrow> node_id \<Rightarrow> NodeClass \<Rightarrow> (string, OutputDefinition) dict \<Rightarrow> MetadataCacheEntry \<Rightarrow> processor \<Rightarrow> processor" where
  "apply_restored_entry re n node_class output_definitions entry s =
     (let s1 = s\<lparr>pr_metadata := dict_put n (case ce_metadata entry of None \<Rightarrow> [] | Some m \<Rightarrow> m) (pr_metadata s)\<rparr>;
          s2 = sync_node_signal_states n node_class output_definitions (ce_outputs entry) s1;
          s3 = complete n (set_outputs re n (ce_outputs entry) s2)
      in s3\<lparr>pr_restored := pr_restored s3 @ [n]\<rparr>)"

text \<open>An entry is stale if it has outputs or metadata the definition lacks, or misses one that is no signal.\<close>

definition cache_entry_matches :: "(string, OutputDefinition) dict \<Rightarrow> MetadataCacheEntry \<Rightarrow> bool" where
  "cache_entry_matches output_definitions entry \<longleftrightarrow>
     (let definition_names = set (dict_keys output_definitions);
          cached_output_names = set (dict_keys (ce_outputs entry));
          signal_output_names = set (map fst (filter (\<lambda>(name, d). is_signal_output_definition d) output_definitions))
      in cached_output_names \<subseteq> definition_names \<and>
         definition_names - cached_output_names \<subseteq> signal_output_names \<and>
         set (dict_keys (case ce_metadata entry of None \<Rightarrow> [] | Some m \<Rightarrow> m)) \<subseteq> definition_names)"

definition try_restore_node_meta_cache_and_skip ::
    "run_env \<Rightarrow> node_id \<Rightarrow> NodeClass \<Rightarrow> string \<Rightarrow> (string, OutputDefinition) dict \<Rightarrow> processor \<Rightarrow> bool \<times> processor" where
  "try_restore_node_meta_cache_and_skip re n node_class key output_definitions s =
     (if re_mode re = FULL \<or> \<not> re_has_metadata_store re then (False, s)
      else case re_metadata_get re (pr_stored s) key of
        None \<Rightarrow> (False, s)
      | Some entry \<Rightarrow>
          if \<not> cache_entry_matches output_definitions entry then (False, s)
          else
            let names = dict_keys output_definitions;
                outputs = map (\<lambda>name. (name, dict_get_default PyNone (ce_outputs entry) name)) names;
                metadata = map (\<lambda>name. (name, dict_get_default PyNone
                  (case ce_metadata entry of None \<Rightarrow> [] | Some m \<Rightarrow> m) name)) names;
                s1 = s\<lparr>pr_metadata := dict_put n metadata (pr_metadata s)\<rparr>;
                s2 = sync_node_signal_states n node_class output_definitions outputs s1
            in (True, complete n (set_outputs re n outputs s2)))"

definition link_hash_key :: "string \<Rightarrow> nat \<Rightarrow> nat \<Rightarrow> NodeInputLinkValue \<Rightarrow> string" where
  "link_hash_key input_name link_count idx lv =
     (if link_count = 1 then lv_node_id lv @ ''.'' @ lv_output_name lv
      else input_name @ ''['' @ digits idx @ '']:'' @ lv_node_id lv @ ''.'' @ lv_output_name lv)"

definition gather_parent_hashes_and_constants ::
    "run_env \<Rightarrow> NodeDefinition \<Rightarrow> NodeRuntimeInputValues \<Rightarrow> (string, pyval) dict \<Rightarrow> processor \<Rightarrow>
     (input_error, (string, string) dict \<times> (string, pyval) dict) result" where
  "gather_parent_hashes_and_constants re node_def inputs runtime_variables s =
     fold_result (\<lambda>(input_name, input_data) (hashes, constants).
       let links = iter_node_input_link_values input_data;
           d = map_of (df_input_definitions node_def) input_name
       in if links \<noteq> [] then
            Inr (fold (\<lambda>(idx, lv). dict_put (link_hash_key input_name (length links) idx lv)
                   (dict_get_default [] (dict_get_default [] (pr_hashes s) (lv_node_id lv)) (lv_output_name lv)))
                 (enumerate 0 links) hashes, constants)
          else
            let raw = (case input_data of ConstantValue c \<Rightarrow> Inr c | _ \<Rightarrow> Inl input_data) in
              (case resolve_node_input_value (ke_value (re_kwargs re)) raw runtime_variables [] (map_option id_type d)
                      (case d of None \<Rightarrow> False | Some x \<Rightarrow> id_is_list_type x)
                      (case d of None \<Rightarrow> True | Some x \<Rightarrow> id_allow_expressions x = Some True)
                      (case d of None \<Rightarrow> None | Some x \<Rightarrow> id_expression_policy x)
                      (re_mode re = METADATA_ONLY) False of
                 Inl e \<Rightarrow> Inl (InputValueError e)
               | Inr v \<Rightarrow> Inr (hashes, dict_put input_name v constants))) inputs ([], [])"

definition runtime_variables_map :: "run_env \<Rightarrow> (string, pyval) dict \<Rightarrow> (string, pyval) dict" where
  "runtime_variables_map re kwargs =
     (case map_of kwargs INPUT_VARIABLES of
        Some (PyDict m) \<Rightarrow> merge_variable_items m (re_project_variables re)
      | _ \<Rightarrow> re_project_variables re)"

definition node_inputs_payload :: "NodeClass \<Rightarrow> (string, string) dict \<Rightarrow> (string, pyval) dict \<Rightarrow> pyval" where
  "node_inputs_payload node_class parent_hashes constant_inputs =
     PyDict ([(''node_name'', PyStr (nc_name node_class))] @
       (if parent_hashes \<noteq> [] then [(''parent_hashes'',
          PyList (map (\<lambda>(k, h). PyTuple [PyStr k, PyStr h]) (sort_key fst parent_hashes)))] else []) @
       (if constant_inputs \<noteq> [] then [(''constant_inputs'',
          PyList (map (\<lambda>(k, v). PyTuple [PyStr k, v]) (sort_key fst constant_inputs)))] else []))"

definition create_node_inputs_fingerprint ::
    "(pyval \<Rightarrow> string) \<Rightarrow> NodeClass \<Rightarrow> (string, string) dict \<Rightarrow> (string, pyval) dict \<Rightarrow> string" where
  "create_node_inputs_fingerprint hash node_class parent_hashes constant_inputs =
     ''inputs:'' @ hash (node_inputs_payload node_class parent_hashes constant_inputs)"

text \<open>The early restore returns whether it restored and the key it tried.\<close>

definition try_restore_before_instantiation ::
    "run_env \<Rightarrow> node_id \<Rightarrow> NodeClass \<Rightarrow> NodeDefinition \<Rightarrow> NodeData \<Rightarrow> processor \<Rightarrow>
     (input_error, bool \<times> string option) result \<times> processor" where
  "try_restore_before_instantiation re n node_class node_def nd s =
     (if \<not> (incremental_metadata_enabled re \<and> metadata_cache_allowed_for_node re n \<and> re_has_metadata_store re \<and>
            nc_CACHABLE node_class \<and> \<not> nc_own_cache_key node_class)
      then (Inr (False, None), s)
      else case gather_parent_hashes_and_constants re node_def (nd_inputs nd) (re_project_variables re) s of
        Inl e \<Rightarrow> (Inl e, s)
      | Inr (hashes, constants) \<Rightarrow>
          let key = create_node_inputs_fingerprint (re_hash re False) node_class hashes constants;
              (restored, s1) = try_restore_node_meta_cache_and_skip re n node_class key
                (df_output_definitions node_def) s
          in (Inr (restored, Some key), s1))"

section \<open>One node\<close>

text \<open>
  The result of a node: the flags \<open>stop_requested\<close> and \<open>should_break\<close> with the error message, or an
  exception. The third flag of the code, \<^verbatim>\<open>task_error_reported\<close>, is always false.
\<close>

datatype step_result =
    Step bool bool "string option"
  | Exception perror

definition mark_skipped :: "node_id \<Rightarrow> processor \<Rightarrow> processor" where
  "mark_skipped n s = s\<lparr>pr_skipped := set_add n (pr_skipped s)\<rparr>"

definition mark_failed :: "node_id \<Rightarrow> processor \<Rightarrow> processor" where
  "mark_failed n s = s\<lparr>pr_failed := set_add n (pr_failed s)\<rparr>"

definition node_kwargs_for ::
    "run_env \<Rightarrow> NodeDefinition \<Rightarrow> NodeData \<Rightarrow> processor \<Rightarrow> (input_error, (string, pyval) dict) result" where
  "node_kwargs_for re node_def nd s =
     build_node_kwargs (re_kwargs re) (re_selector re (nd_name nd)) node_def nd (pr_outputs s)
       (re_project_variables re) (re_mode re = METADATA_ONLY)"

text \<open>What happens when the execution of a node raises.\<close>

definition node_failed ::
    "run_env \<Rightarrow> node_id \<Rightarrow> NodeClass \<Rightarrow> NodeDefinition \<Rightarrow> node_run \<Rightarrow> string \<Rightarrow> processor \<Rightarrow>
     step_result \<times> processor" where
  "node_failed re n node_class node_def nr msg s =
     (let s1 = emit (NodeErrorEvent n msg) s in
      if has_error_signal_downstream (re_pipeline re) n then
        let outputs = build_runtime_error_outputs nr node_def msg;
            s2 = sync_node_signal_states n node_class (df_output_definitions node_def) outputs s1;
            (ok, s3) = store_outputs re n (dict_values (df_output_definitions node_def)) outputs s2
        in if ok
           then (Step False False (Some msg),
                 complete n ((mark_failed n s3)\<lparr>pr_recoverable_failed := set_add n (pr_recoverable_failed s3)\<rparr>))
           else (Exception (UnexpectedException ''KeyError''), s3)
      else if re_mode re = METADATA_ONLY then (Step False False (Some msg), mark_skipped n (mark_failed n s1))
      else (Step False True (Some msg), mark_failed n s1))"

definition node_succeeded ::
    "run_env \<Rightarrow> node_id \<Rightarrow> NodeClass \<Rightarrow> NodeDefinition \<Rightarrow> node_run \<Rightarrow> string \<Rightarrow> (string, pyval) dict \<Rightarrow> processor \<Rightarrow>
     step_result \<times> processor" where
  "node_succeeded re n node_class node_def nr key outputs s =
     (let s1 = sync_node_signal_states n node_class (df_output_definitions node_def) outputs s;
          (ok, s2) = store_outputs re n (dict_values (df_output_definitions node_def)) outputs s1
      in if \<not> ok then (Exception (UnexpectedException ''KeyError''), s2)
         else case nr_resolve_metadata nr of
           Inl msg \<Rightarrow> (Exception (UnexpectedException msg), s2)
         | Inr metadata \<Rightarrow>
           let s3 = emit (NodeMetadataEvent n) s2;
               s4 = (if nc_CACHABLE node_class \<and> re_has_metadata_store re \<and> metadata \<noteq> []
                     then emit (MetadataStored n key)
                       (s3\<lparr>pr_stored := pr_stored s3 @ [(key, \<lparr>ce_outputs = outputs, ce_metadata = Some metadata\<rparr>)]\<rparr>)
                     else s3);
               s5 = (if re_mode re = FULL \<and> nc_df_output node_class then emit (SnapshotStored n) s4 else s4);
               s6 = complete n (s5\<lparr>pr_metadata := dict_put n metadata (pr_metadata s5),
                                   pr_executed := pr_executed s5 @ [n]\<rparr>);
               (stop, s7) = stop_requested re s6
           in (Step stop False None, s7))"

text \<open>A node that has been built and validated: the metadata cache, then the execution.\<close>

definition run_node ::
    "run_env \<Rightarrow> node_id \<Rightarrow> NodeClass \<Rightarrow> NodeDefinition \<Rightarrow> NodeData \<Rightarrow> (string, pyval) dict \<Rightarrow> node_run \<Rightarrow> string option \<Rightarrow>
     processor \<Rightarrow> step_result \<times> processor" where
  "run_node re n node_class node_def nd kwargs nr early_key s =
     (case gather_parent_hashes_and_constants re node_def (nd_inputs nd) (runtime_variables_map re kwargs) s of
        Inl e \<Rightarrow> (Exception (InputError e), s)
      | Inr (hashes, constants) \<Rightarrow>
          let key = (case nr_cache_key nr of Some (c # cs) \<Rightarrow> c # cs
                | _ \<Rightarrow> (case early_key of Some k \<Rightarrow> k
                    | None \<Rightarrow> create_node_inputs_fingerprint (re_hash re False) node_class hashes constants));
              (restored, s1) =
                (if nc_CACHABLE node_class \<and> metadata_cache_allowed_for_node re n \<and> early_key = None
                 then try_restore_node_meta_cache_and_skip re n node_class key (df_output_definitions node_def) s
                 else (False, s))
          in if restored then (Step False False None, emit (NodeMetadataEvent n) s1)
             else case nr_execute nr of
                 Executed outputs \<Rightarrow> node_succeeded re n node_class node_def nr key outputs s1
               | NodeRaised msg \<Rightarrow> node_failed re n node_class node_def nr msg s1
               | NodeCancelled msg \<Rightarrow>
                   let (stop, s2) = stop_requested re s1
                   in if stop then (Step True False None, s2)
                      else node_failed re n node_class node_def nr msg s2)"

text \<open>A node that passed the guards on parents, policy and signals: early restore, building, validation.\<close>

definition prepared_node ::
    "run_env \<Rightarrow> node_id \<Rightarrow> NodeClass \<Rightarrow> NodeDefinition \<Rightarrow> NodeData \<Rightarrow> processor \<Rightarrow> step_result \<times> processor" where
  "prepared_node re n node_class node_def nd s =
     (case try_restore_before_instantiation re n node_class node_def nd s of
        (Inl e, s1) \<Rightarrow> (Exception (InputError e), s1)
      | (Inr (restored, early_key), s1) \<Rightarrow>
          (case node_kwargs_for re node_def nd s1 of
             Inl e \<Rightarrow> (Exception (InputError e), s1)
           | Inr kwargs \<Rightarrow>
               let nr = re_node re n kwargs in
               (case nr_create_error nr of
                  Some msg \<Rightarrow> (Exception (UnexpectedException msg), s1)
                | None \<Rightarrow>
                    if restored then (Step False False None, emit (NodeMetadataEvent n) s1)
                    else (case nr_validate nr of
                      NodeValidationError msg \<Rightarrow>
                        (Step False False (Some (''Validation error for node '' @ n @ '' ('' @ nc_name node_class @ ''): '' @ msg)),
                         mark_failed n (mark_skipped n (emit (NodeErrorEvent n (''Validation error: '' @ msg)) s1)))
                    | ValidationRaised msg \<Rightarrow> (Exception (UnexpectedException msg), s1)
                    | Valid \<Rightarrow> run_node re n node_class node_def nd kwargs nr early_key s1))))"

definition process_node :: "run_env \<Rightarrow> node_id \<Rightarrow> processor \<Rightarrow> step_result \<times> processor" where
  "process_node re n s =
     (if n \<in> set (pr_completed s) then (Step False False None, s)
      else case map_of (re_pipeline re) n of
        None \<Rightarrow> (Exception (UnexpectedException ''KeyError''), s)
      | Some nd \<Rightarrow>
          if \<exists>m \<in> set (gather_parent_ids (nd_inputs nd)). m \<in> set (pr_skipped s)
          then (Step False False None, mark_skipped n s)
          else if should_skip_due_to_recoverable_parent_failure (nd_inputs nd) s
          then (Step False False None, mark_skipped n s)
          else (case (re_classes re (nd_name nd), re_defs re (nd_name nd)) of
            (Some node_class, Some node_def) \<Rightarrow>
              if re_mode re = METADATA_ONLY \<and> nc_OUTPUT_NODE node_class then (Step False False None, s)
              else if has_inactive_required_signal (nd_inputs nd) s
              then (Step False False None, mark_skipped n s)
              else prepared_node re n node_class node_def nd s
          | _ \<Rightarrow> (Exception not_registered, s)))"

section \<open>The cache frontier\<close>

definition can_restore :: "run_env \<Rightarrow> node_id list \<Rightarrow> node_id list \<Rightarrow> node_id \<Rightarrow> NodeData \<Rightarrow> NodeClass \<Rightarrow> bool" where
  "can_restore re affected fresh n nd node_class \<longleftrightarrow>
     n \<notin> set affected \<and> n \<notin> set fresh \<and> nd_store_enabled nd = Some True \<and> nc_df_output node_class \<and>
     \<not> nc_OUTPUT_NODE node_class"

text \<open>
  The recursive \<^verbatim>\<open>require_node\<close>: \<open>stack\<close> holds the calls that are still to be made, in the order
  the recursion makes them; \<open>required\<close> and \<open>visited\<close> are the two sets. A missing class or definition
  raises.
\<close>

function require_nodes ::
    "run_env \<Rightarrow> node_id list \<Rightarrow> node_id list \<Rightarrow> node_id list \<Rightarrow> node_id list \<Rightarrow> node_id list \<Rightarrow> processor \<Rightarrow>
     node_id list option \<times> processor" where
  "require_nodes re affected fresh [] required visited s = (Some required, s)"
| "require_nodes re affected fresh (n # stack) required visited s =
     (case map_of (re_pipeline re) n of
        None \<Rightarrow> require_nodes re affected fresh stack required visited s
      | Some nd \<Rightarrow>
          if n \<in> set visited then require_nodes re affected fresh stack required visited s
          else (case (re_classes re (nd_name nd), re_defs re (nd_name nd)) of
            (Some node_class, Some node_def) \<Rightarrow>
              (case (if can_restore re affected fresh n nd node_class then re_snapshot re n else None) of
                 Some entry \<Rightarrow>
                   require_nodes re affected fresh stack required (visited @ [n])
                     (apply_restored_entry re n node_class (df_output_definitions node_def) entry s)
               | None \<Rightarrow>
                   require_nodes re affected fresh
                     (re_ord re (gather_parent_ids (nd_inputs nd)) @ stack) (set_add n required) (visited @ [n]) s)
          | _ \<Rightarrow> (None, s)))"
  by pat_completeness auto

lemma card_unvisited_less:
  "map_of p n = Some nd \<Longrightarrow> n \<notin> set visited \<Longrightarrow>
     card (set (dict_keys p) - insert n (set visited)) < card (set (dict_keys p) - set visited)"
  by (rule psubset_card_mono) (auto dest: map_of_Some_in_keys)

termination require_nodes
  by (relation "measures [\<lambda>(re, affected, fresh, stack, required, visited, s).
        card (set (dict_keys (re_pipeline re)) - set visited),
      \<lambda>(re, affected, fresh, stack, required, visited, s). length stack]")
     (auto simp: card_unvisited_less)

definition fresh_sources :: "run_env \<Rightarrow> node_id list" where
  "fresh_sources re = map fst (filter (\<lambda>(n, nd). case re_classes re (nd_name nd) of
     None \<Rightarrow> False | Some c \<Rightarrow> nc_REQUIRES_FRESH_EXECUTION c) (re_pipeline re))"

definition prepare_cache_frontier :: "run_env \<Rightarrow> node_id list \<Rightarrow> processor \<Rightarrow> bool \<times> processor" where
  "prepare_cache_frontier re order s =
     (if \<not> cache_frontier_enabled re then (True, s)
      else if \<exists>nd \<in> set (dict_values (re_pipeline re)). re_classes re (nd_name nd) = None then (False, s)
      else
        let fresh = find_all_dependents (re_ord re) (re_pipeline re) (fresh_sources re)
        in case require_nodes re (affected_metadata_nodes re) fresh (execution_target_ids re order) [] [] s of
             (None, s1) \<Rightarrow> (False, s1)
           | (Some required, s1) \<Rightarrow>
               (True, s1\<lparr>pr_planned := Some (filter (\<lambda>n. n \<in> set required) order)\<rparr>))"

section \<open>A run\<close>

definition prepass_sources_of ::
    "run_env \<Rightarrow> node_id \<Rightarrow> node_id list \<Rightarrow> (perror, node_id list) result" where
  "prepass_sources_of re n acc =
     (case map_of (re_pipeline re) n of
        None \<Rightarrow> Inl (UnexpectedException ''KeyError'')
      | Some nd \<Rightarrow>
          (case re_classes re (nd_name nd) of
             None \<Rightarrow> Inl not_registered
           | Some c \<Rightarrow>
               if nc_OUTPUT_NODE c \<or> nc_METADATA_VARIABLE_PREPASS_INPUTS c = [] then Inr acc
               else (case re_defs re (nd_name nd) of
                   None \<Rightarrow> Inl not_registered
                 | Some d \<Rightarrow> Inr (fold set_add (collect_variable_source_node_ids d nd) acc))))"

definition prepass_source_nodes :: "run_env \<Rightarrow> node_id list \<Rightarrow> processor \<Rightarrow> (perror, node_id list) result" where
  "prepass_source_nodes re order s =
     (if re_mode re \<noteq> METADATA_ONLY then Inr []
      else fold_result (prepass_sources_of re) (effective_execution_order order s) [])"

definition prepare_metadata_variable_prepass_order ::
    "run_env \<Rightarrow> node_id list \<Rightarrow> processor \<Rightarrow> (perror, node_id list) result" where
  "prepare_metadata_variable_prepass_order re order s =
     bind_result (prepass_source_nodes re order s) (\<lambda>sources.
       if sources = [] then Inr []
       else case topological_sort (re_ord re) (re_pipeline re) (Some (sort sources)) of
           Inl e \<Rightarrow> Inl (GraphError e)
         | Inr prepass \<Rightarrow> Inr (filter (\<lambda>n. n \<in> set (effective_execution_order order s)) prepass))"

text \<open>
  The loop over the nodes: the first error message, whether there was an error, a stop or a break.
  \<open>poll\<close> is false in the prepass, which does not poll the stop event before each node and keeps an empty
  message as the first one; the main loop drops empty messages.
\<close>

record loop_state =
  ls_stopped :: bool
  ls_break :: bool
  ls_had_error :: bool
  ls_message :: "string option"

definition initial_loop :: loop_state where
  "initial_loop = \<lparr>ls_stopped = False, ls_break = False, ls_had_error = False, ls_message = None\<rparr>"

definition non_empty_message :: "string option \<Rightarrow> string option" where
  "non_empty_message m = (if m = Some [] then None else m)"

definition first_message :: "bool \<Rightarrow> string option \<Rightarrow> string option \<Rightarrow> string option" where
  "first_message poll old new =
     (case old of Some m \<Rightarrow> Some m | None \<Rightarrow> if poll then non_empty_message new else new)"

fun run_nodes ::
    "run_env \<Rightarrow> bool \<Rightarrow> node_id list \<Rightarrow> loop_state \<Rightarrow> processor \<Rightarrow> (perror, loop_state) result \<times> processor" where
  "run_nodes re poll [] ls s = (Inr ls, s)"
| "run_nodes re poll (n # ns) ls s =
     (let (stop, s0) = (if poll then stop_requested re s else (False, s)) in
      if stop then (Inr (ls\<lparr>ls_stopped := True\<rparr>), s0)
      else case process_node re n s0 of
        (Exception e, s1) \<Rightarrow> (Inl e, s1)
      | (Step stop' brk msg, s1) \<Rightarrow>
          let ls1 = ls\<lparr>ls_stopped := stop', ls_break := brk,
                ls_had_error := ls_had_error ls \<or> msg \<noteq> None \<or> brk, ls_message := first_message poll (ls_message ls) msg\<rparr>
          in if stop' \<or> brk then (Inr ls1, s1) else run_nodes re poll ns ls1 s1)"

record ProcessResult =
  res_success :: bool
  res_error_message :: "perror + string option"

definition task_finished_with_errors :: string where
  "task_finished_with_errors = ''Task finished with errors.''"

definition conclude :: "loop_state \<Rightarrow> processor \<Rightarrow> ProcessResult \<times> processor" where
  "conclude ls s =
     (if ls_stopped ls then (\<lparr>res_success = False, res_error_message = Inr None\<rparr>, emit TaskCanceled s)
      else if ls_had_error ls then
        let msg = (case ls_message ls of Some (c # cs) \<Rightarrow> c # cs | _ \<Rightarrow> task_finished_with_errors)
        in (\<lparr>res_success = False, res_error_message = Inr (Some msg)\<rparr>, emit (TaskFailedWith msg) s)
      else (\<lparr>res_success = True, res_error_message = Inr None\<rparr>, emit TaskSucceeded s))"

definition abort :: "perror \<Rightarrow> processor \<Rightarrow> ProcessResult \<times> processor" where
  "abort e s = (\<lparr>res_success = False, res_error_message = Inl e\<rparr>, emit (TaskFailed e) s)"

definition process :: "run_env \<Rightarrow> ProcessResult \<times> processor" where
  "process re =
     (let s0 = emit TaskStarted init_processor in
      case execution_order re of
        Inl e \<Rightarrow> abort (GraphError e) s0
      | Inr order \<Rightarrow>
          if order = [] then (\<lparr>res_success = True, res_error_message = Inr None\<rparr>, emit TaskSucceeded s0)
          else
            let s1 = emit TaskRunning s0;
                (ok, s2) = prepare_cache_frontier re order s1
            in if \<not> ok then abort not_registered s2
               else case prepare_metadata_variable_prepass_order re order s2 of
                 Inl e \<Rightarrow> abort e s2
               | Inr prepass \<Rightarrow>
                   (case run_nodes re False prepass initial_loop s2 of
                      (Inl e, s3) \<Rightarrow> abort e s3
                    | (Inr ls0, s3) \<Rightarrow>
                        let ls = ls0\<lparr>ls_message := non_empty_message (ls_message ls0)\<rparr> in
                        if ls_stopped ls \<or> ls_break ls then conclude ls s3
                        else (case run_nodes re True (effective_execution_order order s3) ls s3 of
                            (Inl e, s4) \<Rightarrow> abort e s4
                          | (Inr ls', s4) \<Rightarrow> conclude ls' s4)))"

end
