(* ===== verification/Processor_Steps.thy ===== *)
theory Processor_Steps
  imports Pipeline_Processor
begin

text \<open>
  What one call of \<open>process_node\<close> can do to a run. The outcome of a node is described by the
  inductive relation \<open>node_outcome\<close> on the part of the state that steers the run (\<open>core\<close>): the
  bookkeeping lists, the poll counter and the task events. The safety proofs work on this relation
  and not on the code of a node.
\<close>

section \<open>The steering part of the state\<close>

fun task_event :: "event \<Rightarrow> bool" where
  "task_event (NodeErrorEvent n m) = False"
| "task_event (NodeMetadataEvent n) = False"
| "task_event (MetadataStored n k) = False"
| "task_event (SnapshotStored n) = False"
| "task_event _ = True"

definition core where
  "core s = (pr_planned s, pr_completed s, pr_recoverable_failed s, pr_executed s, pr_failed s, pr_skipped s,
     pr_restored s, pr_polls s, filter task_event (pr_events s))"

lemma core_eqD:
  assumes "core s = core s'"
  shows "pr_planned s = pr_planned s'" "pr_completed s = pr_completed s'"
    "pr_recoverable_failed s = pr_recoverable_failed s'" "pr_executed s = pr_executed s'" "pr_failed s = pr_failed s'"
    "pr_skipped s = pr_skipped s'" "pr_restored s = pr_restored s'" "pr_polls s = pr_polls s'"
    "filter task_event (pr_events s) = filter task_event (pr_events s')"
  using assms by (simp_all add: core_def)

lemma core_emit [simp]: "\<not> task_event e \<Longrightarrow> core (emit e s) = core s"
  by (simp add: core_def emit_def)

lemma core_data [simp]:
  "core (s\<lparr>pr_metadata := m\<rparr>) = core s" "core (s\<lparr>pr_stored := st\<rparr>) = core s"
  "core (s\<lparr>pr_outputs := os\<rparr>) = core s" "core (s\<lparr>pr_hashes := hs\<rparr>) = core s" "core (s\<lparr>pr_signals := sg\<rparr>) = core s"
  by (simp_all add: core_def)

lemma core_sync [simp]: "core (sync_node_signal_states n c ds os s) = core s"
  by (simp add: sync_node_signal_states_def)

lemma core_put_output [simp]: "core (put_output re n name v s) = core s"
  by (simp add: put_output_def core_def)

lemma core_set_outputs [simp]: "core (set_outputs re n os s) = core s"
  by (simp add: set_outputs_def core_def)

lemma core_store_outputs: "store_outputs re n ds os s = (ok, s') \<Longrightarrow> core s' = core s"
  by (induction re n ds os s rule: store_outputs.induct) (auto split: option.splits)

lemma core_cong:
  assumes "core s = core s'"
  shows "core (s\<lparr>pr_completed := c\<rparr>) = core (s'\<lparr>pr_completed := c\<rparr>)"
    "core (s\<lparr>pr_recoverable_failed := c\<rparr>) = core (s'\<lparr>pr_recoverable_failed := c\<rparr>)"
    "core (s\<lparr>pr_executed := c\<rparr>) = core (s'\<lparr>pr_executed := c\<rparr>)"
    "core (s\<lparr>pr_failed := c\<rparr>) = core (s'\<lparr>pr_failed := c\<rparr>)"
    "core (s\<lparr>pr_skipped := c\<rparr>) = core (s'\<lparr>pr_skipped := c\<rparr>)"
    "core (s\<lparr>pr_polls := p\<rparr>) = core (s'\<lparr>pr_polls := p\<rparr>)"
    "core (complete n s) = core (complete n s')" "core (mark_failed n s) = core (mark_failed n s')"
    "core (mark_skipped n s) = core (mark_skipped n s')"
  using assms by (simp_all add: core_def complete_def mark_failed_def mark_skipped_def)

section \<open>Outcomes of a node\<close>

text \<open>An additional poll of the stop event that was answered with no.\<close>

definition polled :: "run_env \<Rightarrow> processor \<Rightarrow> nat \<Rightarrow> bool" where
  "polled re s p \<longleftrightarrow> p = pr_polls s \<or> (p = Suc (pr_polls s) \<and> \<not> re_stop re (pr_polls s))"

definition may_run :: "run_env \<Rightarrow> node_id \<Rightarrow> processor \<Rightarrow> bool" where
  "may_run re n s \<longleftrightarrow> (\<exists>nd. map_of (re_pipeline re) n = Some nd \<and>
     set (gather_parent_ids (nd_inputs nd)) \<inter> set (pr_skipped s) = {} \<and>
     \<not> should_skip_due_to_recoverable_parent_failure (nd_inputs nd) s \<and>
     \<not> has_inactive_required_signal (nd_inputs nd) s)"

inductive node_outcome :: "run_env \<Rightarrow> node_id \<Rightarrow> processor \<Rightarrow> step_result \<Rightarrow> processor \<Rightarrow> bool"
  for re :: run_env and n :: node_id and s :: processor where
  Prepared: "n \<in> set (pr_completed s) \<Longrightarrow> node_outcome re n s (Step False False None) s"
| Skipped: "n \<notin> set (pr_completed s) \<Longrightarrow> core s' = core (mark_skipped n s) \<Longrightarrow>
    node_outcome re n s (Step False False None) s'"
| Policy: "n \<notin> set (pr_completed s) \<Longrightarrow> re_mode re = METADATA_ONLY \<Longrightarrow>
    node_outcome re n s (Step False False None) s"
| Restored: "n \<notin> set (pr_completed s) \<Longrightarrow> re_mode re = METADATA_ONLY \<Longrightarrow> core s' = core (complete n s) \<Longrightarrow>
    node_outcome re n s (Step False False None) s'"
| Raised: "n \<notin> set (pr_completed s) \<Longrightarrow> c \<in> {pr_completed s, set_add n (pr_completed s)} \<Longrightarrow> polled re s p \<Longrightarrow>
    core s' = core (s\<lparr>pr_completed := c, pr_polls := p\<rparr>) \<Longrightarrow> node_outcome re n s (Exception e) s'"
| Invalid: "n \<notin> set (pr_completed s) \<Longrightarrow> core s' = core (mark_failed n (mark_skipped n s)) \<Longrightarrow>
    node_outcome re n s (Step False False (Some m)) s'"
| Executed: "n \<notin> set (pr_completed s) \<Longrightarrow> may_run re n s \<Longrightarrow>
    core s' = core (s\<lparr>pr_executed := pr_executed s @ [n], pr_completed := set_add n (pr_completed s),
      pr_polls := Suc (pr_polls s)\<rparr>) \<Longrightarrow>
    node_outcome re n s (Step (re_stop re (pr_polls s)) False None) s'"
| Recovered: "n \<notin> set (pr_completed s) \<Longrightarrow> has_error_signal_downstream (re_pipeline re) n \<Longrightarrow> polled re s p \<Longrightarrow>
    core s' = core (s\<lparr>pr_completed := set_add n (pr_completed s), pr_failed := set_add n (pr_failed s),
      pr_recoverable_failed := set_add n (pr_recoverable_failed s), pr_polls := p\<rparr>) \<Longrightarrow>
    node_outcome re n s (Step False False (Some m)) s'"
| Failed_metadata: "n \<notin> set (pr_completed s) \<Longrightarrow> re_mode re = METADATA_ONLY \<Longrightarrow> polled re s p \<Longrightarrow>
    core s' = core (s\<lparr>pr_failed := set_add n (pr_failed s), pr_skipped := set_add n (pr_skipped s), pr_polls := p\<rparr>) \<Longrightarrow>
    node_outcome re n s (Step False False (Some m)) s'"
| Failed: "n \<notin> set (pr_completed s) \<Longrightarrow> re_mode re = FULL \<Longrightarrow> polled re s p \<Longrightarrow>
    core s' = core (s\<lparr>pr_failed := set_add n (pr_failed s), pr_polls := p\<rparr>) \<Longrightarrow>
    node_outcome re n s (Step False True (Some m)) s'"
| Cancelled: "n \<notin> set (pr_completed s) \<Longrightarrow> re_stop re (pr_polls s) \<Longrightarrow>
    core s' = core (s\<lparr>pr_polls := Suc (pr_polls s)\<rparr>) \<Longrightarrow> node_outcome re n s (Step True False None) s'"

lemma node_failed_outcome:
  assumes "node_failed re n c df nr msg s1 = (r, s')" and "n \<notin> set (pr_completed s)"
    and "core s1 = core (s\<lparr>pr_polls := p\<rparr>)" and "polled re s p"
  shows "node_outcome re n s r s'"
proof -
  note fields = core_eqD [OF assms(3)]
  consider (recovered) "has_error_signal_downstream (re_pipeline re) n"
    | (metadata) "\<not> has_error_signal_downstream (re_pipeline re) n" "re_mode re = METADATA_ONLY"
    | (full) "\<not> has_error_signal_downstream (re_pipeline re) n" "re_mode re = FULL"
    by (cases "re_mode re") auto
  then show ?thesis
  proof cases
    case recovered
    obtain ok s3 where store: "store_outputs re n (dict_values (df_output_definitions df))
        (build_runtime_error_outputs nr df msg) (sync_node_signal_states n c (df_output_definitions df)
          (build_runtime_error_outputs nr df msg) (emit (NodeErrorEvent n msg) s1)) = (ok, s3)"
      by (meson surj_pair)
    have s3: "core s3 = core (s\<lparr>pr_polls := p\<rparr>)" using core_store_outputs [OF store] assms(3) by simp
    show ?thesis
    proof (cases ok)
      case True
      have "r = Step False False (Some msg)" "core s' = core (s\<lparr>pr_completed := set_add n (pr_completed s),
          pr_failed := set_add n (pr_failed s), pr_recoverable_failed := set_add n (pr_recoverable_failed s), pr_polls := p\<rparr>)"
        using assms(1) recovered True store s3
        by (auto simp: node_failed_def Let_def core_def complete_def mark_failed_def)
      then show ?thesis using node_outcome.Recovered [OF assms(2) recovered assms(4)] by simp
    next
      case False
      then have "r = Exception (UnexpectedException ''KeyError'')" "s' = s3"
        using assms(1) recovered store by (auto simp: node_failed_def Let_def)
      then show ?thesis
        using node_outcome.Raised [OF assms(2) _ assms(4), of "pr_completed s" s'] s3 by simp
    qed
  next
    case metadata
    then have "r = Step False False (Some msg)" "core s' = core (s\<lparr>pr_failed := set_add n (pr_failed s),
        pr_skipped := set_add n (pr_skipped s), pr_polls := p\<rparr>)"
      using assms(1,3) by (auto simp: node_failed_def Let_def core_def mark_failed_def mark_skipped_def emit_def)
    then show ?thesis using node_outcome.Failed_metadata [OF assms(2) metadata(2) assms(4)] by simp
  next
    case full
    then have "r = Step False True (Some msg)" "core s' = core (s\<lparr>pr_failed := set_add n (pr_failed s), pr_polls := p\<rparr>)"
      using assms(1,3) by (auto simp: node_failed_def Let_def core_def mark_failed_def emit_def)
    then show ?thesis using node_outcome.Failed [OF assms(2) full(2) assms(4)] by simp
  qed
qed

lemma polled_refl [simp]: "polled re s (pr_polls s)"
  by (simp add: polled_def)

lemma core_polls_id: "core (s\<lparr>pr_polls := pr_polls s\<rparr>) = core s"
  by (simp add: core_def)

lemma node_raised:
  assumes "n \<notin> set (pr_completed s)" and "core s' = core s"
  shows "node_outcome re n s (Exception e) s'"
proof -
  have "core s' = core (s\<lparr>pr_completed := pr_completed s, pr_polls := pr_polls s\<rparr>)"
    using assms(2) by (simp add: core_def)
  from node_outcome.Raised [OF assms(1) _ polled_refl this] show ?thesis by simp
qed

lemma node_succeeded_outcome:
  assumes "node_succeeded re n c df nr key os s1 = (r, s')" and "n \<notin> set (pr_completed s)"
    and "core s1 = core s" and "may_run re n s"
  shows "node_outcome re n s r s'"
proof -
  obtain ok s2 where store: "store_outputs re n (dict_values (df_output_definitions df)) os
      (sync_node_signal_states n c (df_output_definitions df) os s1) = (ok, s2)"
    by (meson surj_pair)
  have s2: "core s2 = core s" using core_store_outputs [OF store] assms(3) by simp
  show ?thesis
  proof (cases "\<not> ok \<or> (\<exists>m. nr_resolve_metadata nr = Inl m)")
    case True
    then obtain e where "r = Exception e" "s' = s2"
      using assms(1) store by (auto simp: node_succeeded_def Let_def split: if_splits)
    then show ?thesis using node_raised [OF assms(2) s2] by simp
  next
    case False
    then obtain md where md: "ok" "nr_resolve_metadata nr = Inr md" by (cases "nr_resolve_metadata nr") auto
    have "r = Step (re_stop re (pr_polls s)) False None \<and> core s' = core (s\<lparr>pr_executed := pr_executed s @ [n],
        pr_completed := set_add n (pr_completed s), pr_polls := Suc (pr_polls s)\<rparr>)"
      using assms(1) store s2 md
      by (auto simp: node_succeeded_def Let_def core_def complete_def stop_requested_def emit_def split: if_splits)
    then show ?thesis using node_outcome.Executed [OF assms(2,4)] by simp
  qed
qed

lemma try_restore_cases:
  assumes "try_restore_node_meta_cache_and_skip re n c key ds s = (b, s')"
  shows "(b \<and> re_mode re = METADATA_ONLY \<and> core s' = core (complete n s)) \<or> (\<not> b \<and> s' = s)"
proof (cases b)
  case True
  then have "re_mode re \<noteq> FULL \<and> core s' = core (complete n s)"
    using assms by (auto simp: try_restore_node_meta_cache_and_skip_def Let_def core_def complete_def
        set_outputs_def sync_node_signal_states_def split: if_splits option.splits)
  then show ?thesis using True by (cases "re_mode re") auto
next
  case False
  then show ?thesis using assms
    by (auto simp: try_restore_node_meta_cache_and_skip_def Let_def split: if_splits option.splits)
qed

lemma run_node_outcome:
  assumes "run_node re n c df nd kw nr ek s = (r, s')" and "n \<notin> set (pr_completed s)" and "may_run re n s"
  shows "node_outcome re n s r s'"
proof (cases "gather_parent_hashes_and_constants re df (nd_inputs nd) (runtime_variables_map re kw) s")
  case (Inl e)
  then show ?thesis using assms(1) node_raised [OF assms(2), of s' re] by (auto simp: run_node_def)
next
  case (Inr hc)
  obtain hashes constants where hc: "hc = (hashes, constants)" by (cases hc)
  define key where "key = (case nr_cache_key nr of Some (c # cs) \<Rightarrow> c # cs
    | _ \<Rightarrow> (case ek of Some k \<Rightarrow> k | None \<Rightarrow> create_node_inputs_fingerprint (re_hash re False) c hashes constants))"
  obtain b s1 where tr: "(if nc_CACHABLE c \<and> metadata_cache_allowed_for_node re n \<and> ek = None
      then try_restore_node_meta_cache_and_skip re n c key (df_output_definitions df) s else (False, s)) = (b, s1)"
    by (meson surj_pair)
  have run: "run_node re n c df nd kw nr ek s = (if b then (Step False False None, emit (NodeMetadataEvent n) s1)
      else case nr_execute nr of
          Executed os \<Rightarrow> node_succeeded re n c df nr key os s1
        | NodeRaised msg \<Rightarrow> node_failed re n c df nr msg s1
        | NodeCancelled msg \<Rightarrow>
            let (stop, s2) = stop_requested re s1
            in if stop then (Step True False None, s2) else node_failed re n c df nr msg s2)"
    using Inr tr by (simp add: run_node_def hc flip: key_def)
  have tried: "(b \<and> re_mode re = METADATA_ONLY \<and> core s1 = core (complete n s)) \<or> (\<not> b \<and> s1 = s)"
    using tr try_restore_cases [of re n c key "df_output_definitions df" s b s1] by (auto split: if_splits)
  show ?thesis
  proof (cases b)
    case True
    then show ?thesis
      using assms(1) run tried node_outcome.Restored [OF assms(2), of re s'] by auto
  next
    case False
    then have s1: "s1 = s" using tried by simp
    show ?thesis
    proof (cases "nr_execute nr")
      case (Executed os)
      then show ?thesis using assms run False s1 node_succeeded_outcome by auto
    next
      case (NodeRaised msg)
      then show ?thesis
        using assms(1) run False s1 node_failed_outcome [OF _ assms(2) core_polls_id [symmetric] polled_refl] by auto
    next
      case (NodeCancelled msg)
      then show ?thesis
        using assms(1) run False s1 node_failed_outcome [OF _ assms(2) refl, of re c df nr msg "Suc (pr_polls s)" r s']
          node_outcome.Cancelled [OF assms(2), of re s']
        by (auto simp: stop_requested_def polled_def split: if_splits)
    qed
  qed
qed

lemma early_restore_cases:
  assumes "try_restore_before_instantiation re n c df nd s = (res, s1)"
  shows "(\<exists>k. res = Inr (True, k) \<and> re_mode re = METADATA_ONLY \<and> core s1 = core (complete n s)) \<or>
    ((\<nexists>k. res = Inr (True, k)) \<and> s1 = s)"
proof (cases "incremental_metadata_enabled re \<and> metadata_cache_allowed_for_node re n \<and> re_has_metadata_store re \<and>
    nc_CACHABLE c \<and> \<not> nc_own_cache_key c")
  case True
  show ?thesis
  proof (cases "gather_parent_hashes_and_constants re df (nd_inputs nd) (re_project_variables re) s")
    case (Inl e)
    then show ?thesis using assms True by (auto simp: try_restore_before_instantiation_def)
  next
    case (Inr hc)
    obtain hashes constants where hc: "hc = (hashes, constants)" by (cases hc)
    let ?key = "create_node_inputs_fingerprint (re_hash re False) c hashes constants"
    obtain b s2 where tr: "try_restore_node_meta_cache_and_skip re n c ?key (df_output_definitions df) s = (b, s2)"
      by (meson surj_pair)
    then have "res = Inr (b, Some ?key)" "s1 = s2"
      using assms True Inr hc by (auto simp: try_restore_before_instantiation_def Let_def)
    then show ?thesis using try_restore_cases [OF tr] by auto
  qed
next
  case False
  then show ?thesis using assms by (auto simp: try_restore_before_instantiation_def split: if_splits)
qed

lemma prepared_node_cases:
  assumes "prepared_node re n c df nd s = (r, s')" and "try_restore_before_instantiation re n c df nd s = (res, s1)"
  obtains (raised) e where "r = Exception e" "s' = s1"
    | (restored) k where "res = Inr (True, k)" "r = Step False False None" "s' = emit (NodeMetadataEvent n) s1"
    | (invalid) m m' k where "r = Step False False (Some m)" "res = Inr (False, k)"
        "s' = mark_failed n (mark_skipped n (emit (NodeErrorEvent n m') s1))"
    | (running) kw nr k where "run_node re n c df nd kw nr k s1 = (r, s')" "res = Inr (False, k)"
proof (cases res)
  case (Inl e)
  then have "r = Exception (InputError e) \<and> s' = s1" using assms by (simp add: prepared_node_def)
  then show ?thesis using raised by simp
next
  case (Inr x)
  obtain b k where x: "x = (b, k)" by (cases x)
  show ?thesis
  proof (cases "node_kwargs_for re df nd s1")
    case (Inl e)
    then have "r = Exception (InputError e) \<and> s' = s1" using assms Inr x by (simp add: prepared_node_def)
    then show ?thesis using raised by simp
  next
    case kw: (Inr kw)
    show ?thesis
    proof (cases "nr_create_error (re_node re n kw)")
      case (Some m)
      then have "r = Exception (UnexpectedException m) \<and> s' = s1" using assms Inr x kw by (simp add: prepared_node_def Let_def)
      then show ?thesis using raised by simp
    next
      case None
      show ?thesis
      proof (cases b)
        case True
        then have "r = Step False False None \<and> s' = emit (NodeMetadataEvent n) s1"
          using assms Inr x kw None by (simp add: prepared_node_def Let_def)
        then show ?thesis using Inr x True restored by simp
      next
        case False
        show ?thesis
        proof (cases "nr_validate (re_node re n kw)")
          case Valid
          then have "run_node re n c df nd kw (re_node re n kw) k s1 = (r, s')"
            using assms Inr x kw None False by (simp add: prepared_node_def Let_def)
          then show ?thesis using Inr x False running by simp
        next
          case (NodeValidationError m)
          then have "r = Step False False (Some (''Validation error for node '' @ n @ '' ('' @ nc_name c @ ''): '' @ m)) \<and>
              s' = mark_failed n (mark_skipped n (emit (NodeErrorEvent n (''Validation error: '' @ m)) s1))"
            using assms Inr x kw None False by (simp add: prepared_node_def Let_def)
          then show ?thesis using Inr x False invalid by simp
        next
          case (ValidationRaised m)
          then have "r = Exception (UnexpectedException m) \<and> s' = s1"
            using assms Inr x kw None False by (simp add: prepared_node_def Let_def)
          then show ?thesis using raised by simp
        qed
      qed
    qed
  qed
qed

lemma prepared_node_outcome:
  assumes "prepared_node re n c df nd s = (r, s')" and "n \<notin> set (pr_completed s)" and "may_run re n s"
  shows "node_outcome re n s r s'"
proof -
  obtain res s1 where early: "try_restore_before_instantiation re n c df nd s = (res, s1)" by (meson surj_pair)
  from early_restore_cases [OF early] show ?thesis
  proof (elim disjE exE conjE)
    fix k assume k: "res = Inr (True, k)" "re_mode re = METADATA_ONLY" "core s1 = core (complete n s)"
    have raised: "node_outcome re n s (Exception e) s1" for e
    proof -
      have "core s1 = core (s\<lparr>pr_completed := set_add n (pr_completed s), pr_polls := pr_polls s\<rparr>)"
        using k(3) by (simp add: core_def complete_def)
      from node_outcome.Raised [OF assms(2) _ polled_refl this] show ?thesis by simp
    qed
    have restored: "node_outcome re n s (Step False False None) (emit (NodeMetadataEvent n) s1)"
      by (rule node_outcome.Restored [OF assms(2) k(2)]) (simp add: k(3))
    show ?thesis by (cases rule: prepared_node_cases [OF assms(1) early]) (simp_all add: k(1) raised restored)
  next
    assume k: "\<nexists>k. res = Inr (True, k)" "s1 = s"
    have invalid: "node_outcome re n s (Step False False (Some m))
        (mark_failed n (mark_skipped n (emit (NodeErrorEvent n m') s)))" for m m'
      by (rule node_outcome.Invalid [OF assms(2)]) (simp add: core_def mark_failed_def mark_skipped_def emit_def)
    show ?thesis
      by (cases rule: prepared_node_cases [OF assms(1) early])
        (use k in \<open>simp_all add: node_raised [OF assms(2) refl] invalid run_node_outcome [OF _ assms(2,3)]\<close>)
  qed
qed

theorem process_node_outcome:
  assumes "process_node re n s = (r, s')"
  shows "node_outcome re n s r s'"
proof (cases "n \<in> set (pr_completed s)")
  case True
  then show ?thesis using assms by (auto simp: process_node_def intro: node_outcome.Prepared)
next
  case False
  note raised = node_raised [OF False refl, of re] and skipped = node_outcome.Skipped [OF False refl, of re]
    and policy = node_outcome.Policy [OF False, of re]
  show ?thesis
  proof (cases "map_of (re_pipeline re) n")
    case None
    then show ?thesis using assms False raised by (auto simp: process_node_def)
  next
    case (Some nd)
    let ?blocked = "(\<exists>m \<in> set (gather_parent_ids (nd_inputs nd)). m \<in> set (pr_skipped s)) \<or>
      should_skip_due_to_recoverable_parent_failure (nd_inputs nd) s"
    show ?thesis
    proof (cases "?blocked \<or> has_inactive_required_signal (nd_inputs nd) s")
      case True
      then show ?thesis
        using assms False Some raised skipped policy
        by (auto simp: process_node_def split: if_splits option.splits)
    next
      case unblocked: False
      then have "may_run re n s" using Some by (auto simp: may_run_def)
      then show ?thesis
        using assms False Some unblocked raised policy prepared_node_outcome [OF _ False]
        by (auto simp: process_node_def split: if_splits option.splits)
    qed
  qed
qed

end
