(* ===== verification/Processor_Runs.thy ===== *)
theory Processor_Runs
  imports Processor_Steps "HOL-Library.Sublist"
begin

text \<open>
  Runs of the processor: invariants of the node loop as a locale, the phases of \<open>process\<close>, and what
  holds of every run whatever the nodes, the stores and the stop event do.
\<close>

section \<open>Invariants of the node loop\<close>

text \<open>The state in which a node is processed: the stop event has been polled, where the loop polls it.\<close>

definition ready :: "run_env \<Rightarrow> bool \<Rightarrow> processor \<Rightarrow> processor \<Rightarrow> bool" where
  "ready re poll s s0 \<longleftrightarrow>
     (if poll then \<not> re_stop re (pr_polls s) \<and> s0 = s\<lparr>pr_polls := Suc (pr_polls s)\<rparr> else s0 = s)"

definition next_loop :: "bool \<Rightarrow> bool \<Rightarrow> bool \<Rightarrow> string option \<Rightarrow> loop_state \<Rightarrow> loop_state" where
  "next_loop poll st br m ls = ls\<lparr>ls_stopped := st, ls_break := br,
     ls_had_error := ls_had_error ls \<or> m \<noteq> None \<or> br, ls_message := first_message poll (ls_message ls) m\<rparr>"

lemma run_nodes_Cons:
  assumes "run_nodes re poll (n # ns) ls s = (res, s')"
  obtains (stopped) "poll" "re_stop re (pr_polls s)" "res = Inr (ls\<lparr>ls_stopped := True\<rparr>)"
      "s' = s\<lparr>pr_polls := Suc (pr_polls s)\<rparr>"
    | (going_on) s0 m s1 where "ready re poll s s0" "node_outcome re n s0 (Step False False m) s1"
        "run_nodes re poll ns (next_loop poll False False m ls) s1 = (res, s')"
    | (left) s0 st br m where "ready re poll s s0" "node_outcome re n s0 (Step st br m) s'" "st \<or> br"
        "res = Inr (next_loop poll st br m ls)"
    | (raised) s0 e where "ready re poll s s0" "node_outcome re n s0 (Exception e) s'" "res = Inl e"
proof (cases "poll \<and> re_stop re (pr_polls s)")
  case True
  then show ?thesis using assms stopped by (simp add: stop_requested_def)
next
  case False
  define s0 where "s0 = (if poll then s\<lparr>pr_polls := Suc (pr_polls s)\<rparr> else s)"
  have s0: "ready re poll s s0" and head: "(if poll then stop_requested re s else (False, s)) = (False, s0)"
    using False by (auto simp: ready_def stop_requested_def s0_def)
  obtain r s1 where node: "process_node re n s0 = (r, s1)" by (meson surj_pair)
  note outcome = process_node_outcome [OF node]
  show ?thesis
  proof (cases r)
    case (Step st br m)
    then have run: "(if st \<or> br then (Inr (next_loop poll st br m ls), s1)
        else run_nodes re poll ns (next_loop poll st br m ls) s1) = (res, s')"
      using assms head node unfolding next_loop_def by (simp add: Let_def cong: if_cong del: not_None_eq)
    show ?thesis
    proof (cases "st \<or> br")
      case True
      then show ?thesis using left [OF s0, of st br m] run outcome Step by simp
    next
      case False
      then show ?thesis using going_on [OF s0, of m s1] run outcome Step by simp
    qed
  next
    case (Exception e)
    then show ?thesis using raised [OF s0, of e] assms head node outcome by simp
  qed
qed

text \<open>
  \<open>I xs s\<close> holds of the state \<open>s\<close> after the nodes \<open>xs\<close> of \<open>order\<close> as long as the loop goes on; \<open>Q\<close>
  holds of every state in which it ends.
\<close>

locale node_loop =
  fixes re :: run_env and poll :: bool and order :: "node_id list"
    and I :: "node_id list \<Rightarrow> processor \<Rightarrow> bool" and Q :: "processor \<Rightarrow> bool"
  assumes ending: "I xs s \<Longrightarrow> Q s"
    and stopped: "poll \<Longrightarrow> I xs s \<Longrightarrow> re_stop re (pr_polls s) \<Longrightarrow> Q (s\<lparr>pr_polls := Suc (pr_polls s)\<rparr>)"
    and going_on: "order = xs @ n # ys \<Longrightarrow> I xs s \<Longrightarrow> ready re poll s s0 \<Longrightarrow>
      node_outcome re n s0 (Step False False m) s' \<Longrightarrow> I (xs @ [n]) s'"
    and leaving: "order = xs @ n # ys \<Longrightarrow> I xs s \<Longrightarrow> ready re poll s s0 \<Longrightarrow> node_outcome re n s0 r s' \<Longrightarrow> Q s'"
begin

lemma run_nodes_invariant:
  assumes "run_nodes re poll ns ls s = (res, s')" and "order = xs @ ns" and "I xs s"
  shows "Q s' \<and> (\<forall>ls'. res = Inr ls' \<longrightarrow> ls_stopped ls' \<or> ls_break ls' \<or> I order s')"
  using assms
proof (induction ns arbitrary: ls s xs)
  case Nil
  then show ?case using ending by auto
next
  case (Cons n ns)
  from Cons.prems(1) show ?case
  proof (cases rule: run_nodes_Cons)
    case stopped
    then show ?thesis using Cons.prems(3) node_loop.stopped [OF node_loop_axioms] by auto
  next
    case (going_on s0 m s1)
    have "I (xs @ [n]) s1" by (rule node_loop.going_on [OF node_loop_axioms Cons.prems(2,3) going_on(1,2)])
    then show ?thesis using Cons.IH [OF going_on(3), of "xs @ [n]"] Cons.prems(2) by simp
  next
    case (left s0 st br m)
    then show ?thesis using leaving [OF Cons.prems(2,3) left(1,2)] by (auto simp: next_loop_def)
  next
    case (raised s0 e)
    then show ?thesis using leaving [OF Cons.prems(2,3) raised(1,2)] by simp
  qed
qed

end

section \<open>Phases of a run\<close>

definition started :: processor where
  "started = emit TaskStarted init_processor"

lemma process_cases:
  assumes "process re = out"
  obtains (no_order) e where "execution_order re = Inl e" "out = abort (GraphError e) started"
    | (empty) "execution_order re = Inr []" "out = (\<lparr>res_success = True, res_error_message = Inr None\<rparr>, emit TaskSucceeded started)"
    | (no_frontier) order s2 where "execution_order re = Inr order" "order \<noteq> []"
        "prepare_cache_frontier re order (emit TaskRunning started) = (False, s2)" "out = abort not_registered s2"
    | (no_prepass) order s2 e where "execution_order re = Inr order" "order \<noteq> []"
        "prepare_cache_frontier re order (emit TaskRunning started) = (True, s2)"
        "prepare_metadata_variable_prepass_order re order s2 = Inl e" "out = abort e s2"
    | (prepass_raised) order s2 prepass s3 e where "execution_order re = Inr order" "order \<noteq> []"
        "prepare_cache_frontier re order (emit TaskRunning started) = (True, s2)"
        "prepare_metadata_variable_prepass_order re order s2 = Inr prepass"
        "run_nodes re False prepass initial_loop s2 = (Inl e, s3)" "out = abort e s3"
    | (prepass_left) order s2 prepass s3 ls where "execution_order re = Inr order" "order \<noteq> []"
        "prepare_cache_frontier re order (emit TaskRunning started) = (True, s2)"
        "prepare_metadata_variable_prepass_order re order s2 = Inr prepass"
        "run_nodes re False prepass initial_loop s2 = (Inr ls, s3)" "ls_stopped ls \<or> ls_break ls"
        "out = conclude (ls\<lparr>ls_message := non_empty_message (ls_message ls)\<rparr>) s3"
    | (main) order s2 prepass s3 ls res s4 where "execution_order re = Inr order" "order \<noteq> []"
        "prepare_cache_frontier re order (emit TaskRunning started) = (True, s2)"
        "prepare_metadata_variable_prepass_order re order s2 = Inr prepass"
        "run_nodes re False prepass initial_loop s2 = (Inr ls, s3)" "\<not> (ls_stopped ls \<or> ls_break ls)"
        "run_nodes re True (effective_execution_order order s3) (ls\<lparr>ls_message := non_empty_message (ls_message ls)\<rparr>) s3 = (res, s4)"
        "out = (case res of Inl e \<Rightarrow> abort e s4 | Inr ls' \<Rightarrow> conclude ls' s4)"
proof (cases "execution_order re")
  case (Inl e)
  then show ?thesis using assms no_order by (simp add: process_def started_def Let_def)
next
  case order: (Inr order)
  show ?thesis
  proof (cases "order = []")
    case True
    then show ?thesis using assms order empty by (simp add: process_def started_def Let_def)
  next
    case False
    obtain ok s2 where prep: "prepare_cache_frontier re order (emit TaskRunning started) = (ok, s2)" by (meson surj_pair)
    have out: "out = (if \<not> ok then abort not_registered s2
        else case prepare_metadata_variable_prepass_order re order s2 of
          Inl e \<Rightarrow> abort e s2
        | Inr prepass \<Rightarrow>
            (case run_nodes re False prepass initial_loop s2 of
               (Inl e, s3) \<Rightarrow> abort e s3
             | (Inr ls0, s3) \<Rightarrow>
                 let ls = ls0\<lparr>ls_message := non_empty_message (ls_message ls0)\<rparr> in
                 if ls_stopped ls \<or> ls_break ls then conclude ls s3
                 else (case run_nodes re True (effective_execution_order order s3) ls s3 of
                     (Inl e, s4) \<Rightarrow> abort e s4
                   | (Inr ls', s4) \<Rightarrow> conclude ls' s4)))"
      using assms order False prep by (simp add: process_def started_def Let_def)
    show ?thesis
    proof (cases ok)
      case notok: False
      then show ?thesis using no_frontier order False prep out by simp
    next
      case ok: True
      show ?thesis
      proof (cases "prepare_metadata_variable_prepass_order re order s2")
        case (Inl e)
        then show ?thesis using no_prepass order False prep out ok by simp
      next
        case pre: (Inr prepass)
        obtain r s3 where nodes: "run_nodes re False prepass initial_loop s2 = (r, s3)" by (meson surj_pair)
        show ?thesis
        proof (cases r)
          case (Inl e)
          then show ?thesis using prepass_raised order False prep out ok pre nodes by simp
        next
          case ls: (Inr ls)
          obtain res s4 where main_nodes: "run_nodes re True (effective_execution_order order s3)
              (ls\<lparr>ls_message := non_empty_message (ls_message ls)\<rparr>) s3 = (res, s4)" by (meson surj_pair)
          show ?thesis
          proof (cases "ls_stopped ls \<or> ls_break ls")
            case True
            then show ?thesis
              using prepass_left [OF order False _ pre] prep out ok pre nodes ls by (simp add: Let_def)
          next
            case left: False
            then have "out = (case res of Inl e \<Rightarrow> abort e s4 | Inr ls' \<Rightarrow> conclude ls' s4)"
              using prep out ok pre nodes ls main_nodes by (simp add: Let_def split: sum.split)
            then show ?thesis
              using main [OF order False _ pre] prep ok nodes ls left main_nodes by simp
          qed
        qed
      qed
    qed
  qed
qed

section \<open>The cache frontier\<close>

lemma set_set_add [simp]: "set (set_add x xs) = insert x (set xs)"
  by (auto simp: set_add_def)

lemma apply_restored_fields [simp]:
  "pr_executed (apply_restored_entry re n c ds e s) = pr_executed s"
  "pr_failed (apply_restored_entry re n c ds e s) = pr_failed s"
  "pr_skipped (apply_restored_entry re n c ds e s) = pr_skipped s"
  "pr_recoverable_failed (apply_restored_entry re n c ds e s) = pr_recoverable_failed s"
  "pr_polls (apply_restored_entry re n c ds e s) = pr_polls s"
  "pr_planned (apply_restored_entry re n c ds e s) = pr_planned s"
  "pr_events (apply_restored_entry re n c ds e s) = pr_events s"
  "pr_restored (apply_restored_entry re n c ds e s) = pr_restored s @ [n]"
  "pr_completed (apply_restored_entry re n c ds e s) = set_add n (pr_completed s)"
  by (simp_all add: apply_restored_entry_def Let_def sync_node_signal_states_def set_outputs_def complete_def)

text \<open>The state between the start of a run and its first node: only restored nodes are recorded.\<close>

definition restored_only :: "processor \<Rightarrow> bool" where
  "restored_only s \<longleftrightarrow> pr_executed s = [] \<and> pr_failed s = [] \<and> pr_skipped s = [] \<and> pr_recoverable_failed s = [] \<and>
     pr_polls s = 0 \<and> pr_events s = [TaskStarted, TaskRunning] \<and> distinct (pr_restored s) \<and>
     set (pr_completed s) = set (pr_restored s)"

lemma restored_only_start: "restored_only (emit TaskRunning started)"
  by (simp add: restored_only_def started_def emit_def init_processor_def)

text \<open>The calls of \<^verbatim>\<open>require_node\<close> as a relation, for rule induction.\<close>

inductive requires :: "run_env \<Rightarrow> node_id list \<Rightarrow> node_id list \<Rightarrow> node_id list \<Rightarrow> node_id list \<Rightarrow> node_id list \<Rightarrow>
    processor \<Rightarrow> node_id list option \<Rightarrow> processor \<Rightarrow> bool"
  for re :: run_env and affected :: "node_id list" and fresh :: "node_id list" where
  Empty: "requires re affected fresh [] rq vis s (Some rq) s"
| Pass: "n \<in> set vis \<or> map_of (re_pipeline re) n = None \<Longrightarrow> requires re affected fresh st rq vis s res s' \<Longrightarrow>
    requires re affected fresh (n # st) rq vis s res s'"
| Restore: "map_of (re_pipeline re) n = Some nd \<Longrightarrow> n \<notin> set vis \<Longrightarrow> can_restore re affected fresh n nd c \<Longrightarrow>
    re_snapshot re n = Some e \<Longrightarrow>
    requires re affected fresh st rq (vis @ [n]) (apply_restored_entry re n c ds e s) res s' \<Longrightarrow>
    requires re affected fresh (n # st) rq vis s res s'"
| Require: "map_of (re_pipeline re) n = Some nd \<Longrightarrow> n \<notin> set vis \<Longrightarrow>
    requires re affected fresh (re_ord re (gather_parent_ids (nd_inputs nd)) @ st) (set_add n rq) (vis @ [n]) s res s' \<Longrightarrow>
    requires re affected fresh (n # st) rq vis s res s'"
| Raise: "requires re affected fresh (n # st) rq vis s None s"

lemma require_nodes_requires:
  "require_nodes re affected fresh st rq vis s = (res, s') \<Longrightarrow> requires re affected fresh st rq vis s res s'"
proof (induction re affected fresh st rq vis s rule: require_nodes.induct)
  case (1 re affected fresh required visited s)
  then show ?case by (auto intro: requires.Empty)
next
  case (2 re affected fresh n st rq vis s)
  show ?case
  proof (cases "map_of (re_pipeline re) n")
    case None
    then show ?thesis using 2 requires.Pass [of n vis re] by simp
  next
    case (Some nd)
    show ?thesis
    proof (cases "n \<in> set vis")
      case True
      then show ?thesis using 2 Some requires.Pass [of n vis re] by simp
    next
      case new: False
      consider (known) c df where "re_classes re (nd_name nd) = Some c" "re_defs re (nd_name nd) = Some df"
        | (unknown) "re_classes re (nd_name nd) = None \<or> re_defs re (nd_name nd) = None"
        by (metis option.exhaust)
      then show ?thesis
      proof cases
        case known
        show ?thesis
        proof (cases "if can_restore re affected fresh n nd c then re_snapshot re n else None")
          case None
          then show ?thesis
            using 2(3) [OF Some new refl known None] 2(5) Some new known requires.Require [OF Some new] by simp
        next
          case entry: (Some e)
          then have "can_restore re affected fresh n nd c" "re_snapshot re n = Some e" by (auto split: if_splits)
          then show ?thesis
            using 2(4) [OF Some new refl known entry] 2(5) Some new known entry requires.Restore [OF Some new] by simp
        qed
      next
        case unknown
        then have "res = None" "s' = s" using 2(5) Some new by (auto split: option.splits)
        then show ?thesis by (simp add: requires.Raise)
      qed
    qed
  qed
qed

lemma requires_restored_only:
  "requires re affected fresh st rq vis s res s' \<Longrightarrow> restored_only s \<Longrightarrow> set (pr_restored s) \<subseteq> set vis \<Longrightarrow> restored_only s'"
proof (induction rule: requires.induct)
  case (Restore n nd vis c e st rq ds s res s')
  have "restored_only (apply_restored_entry re n c ds e s)"
    using Restore.prems Restore.hyps(2) by (auto simp: restored_only_def)
  then show ?case using Restore.IH Restore.prems(2) by auto
qed auto

text \<open>The parents of a node that are nodes of the pipeline.\<close>

definition parents :: "run_env \<Rightarrow> node_id \<Rightarrow> node_id set" where
  "parents re n = (case map_of (re_pipeline re) n of
     None \<Rightarrow> {} | Some nd \<Rightarrow> set (gather_parent_ids (nd_inputs nd)) \<inter> dom (map_of (re_pipeline re)))"

text \<open>Visited nodes are required or restored, and the parents of required nodes are visited or still to come.\<close>

definition frontier :: "run_env \<Rightarrow> node_id list \<Rightarrow> node_id list \<Rightarrow> node_id list \<Rightarrow> node_id list \<Rightarrow> node_id set \<Rightarrow> processor \<Rightarrow> bool" where
  "frontier re affected fresh st rq vis s \<longleftrightarrow>
     vis = set rq \<union> set (pr_restored s) \<and> set rq \<inter> set (pr_restored s) = {} \<and> vis \<subseteq> dom (map_of (re_pipeline re)) \<and>
     (\<forall>n \<in> set rq. parents re n \<subseteq> vis \<union> set st) \<and>
     (\<forall>n \<in> set (pr_restored s). n \<notin> set affected \<and> n \<notin> set fresh \<and> re_snapshot re n \<noteq> None)"

lemma parents_dom: "parents re n \<subseteq> dom (map_of (re_pipeline re))"
  by (auto simp: parents_def split: option.splits)

lemma frontierD:
  assumes "frontier re affected fresh st rq vis s"
  shows "vis = set rq \<union> set (pr_restored s)" and "set rq \<inter> set (pr_restored s) = {}"
    and "vis \<subseteq> dom (map_of (re_pipeline re))" and "n \<in> set rq \<Longrightarrow> parents re n \<subseteq> vis \<union> set st"
    and "n \<in> set (pr_restored s) \<Longrightarrow> n \<notin> set affected \<and> n \<notin> set fresh \<and> re_snapshot re n \<noteq> None"
  using assms by (auto simp: frontier_def)

lemma requires_frontier:
  assumes "requires re affected fresh st rq vis s res s'" and "\<And>xs. mset (re_ord re xs) = mset xs"
    and "res = Some rq'" and "frontier re affected fresh st rq (set vis) s"
  shows "\<exists>vis'. frontier re affected fresh [] rq' vis' s' \<and> set vis \<union> set st \<inter> dom (map_of (re_pipeline re)) \<subseteq> vis'"
  using assms(1,3,4)
proof (induction rule: requires.induct)
  case (Empty rq vis s)
  then show ?case by auto
next
  case (Pass n vis st rq s res s')
  have "frontier re affected fresh st rq (set vis) s"
  proof -
    have known: "n \<in> set vis \<or> n \<notin> dom (map_of (re_pipeline re))" using Pass.hyps(1) by (simp add: domIff)
    have "parents re m \<subseteq> set vis \<union> set st" if "m \<in> set rq" for m
    proof -
      have "parents re m \<subseteq> set vis \<union> insert n (set st)" using frontierD(4) [OF Pass.prems(2) that] by auto
      then show ?thesis using known parents_dom [of re m] by blast
    qed
    then show ?thesis using frontierD [OF Pass.prems(2)] unfolding frontier_def by blast
  qed
  from Pass.IH [OF Pass.prems(1) this] show ?case using Pass.hyps(1) by (fastforce simp: dom_def)
next
  case (Restore n nd vis c e st rq ds s res s')
  have "frontier re affected fresh st rq (set (vis @ [n])) (apply_restored_entry re n c ds e s)"
  proof -
    have "parents re m \<subseteq> set (vis @ [n]) \<union> set st" if "m \<in> set rq" for m
      using frontierD(4) [OF Restore.prems(2) that] by auto
    then show ?thesis
      using frontierD(1-3,5) [OF Restore.prems(2)] Restore.hyps(1-4) unfolding frontier_def by (auto simp: can_restore_def)
  qed
  from Restore.IH [OF Restore.prems(1) this] show ?case by auto
next
  case (Require n nd vis st rq s res s')
  have ord: "set (re_ord re xs) = set xs" for xs using assms(2) [of xs] by (rule mset_eq_setD)
  have "frontier re affected fresh (re_ord re (gather_parent_ids (nd_inputs nd)) @ st) (set_add n rq) (set (vis @ [n])) s"
  proof -
    have "parents re m \<subseteq> set (vis @ [n]) \<union> set (re_ord re (gather_parent_ids (nd_inputs nd)) @ st)" if "m \<in> set (set_add n rq)" for m
      using frontierD(4) [OF Require.prems(2), of m] that Require.hyps(1) by (auto simp: ord parents_def)
    then show ?thesis
      using frontierD(1-3,5) [OF Require.prems(2)] Require.hyps(1,2) unfolding frontier_def by auto
  qed
  from Require.IH [OF Require.prems(1) this] show ?case by fastforce
next
  case (Raise n st rq vis s)
  then show ?case by simp
qed

lemma prepare_restored_only:
  assumes "prepare_cache_frontier re order s = (ok, s')" and "restored_only s" and "pr_restored s = []"
  shows "restored_only s'"
proof -
  have planned: "restored_only (t\<lparr>pr_planned := p\<rparr>)" if "restored_only t" for t p
    using that by (simp add: restored_only_def)
  show ?thesis
    using assms planned requires_restored_only [OF require_nodes_requires assms(2)]
    by (auto simp: prepare_cache_frontier_def Let_def split: if_splits option.splits prod.splits)
qed

end
