(* ===== verification/Processor_Safety.thy ===== *)
theory Processor_Safety
  imports Processor_Runs
begin

text \<open>
  Properties of pipeline runs that hold for any nodes, stores, visiting orders and stop events.
\<close>

section \<open>Bookkeeping\<close>

definition bookkeeping :: "processor \<Rightarrow> bool" where
  "bookkeeping s \<longleftrightarrow> distinct (pr_restored s @ pr_executed s) \<and>
     set (pr_restored s) \<union> set (pr_executed s) \<union> set (pr_recoverable_failed s) \<subseteq> set (pr_completed s)"

lemma bookkeeping_cong: "core s' = core s \<Longrightarrow> bookkeeping s' = bookkeeping s"
  by (simp add: bookkeeping_def core_eqD [of s' s])

lemma bookkeeping_outcome:
  assumes "node_outcome re n s r s'" and "bookkeeping s"
  shows "bookkeeping s' \<and> set (pr_executed s') \<subseteq> insert n (set (pr_executed s))"
  using assms
  by (cases rule: node_outcome.cases)
    (auto simp: core_def bookkeeping_def complete_def mark_failed_def mark_skipped_def)

lemma bookkeeping_ready: "ready re poll s s0 \<Longrightarrow> bookkeeping s \<Longrightarrow> bookkeeping s0 \<and> pr_executed s0 = pr_executed s"
  by (auto simp: ready_def bookkeeping_def split: if_splits)

interpretation once: node_loop re poll order
    "\<lambda>xs s. bookkeeping s \<and> set (pr_executed s) \<subseteq> X \<union> set order" "\<lambda>s. bookkeeping s \<and> set (pr_executed s) \<subseteq> X \<union> set order"
  for re poll order X
proof unfold_locales
  fix xs s assume "poll" "bookkeeping s \<and> set (pr_executed s) \<subseteq> X \<union> set order"
  then show "bookkeeping (s\<lparr>pr_polls := Suc (pr_polls s)\<rparr>) \<and>
      set (pr_executed (s\<lparr>pr_polls := Suc (pr_polls s)\<rparr>)) \<subseteq> X \<union> set order" by (simp add: bookkeeping_def)
next
  fix xs n ys s s0 m s' r
  assume "order = xs @ n # ys" "bookkeeping s \<and> set (pr_executed s) \<subseteq> X \<union> set order" "ready re poll s s0"
    "node_outcome re n s0 r s'"
  then show "bookkeeping s' \<and> set (pr_executed s') \<subseteq> X \<union> set order"
    using bookkeeping_ready [of re poll s s0] bookkeeping_outcome [of re n s0 r s'] by auto
qed (use bookkeeping_ready bookkeeping_outcome in fastforce)+

lemma run_nodes_once:
  assumes "run_nodes re poll ns ls s = (res, s')" and "bookkeeping s" and "set (pr_executed s) \<subseteq> X" and "set ns \<subseteq> X"
  shows "bookkeeping s' \<and> set (pr_executed s') \<subseteq> X"
proof -
  have "X \<union> set ns = X" using assms(4) by auto
  then show ?thesis using once.run_nodes_invariant [OF assms(1), of ns "[]" X] assms(2,3) by simp
qed

section \<open>The stop event\<close>

text \<open>No poll, or no poll but the last, has seen the stop event.\<close>

definition no_stop :: "run_env \<Rightarrow> processor \<Rightarrow> bool" where
  "no_stop re s \<longleftrightarrow> (\<forall>i < pr_polls s. \<not> re_stop re i)"

definition no_earlier_stop :: "run_env \<Rightarrow> processor \<Rightarrow> bool" where
  "no_earlier_stop re s \<longleftrightarrow> (\<forall>i. Suc i < pr_polls s \<longrightarrow> \<not> re_stop re i)"

lemma no_stop_Suc:
  "no_stop re s \<Longrightarrow> pr_polls s' = Suc (pr_polls s) \<Longrightarrow> no_stop re s' \<longleftrightarrow> \<not> re_stop re (pr_polls s)"
  "no_stop re s \<Longrightarrow> pr_polls s' = Suc (pr_polls s) \<Longrightarrow> no_earlier_stop re s'"
  "no_stop re s \<Longrightarrow> no_earlier_stop re s"
  by (auto simp: no_stop_def no_earlier_stop_def less_Suc_eq)

lemma no_stop_cong: "pr_polls s' = pr_polls s \<Longrightarrow> no_stop re s' \<longleftrightarrow> no_stop re s"
  by (simp add: no_stop_def)

lemma polled_no_stop:
  assumes "polled re s p" and "no_stop re s" and "pr_polls s' = p"
  shows "no_stop re s'"
  using assms no_stop_Suc(1) [OF assms(2), of s'] by (auto simp: polled_def no_stop_def)

lemma outcome_stop:
  assumes "node_outcome re n s r s'" and "no_stop re s"
  shows "no_earlier_stop re s' \<and> (no_stop re s' \<longleftrightarrow> (\<forall>st br m. r = Step st br m \<longrightarrow> \<not> st))"
  using assms(1)
proof (cases rule: node_outcome.cases)
  case (Executed)
  then have "pr_polls s' = Suc (pr_polls s)" by (simp add: core_def)
  then show ?thesis using no_stop_Suc(1,2) [OF assms(2), of s'] Executed by auto
next
  case Cancelled
  then have "pr_polls s' = Suc (pr_polls s)" by (simp add: core_def)
  then show ?thesis using no_stop_Suc(1,2) [OF assms(2), of s'] Cancelled by auto
next
  case (Raised c p e)
  then have "no_stop re s'" using polled_no_stop [OF _ assms(2)] by (simp add: core_def)
  then show ?thesis using no_stop_Suc(3) Raised by auto
next
  case (Recovered p m)
  then have "no_stop re s'" using polled_no_stop [OF _ assms(2)] by (simp add: core_def)
  then show ?thesis using no_stop_Suc(3) Recovered by auto
next
  case (Failed_metadata p m)
  then have "no_stop re s'" using polled_no_stop [OF _ assms(2)] by (simp add: core_def)
  then show ?thesis using no_stop_Suc(3) Failed_metadata by auto
next
  case (Failed p m)
  then have "no_stop re s'" using polled_no_stop [OF _ assms(2)] by (simp add: core_def)
  then show ?thesis using no_stop_Suc(3) Failed by auto
qed (use assms(2) no_stop_cong [of s' s re] no_stop_Suc(3) [of re s'] in
    \<open>auto simp: core_def complete_def mark_failed_def mark_skipped_def\<close>)

text \<open>A loop that starts without a stop ends stopped exactly if its last poll saw the stop event.\<close>

lemma run_nodes_stop:
  assumes "run_nodes re poll ns ls s = (res, s')" and "no_stop re s" and "\<not> ls_stopped ls"
  shows "no_earlier_stop re s' \<and> (no_stop re s' \<longleftrightarrow> (\<forall>ls'. res = Inr ls' \<longrightarrow> \<not> ls_stopped ls'))"
  using assms
proof (induction ns arbitrary: ls s)
  case Nil
  then show ?case using no_stop_Suc(3) by auto
next
  case (Cons n ns)
  have start: "no_stop re s0" if "ready re poll s s0" for s0
    using that Cons.prems(2) no_stop_Suc(1) [OF Cons.prems(2), of s0] by (auto simp: ready_def split: if_splits)
  from Cons.prems(1) show ?case
  proof (cases rule: run_nodes_Cons)
    case stopped
    then show ?thesis using no_stop_Suc(1,2) [OF Cons.prems(2), of s'] by auto
  next
    case (going_on s0 m s1)
    then show ?thesis using Cons.IH [OF going_on(3)] outcome_stop [OF going_on(2) start [OF going_on(1)]]
      by (simp add: next_loop_def)
  next
    case (left s0 st br m)
    then show ?thesis using outcome_stop [OF left(2) start [OF left(1)]] by (auto simp: next_loop_def)
  next
    case (raised s0 e)
    then show ?thesis using outcome_stop [OF raised(2) start [OF raised(1)]] by auto
  qed
qed

text \<open>Every executed node costs a poll.\<close>

lemma outcome_polls:
  assumes "node_outcome re n s r s'"
  shows "(pr_executed s' = pr_executed s \<and> pr_polls s \<le> pr_polls s') \<or>
    (pr_executed s' = pr_executed s @ [n] \<and> pr_polls s' = Suc (pr_polls s))"
  using assms by (cases rule: node_outcome.cases)
    (auto simp: core_def complete_def mark_failed_def mark_skipped_def polled_def)

interpretation costs: node_loop re poll order
    "\<lambda>xs s. length (pr_executed s) \<le> pr_polls s" "\<lambda>s. length (pr_executed s) \<le> pr_polls s"
  for re poll order
proof unfold_locales
  fix xs n ys s s0 r s'
  assume "length (pr_executed s) \<le> pr_polls s" "ready re poll s s0" "node_outcome re n s0 r s'"
  then show "length (pr_executed s') \<le> pr_polls s'"
    using outcome_polls [of re n s0 r s'] by (auto simp: ready_def split: if_splits)
  then show "length (pr_executed s') \<le> pr_polls s'" .
qed auto

section \<open>Errors and events\<close>

definition run_frame :: "processor \<Rightarrow> node_id list option \<times> node_id list \<times> event list" where
  "run_frame s = (pr_planned s, pr_restored s, filter task_event (pr_events s))"

lemma run_frame_polls [simp]: "run_frame (s\<lparr>pr_polls := p\<rparr>) = run_frame s"
  by (simp add: run_frame_def)

lemma outcome_frame: "node_outcome re n s r s' \<Longrightarrow> run_frame s' = run_frame s"
  by (erule node_outcome.cases) (auto simp: run_frame_def core_def complete_def mark_failed_def mark_skipped_def)

lemma ready_frame: "ready re poll s s0 \<Longrightarrow> run_frame s0 = run_frame s \<and> pr_failed s0 = pr_failed s"
  by (auto simp: ready_def run_frame_def split: if_splits)

interpretation framed: node_loop re poll order "\<lambda>xs s. run_frame s = f" "\<lambda>s. run_frame s = f" for re poll order f
  by unfold_locales (auto dest!: outcome_frame ready_frame)

lemma outcome_failed:
  assumes "node_outcome re n s (Step st br m) s'"
  shows "(m = None \<and> \<not> br \<and> pr_failed s' = pr_failed s) \<or> (m \<noteq> None \<and> pr_failed s' \<noteq> [])"
  using assms by (cases rule: node_outcome.cases)
    (auto simp: core_def complete_def mark_failed_def mark_skipped_def set_add_def split: if_splits)

lemma run_nodes_errors:
  assumes "run_nodes re poll ns ls s = (Inr ls', s')" and "ls_had_error ls \<longleftrightarrow> pr_failed s \<noteq> []"
  shows "ls_had_error ls' \<longleftrightarrow> pr_failed s' \<noteq> []"
  using assms
proof (induction ns arbitrary: ls s)
  case Nil
  then show ?case by simp
next
  case (Cons n ns)
  from Cons.prems(1) show ?case
  proof (cases rule: run_nodes_Cons)
    case stopped
    then show ?thesis using Cons.prems(2) by simp
  next
    case (going_on s0 m s1)
    have "ls_had_error (next_loop poll False False m ls) \<longleftrightarrow> pr_failed s1 \<noteq> []"
      using outcome_failed [OF going_on(2)] ready_frame [OF going_on(1)] Cons.prems(2) by (auto simp: next_loop_def)
    then show ?thesis using Cons.IH [OF going_on(3)] by simp
  next
    case (left s0 st br m)
    then show ?thesis
      using outcome_failed [OF left(2)] ready_frame [OF left(1)] Cons.prems(2) by (auto simp: next_loop_def)
  next
    case (raised s0 e)
    then show ?thesis by simp
  qed
qed

section \<open>The end of a run\<close>

text \<open>The result that goes with the last event of a run.\<close>

fun outcome_of :: "event \<Rightarrow> ProcessResult option" where
  "outcome_of TaskSucceeded = Some \<lparr>res_success = True, res_error_message = Inr None\<rparr>"
| "outcome_of TaskCanceled = Some \<lparr>res_success = False, res_error_message = Inr None\<rparr>"
| "outcome_of (TaskFailed p) = Some \<lparr>res_success = False, res_error_message = Inl p\<rparr>"
| "outcome_of (TaskFailedWith m) = Some \<lparr>res_success = False, res_error_message = Inr (Some m)\<rparr>"
| "outcome_of _ = None"

text \<open>What holds between the first node and the end, and how the outcome relates to it.\<close>

definition sound_run :: "node_id list \<Rightarrow> processor \<Rightarrow> processor \<Rightarrow> bool" where
  "sound_run order s2 t \<longleftrightarrow> bookkeeping t \<and> set (pr_executed t) \<subseteq> set order \<and> run_frame t = run_frame s2 \<and>
     length (pr_executed t) \<le> pr_polls t"

definition sound_outcome :: "run_env \<Rightarrow> event \<Rightarrow> processor \<Rightarrow> bool" where
  "sound_outcome re e t \<longleftrightarrow> (e = TaskCanceled \<longleftrightarrow> \<not> no_stop re t) \<and> no_earlier_stop re t \<and>
     (e = TaskSucceeded \<longrightarrow> pr_failed t = []) \<and> (\<forall>m. e = TaskFailedWith m \<longrightarrow> pr_failed t \<noteq> [] \<and> m \<noteq> [])"

lemma run_nodes_sound:
  assumes "run_nodes re poll ns ls s = (res, s')" and "sound_run order s2 s" and "set ns \<subseteq> set order"
  shows "sound_run order s2 s'"
  using assms(2,3) run_nodes_once [OF assms(1), of "set order"] framed.run_nodes_invariant [OF assms(1), of ns "[]" "run_frame s2"]
    costs.run_nodes_invariant [OF assms(1), of ns "[]"]
  by (simp add: sound_run_def)

lemma conclude_end:
  assumes "conclude ls t = (res, s)"
  obtains e where "s = emit e t" "outcome_of e = Some res" "e = TaskCanceled \<longleftrightarrow> ls_stopped ls"
    "e = TaskSucceeded \<longrightarrow> \<not> ls_had_error ls" "\<forall>m. e = TaskFailedWith m \<longrightarrow> ls_had_error ls \<and> m \<noteq> []"
proof (cases "ls_stopped ls \<or> \<not> ls_had_error ls")
  case True
  then show ?thesis
    using assms that [of "if ls_stopped ls then TaskCanceled else TaskSucceeded"] by (auto simp: conclude_def split: if_splits)
next
  case False
  then show ?thesis
    using assms that [of "TaskFailedWith (case ls_message ls of Some (c # cs) \<Rightarrow> c # cs | _ \<Rightarrow> task_finished_with_errors)"]
    by (auto simp: conclude_def Let_def task_finished_with_errors_def split: option.splits list.splits)
qed

lemma abort_end:
  assumes "abort e t = (res, s)"
  shows "s = emit (TaskFailed e) t" "outcome_of (TaskFailed e) = Some res"
  using assms by (auto simp: abort_def)

lemma loop_end:
  assumes "(case r of Inl e \<Rightarrow> abort e t | Inr ls' \<Rightarrow> conclude ls' t) = (res, s)"
    and "no_earlier_stop re t \<and> (no_stop re t \<longleftrightarrow> (\<forall>ls'. r = Inr ls' \<longrightarrow> \<not> ls_stopped ls'))"
    and "\<And>ls'. r = Inr ls' \<Longrightarrow> ls_had_error ls' \<longleftrightarrow> pr_failed t \<noteq> []"
  obtains e where "s = emit e t" "outcome_of e = Some res" "sound_outcome re e t"
proof (cases r)
  case (Inl p)
  then show ?thesis
    using assms(1,2) that [of "TaskFailed p"] by (auto simp: abort_def sound_outcome_def)
next
  case (Inr ls')
  then have "conclude ls' t = (res, s)" using assms(1) by simp
  then show ?thesis
    using Inr assms(2,3) by (elim conclude_end) (rule that; auto simp: sound_outcome_def)
qed

lemma requires_planned: "requires re affected fresh st rq vis s res s' \<Longrightarrow> pr_planned s' = pr_planned s"
  by (induction rule: requires.induct) simp_all

lemma effective_subseq:
  assumes "prepare_cache_frontier re order s = (True, s2)" and "pr_planned s = None" and "pr_planned t = pr_planned s2"
  shows "subseq (effective_execution_order order t) order"
proof -
  have "pr_planned s2 = None \<or> (\<exists>P. pr_planned s2 = Some (filter P order))"
    using assms(1,2) requires_planned [OF require_nodes_requires]
    by (auto simp: prepare_cache_frontier_def Let_def split: if_splits option.splits prod.splits)
  then show ?thesis using assms(3) by (auto simp: effective_execution_order_def)
qed

lemma prepass_subset:
  assumes "prepare_metadata_variable_prepass_order re order s = Inr prepass"
  shows "set prepass \<subseteq> set (effective_execution_order order s)"
  using assms by (auto simp: prepare_metadata_variable_prepass_order_def bind_result_eq_Inr_iff split: if_splits sum.splits)

lemma restored_only_sound: "restored_only s \<Longrightarrow> sound_run order s s \<and> no_stop re s"
  by (simp add: restored_only_def sound_run_def bookkeeping_def no_stop_def)

lemma prepared_restored_only:
  "prepare_cache_frontier re order (emit TaskRunning started) = (ok, s2) \<Longrightarrow> restored_only s2"
  using prepare_restored_only [OF _ restored_only_start] by (simp add: started_def emit_def init_processor_def)

lemma prepared_effective_subseq:
  "prepare_cache_frontier re order (emit TaskRunning started) = (True, s2) \<Longrightarrow> pr_planned t = pr_planned s2 \<Longrightarrow>
     subseq (effective_execution_order order t) order"
  using effective_subseq [of re order "emit TaskRunning started" s2 t] by (simp add: started_def emit_def init_processor_def)

lemma set_subseq: "subseq xs ys \<Longrightarrow> set xs \<subseteq> set ys"
  by (auto elim: list_emb_set)

lemmas prepared_effective_subset = prepared_effective_subseq [THEN set_subseq]

lemma prepass_end:
  assumes "prepare_cache_frontier re order (emit TaskRunning started) = (True, s2)"
    and "prepare_metadata_variable_prepass_order re order s2 = Inr prepass"
    and "run_nodes re False prepass initial_loop s2 = (r, s3)"
  shows "sound_run order s2 s3"
    and "no_earlier_stop re s3 \<and> (no_stop re s3 \<longleftrightarrow> (\<forall>ls. r = Inr ls \<longrightarrow> \<not> ls_stopped ls))"
    and "r = Inr ls \<Longrightarrow> ls_had_error ls \<longleftrightarrow> pr_failed s3 \<noteq> []"
proof -
  note ro = prepared_restored_only [OF assms(1)]
  have "set prepass \<subseteq> set order"
    using prepass_subset [OF assms(2)] prepared_effective_subset [OF assms(1) refl] by blast
  then show "sound_run order s2 s3" using run_nodes_sound [OF assms(3)] restored_only_sound [OF ro] by blast
  show "no_earlier_stop re s3 \<and> (no_stop re s3 \<longleftrightarrow> (\<forall>ls. r = Inr ls \<longrightarrow> \<not> ls_stopped ls))"
    using run_nodes_stop [OF assms(3)] restored_only_sound [OF ro] by (simp add: initial_loop_def)
  show "r = Inr ls \<Longrightarrow> ls_had_error ls \<longleftrightarrow> pr_failed s3 \<noteq> []"
    using run_nodes_errors [of re False prepass initial_loop s2 ls s3] assms(3) ro
    by (simp add: initial_loop_def restored_only_def)
qed

text \<open>Every run ends either before its first node or after the preparation, by one event.\<close>

lemma process_end:
  assumes "process re = (res, s)"
  obtains (early) e where "s = emit e started" "outcome_of e = Some res" "sound_outcome re e started"
    | (late) order ok s2 e t where "execution_order re = Inr order" "s = emit e t" "outcome_of e = Some res"
        "prepare_cache_frontier re order (emit TaskRunning started) = (ok, s2)" "restored_only s2"
        "sound_run order s2 t" "sound_outcome re e t"
proof (cases rule: process_cases [OF assms])
  case (1 e)
  then show ?thesis
    using early [of "TaskFailed (GraphError e)"]
    by (auto simp: abort_def sound_outcome_def started_def emit_def init_processor_def no_stop_def no_earlier_stop_def)
next
  case 2
  then show ?thesis
    using early [of TaskSucceeded]
    by (auto simp: sound_outcome_def started_def emit_def init_processor_def no_stop_def no_earlier_stop_def)
next
  case (3 order s2)
  note ro = prepared_restored_only [OF 3(3)]
  show ?thesis
    using late [OF 3(1) _ _ 3(3) ro] 3(4) restored_only_sound [OF ro, of order re] no_stop_Suc(3) [of re s2]
    by (auto simp: abort_def sound_outcome_def)
next
  case (4 order s2 e)
  note ro = prepared_restored_only [OF 4(3)]
  show ?thesis
    using late [OF 4(1) _ _ 4(3) ro] 4(5) restored_only_sound [OF ro, of order re] no_stop_Suc(3) [of re s2]
    by (auto simp: abort_def sound_outcome_def)
next
  case (5 order s2 prepass s3 e)
  note facts = prepass_end [OF 5(3-5)]
  have "(case Inl e of Inl e \<Rightarrow> abort e s3 | Inr ls' \<Rightarrow> conclude ls' s3) = (res, s)" using 5(6) by simp
  then show ?thesis
    by (rule loop_end [OF _ facts(2)]) (simp, rule late [OF 5(1) _ _ 5(3) prepared_restored_only [OF 5(3)] facts(1)])
next
  case (6 order s2 prepass s3 ls)
  note facts = prepass_end [OF 6(3-5)]
  let ?r = "Inr (ls\<lparr>ls_message := non_empty_message (ls_message ls)\<rparr>)"
  have "(case ?r of Inl e \<Rightarrow> abort e s3 | Inr ls' \<Rightarrow> conclude ls' s3) = (res, s)" using 6(7) by simp
  moreover have "no_earlier_stop re s3 \<and> (no_stop re s3 \<longleftrightarrow> (\<forall>ls'. ?r = Inr ls' \<longrightarrow> \<not> ls_stopped ls'))"
    using facts(2) by auto
  moreover have "ls_had_error ls' \<longleftrightarrow> pr_failed s3 \<noteq> []" if "?r = Inr ls'" for ls' using facts(3) that by auto
  ultimately show ?thesis
    by (rule loop_end) (assumption, rule late [OF 6(1) _ _ 6(3) prepared_restored_only [OF 6(3)] facts(1)])
next
  case (7 order s2 prepass s3 ls r s4)
  note facts = prepass_end [OF 7(3-5)]
  have planned: "pr_planned s3 = pr_planned s2" using facts(1) by (simp add: sound_run_def run_frame_def)
  have sound: "sound_run order s2 s4"
    using run_nodes_sound [OF 7(7) facts(1)] prepared_effective_subset [OF 7(3) planned] by blast
  have "(case r of Inl e \<Rightarrow> abort e s4 | Inr ls' \<Rightarrow> conclude ls' s4) = (res, s)" using 7(8) by simp
  moreover have "no_earlier_stop re s4 \<and> (no_stop re s4 \<longleftrightarrow> (\<forall>ls'. r = Inr ls' \<longrightarrow> \<not> ls_stopped ls'))"
    using run_nodes_stop [OF 7(7)] facts(2) 7(6) by auto
  moreover have "ls_had_error ls' \<longleftrightarrow> pr_failed s4 \<noteq> []" if "r = Inr ls'" for ls'
    using run_nodes_errors [of re True _ _ s3 ls' s4] 7(7) that facts(3) by auto
  ultimately show ?thesis
    by (rule loop_end) (assumption, rule late [OF 7(1) _ _ 7(3) prepared_restored_only [OF 7(3)] sound])
qed

section \<open>Properties of every run\<close>


lemma events_emit [simp]:
  "pr_events (emit e s) = pr_events s @ [e]" "pr_failed (emit e s) = pr_failed s" "pr_polls (emit e s) = pr_polls s"
  "pr_executed (emit e s) = pr_executed s" "pr_completed (emit e s) = pr_completed s" "pr_skipped (emit e s) = pr_skipped s"
  "pr_restored (emit e s) = pr_restored s" "pr_recoverable_failed (emit e s) = pr_recoverable_failed s"
  "pr_planned (emit e s) = pr_planned s"
  by (simp_all add: emit_def)

lemma outcome_task_event: "outcome_of e = Some res \<Longrightarrow> task_event e"
  by (cases e) auto

text \<open>
  C30. Every run ends (the processor is a total function) and reports its outcome to the task exactly
  once, by the last event; the result returned is the one that belongs to this event. A run that
  reports success has no failed node, and one that reports a node error has a failed node.
\<close>

theorem runs_report_one_outcome:
  "\<exists>e. last (pr_events (snd (process re))) = e \<and> outcome_of e = Some (fst (process re)) \<and>
     filter task_event (pr_events (snd (process re))) \<in> {[TaskStarted, e], [TaskStarted, TaskRunning, e]} \<and>
     (e = TaskSucceeded \<longrightarrow> pr_failed (snd (process re)) = []) \<and>
     (\<forall>m. e = TaskFailedWith m \<longrightarrow> pr_failed (snd (process re)) \<noteq> [] \<and> m \<noteq> [])"
proof -
  obtain res s where run: "process re = (res, s)" by (meson surj_pair)
  then show ?thesis
  proof (cases rule: process_end)
    case (early e)
    then show ?thesis
      using run outcome_task_event [OF early(2)] by (simp add: sound_outcome_def started_def init_processor_def)
  next
    case (late order ok s2 e t)
    have "filter task_event (pr_events t) = [TaskStarted, TaskRunning]"
      using late(5,6) by (simp add: sound_run_def run_frame_def restored_only_def)
    then show ?thesis using run late outcome_task_event [OF late(3)] by (simp add: sound_outcome_def)
  qed
qed

text \<open>
  C31. A run is cancelled exactly if one of its polls of the stop event saw a stop request. A run that
  ends with success, an error or an exception has not ignored a request it saw.
\<close>

theorem runs_cancelled_exactly_on_stop:
  "last (pr_events (snd (process re))) = TaskCanceled \<longleftrightarrow> (\<exists>i. i < pr_polls (snd (process re)) \<and> re_stop re i)"
proof -
  obtain res s where run: "process re = (res, s)" by (meson surj_pair)
  then show ?thesis by (cases rule: process_end) (simp_all add: sound_outcome_def no_stop_def run)
qed


section \<open>A sample run\<close>

definition sample_chain :: Pipeline where
  "sample_chain = [
     (''a'', \<lparr>nd_name = ''Join'', nd_store_enabled = None, nd_inputs = []\<rparr>),
     (''b'', \<lparr>nd_name = ''Join'', nd_store_enabled = None,
        nd_inputs = [(''left'', LinkValue \<lparr>lv_node_id = ''a'', lv_output_name = ''output''\<rparr>)]\<rparr>),
     (''c'', \<lparr>nd_name = ''Join'', nd_store_enabled = None,
        nd_inputs = [(''left'', LinkValue \<lparr>lv_node_id = ''b'', lv_output_name = ''output''\<rparr>)]\<rparr>)]"

definition sample_run :: "(nat \<Rightarrow> bool) \<Rightarrow> run_env" where
  "sample_run stop = \<lparr>re_ord = id, re_pipeline = sample_chain, re_target_nodes = None, re_mode = FULL,
     re_changed_node_ids = [], re_project_variables = [], re_classes = sample_classes, re_defs = sample_defs,
     re_kwargs = sample_kwargs_env, re_selector = (\<lambda>name. None),
     re_node = (\<lambda>n kw. \<lparr>nr_create_error = None, nr_validate = Valid, nr_cache_key = None,
        nr_execute = Executed [(''output'', PyStr n)], nr_input_variables = [], nr_output_variables = [],
        nr_resolve_metadata = Inr []\<rparr>),
     re_hash = (\<lambda>deep v. ''h''), re_has_metadata_store = False, re_metadata_get = (\<lambda>st k. None),
     re_has_data_stores = False, re_snapshot = (\<lambda>n. None), re_stop = stop\<rparr>"

theorem runs_report_one_outcome_witness:
  "last (pr_events (snd (process (sample_run (\<lambda>i. False))))) = TaskSucceeded \<and>
   pr_failed (snd (process (sample_run (\<lambda>i. False)))) = [] \<and>
   pr_executed (snd (process (sample_run (\<lambda>i. False)))) = [''a'', ''b'', ''c'']"
proof -
  have "last (pr_events (snd (process (sample_run (\<lambda>i. False))))) = TaskSucceeded"
    "pr_executed (snd (process (sample_run (\<lambda>i. False)))) = [''a'', ''b'', ''c'']"
    by code_simp+
  then show ?thesis using runs_report_one_outcome [of "sample_run (\<lambda>i. False)"] by auto
qed


end
