(* ===== verification/Processor_Dataflow.thy ===== *)
theory Processor_Dataflow
  imports Processor_Safety Pipeline_Order
begin

text \<open>
  The flow of data through a run: the links of failed nodes, the cache frontier, and the order and
  inputs of the nodes a full run executes.
\<close>

section \<open>Links from recoverably failed nodes\<close>

definition input_links :: "NodeRuntimeInputValues \<Rightarrow> (string \<times> NodeInputLinkValue) list" where
  "input_links inputs = concat (map (\<lambda>(name, v). map (Pair name) (iter_node_input_link_values v)) inputs)"

text \<open>All links from \<open>m\<close> carry its error signal or variables, and its error signal is among them.\<close>

definition error_gated :: "NodeRuntimeInputValues \<Rightarrow> node_id \<Rightarrow> bool" where
  "error_gated inputs m \<longleftrightarrow>
     (\<exists>p \<in> set (input_links inputs). lv_node_id (snd p) = m \<and> is_error_gate p) \<and>
     (\<forall>p \<in> set (input_links inputs). lv_node_id (snd p) = m \<longrightarrow>
        is_error_gate p \<or> lv_output_name (snd p) = OUTPUT_VARIABLES)"

definition group_link :: "node_id list \<Rightarrow> string \<times> NodeInputLinkValue \<Rightarrow>
    (node_id, (string \<times> NodeInputLinkValue) list) dict \<Rightarrow> (node_id, (string \<times> NodeInputLinkValue) list) dict" where
  "group_link failed p m = (if lv_node_id (snd p) \<in> set failed
     then dict_put (lv_node_id (snd p)) (dict_get_default [] m (lv_node_id (snd p)) @ [p]) m else m)"

lemma failed_links_fold: "failed_links_by_source inputs failed = fold (group_link failed) (input_links inputs) []"
proof -
  have inner: "fold (\<lambda>lv m. if lv_node_id lv \<in> set failed
      then dict_put (lv_node_id lv) (dict_get_default [] m (lv_node_id lv) @ [(name, lv)]) m else m) ls m =
      fold (group_link failed) (map (Pair name) ls) m" for name ls m
    by (induction ls arbitrary: m) (simp_all add: group_link_def)
  have "fold (\<lambda>(input_name, input_data) m.
       fold (\<lambda>lv m. if lv_node_id lv \<in> set failed
             then dict_put (lv_node_id lv) (dict_get_default [] m (lv_node_id lv) @ [(input_name, lv)]) m else m)
         (iter_node_input_link_values input_data) m) inputs m = fold (group_link failed) (input_links inputs) m" for m
    by (induction inputs arbitrary: m) (auto simp: input_links_def inner)
  then show ?thesis by (simp add: failed_links_by_source_def)
qed

lemma group_links:
  "dict_wf (fold (group_link failed) ls []) \<and>
   map_of (fold (group_link failed) ls []) k =
     (if k \<in> set failed \<and> filter (\<lambda>p. lv_node_id (snd p) = k) ls \<noteq> []
      then Some (filter (\<lambda>p. lv_node_id (snd p) = k) ls) else None)"
proof (induction ls rule: rev_induct)
  case Nil
  then show ?case by simp
next
  case (snoc p ls)
  then show ?case
    by (auto simp: group_link_def map_of_dict_put dict_get_default_def split: if_splits option.splits)
qed

lemma gate_filter:
  "(\<not> (\<exists>p \<in> set (filter A xs). G p) \<or> (\<exists>p \<in> set (filter A xs). \<not> (G p \<or> V p))) \<longleftrightarrow>
   \<not> ((\<exists>p \<in> set xs. A p \<and> G p) \<and> (\<forall>p \<in> set xs. A p \<longrightarrow> G p \<or> V p))"
  by auto

lemma should_skip_iff:
  "should_skip_due_to_recoverable_parent_failure inputs s \<longleftrightarrow>
     (\<exists>p \<in> set (input_links inputs). lv_node_id (snd p) \<in> set (pr_recoverable_failed s) \<and>
        \<not> error_gated inputs (lv_node_id (snd p)))"
proof -
  let ?d = "failed_links_by_source inputs (pr_recoverable_failed s)"
  let ?of = "\<lambda>k. filter (\<lambda>p. lv_node_id (snd p) = k) (input_links inputs)"
  let ?bad = "\<lambda>ls. \<not> list_ex is_error_gate ls \<or>
    list_ex (\<lambda>p. \<not> (is_error_gate p \<or> lv_output_name (snd p) = OUTPUT_VARIABLES)) ls"
  have wf: "dict_wf ?d" and look: "map_of ?d k = (if k \<in> set (pr_recoverable_failed s) \<and> ?of k \<noteq> [] then Some (?of k) else None)"
    for k using group_links [of "pr_recoverable_failed s" "input_links inputs"] by (simp_all add: failed_links_fold)
  have "ls \<in> set (dict_values ?d) \<longleftrightarrow> (\<exists>k. map_of ?d k = Some ls)" for ls
    using dict_wf_map_of_iff [OF wf] by (force simp: dict_values_def)
  then have vals: "ls \<in> set (dict_values ?d) \<longleftrightarrow> (\<exists>k \<in> set (pr_recoverable_failed s). ?of k \<noteq> [] \<and> ls = ?of k)" for ls
    unfolding look by (auto split: if_splits)
  have bad: "?bad (?of k) \<longleftrightarrow> \<not> error_gated inputs k" for k
    unfolding error_gated_def list_ex_iff by (rule gate_filter)
  have "should_skip_due_to_recoverable_parent_failure inputs s \<longleftrightarrow>
      (\<exists>k \<in> set (pr_recoverable_failed s). ?of k \<noteq> [] \<and> ?bad (?of k))"
    unfolding should_skip_due_to_recoverable_parent_failure_def Bex_def vals by blast
  also have "\<dots> \<longleftrightarrow> (\<exists>k \<in> set (pr_recoverable_failed s). ?of k \<noteq> [] \<and> \<not> error_gated inputs k)" unfolding bad ..
  finally show ?thesis by (auto simp: filter_empty_conv)
qed

lemma set_gather_parent_ids: "set (gather_parent_ids inputs) = (\<lambda>p. lv_node_id (snd p)) ` set (input_links inputs)"
proof -
  have inner: "set (fold (\<lambda>lv. set_add (lv_node_id lv)) ls acc) = set acc \<union> lv_node_id ` set ls" for ls acc
    by (induction ls arbitrary: acc) auto
  have "set (fold (\<lambda>v acc. fold (\<lambda>lv. set_add (lv_node_id lv)) (iter_node_input_link_values v) acc) vs acc) =
      set acc \<union> (\<Union>v \<in> set vs. lv_node_id ` set (iter_node_input_link_values v))" for vs acc
    by (induction vs arbitrary: acc) (auto simp: inner)
  then show ?thesis by (force simp: gather_parent_ids_def input_links_def dict_values_def)
qed

section \<open>The cache frontier\<close>

lemma parents_preds:
  assumes "dict_wf (re_pipeline re)"
  shows "parents re n = preds (re_pipeline re) n"
proof -
  have "set (gather_parent_ids (nd_inputs nd)) = lv_node_id ` set (node_links nd)" for nd
    by (force simp: set_gather_parent_ids input_links_def node_links_def dict_values_def)
  then show ?thesis
    by (auto simp: parents_def preds_def depends_on_def links_to_iff [OF assms] dict_keys_def dom_map_of_conv_image_fst
        split: option.splits)
qed

lemma topo_order_parents:
  "topo_order p (xs @ n # ys) \<Longrightarrow> preds p n \<subseteq> set xs"
  unfolding topo_order_def by (drule spec [of _ "length xs"]) simp

lemma frontier_restored:
  "pr_restored s = pr_restored s' \<Longrightarrow> frontier re affected fresh st rq vis s = frontier re affected fresh st rq vis s'"
  by (simp only: frontier_def)

lemma prepared_frontier:
  assumes "prepare_cache_frontier re order s = (True, s2)" and "cache_frontier_enabled re" and "pr_restored s = []"
    and "\<And>xs. mset (re_ord re xs) = mset xs"
  obtains rq vis where "pr_planned s2 = Some (filter (\<lambda>n. n \<in> set rq) order)"
    "frontier re (affected_metadata_nodes re) (find_all_dependents (re_ord re) (re_pipeline re) (fresh_sources re)) [] rq vis s2"
    "set (execution_target_ids re order) \<inter> dom (map_of (re_pipeline re)) \<subseteq> vis"
proof -
  let ?fresh = "find_all_dependents (re_ord re) (re_pipeline re) (fresh_sources re)"
  obtain rq s1 where req: "require_nodes re (affected_metadata_nodes re) ?fresh (execution_target_ids re order) [] [] s = (Some rq, s1)"
    and s2: "s2 = s1\<lparr>pr_planned := Some (filter (\<lambda>n. n \<in> set rq) order)\<rparr>"
    using assms(1,2) by (auto simp: prepare_cache_frontier_def Let_def split: if_splits option.splits prod.splits)
  have "frontier re (affected_metadata_nodes re) ?fresh (execution_target_ids re order) [] (set []) s"
    using assms(3) by (simp add: frontier_def)
  from requires_frontier [OF require_nodes_requires [OF req] assms(4) refl this]
  obtain vis where vis: "frontier re (affected_metadata_nodes re) ?fresh [] rq vis s1"
    "set (execution_target_ids re order) \<inter> dom (map_of (re_pipeline re)) \<subseteq> vis" by auto
  have "frontier re (affected_metadata_nodes re) ?fresh [] rq vis s2" using vis(1) by (simp add: frontier_restored [of s1 s2] s2)
  then show ?thesis using that [OF _ _ vis(2)] s2 by simp
qed

lemma not_prepared: "\<not> cache_frontier_enabled re \<Longrightarrow> prepare_cache_frontier re order s = (True, s)"
  by (simp add: prepare_cache_frontier_def)

text \<open>An order in which parents come first, except those that have been restored.\<close>

definition runnable_order :: "run_env \<Rightarrow> node_id list \<Rightarrow> node_id set \<Rightarrow> bool" where
  "runnable_order re order R \<longleftrightarrow> distinct order \<and> R \<inter> set order = {} \<and>
     (\<forall>xs n ys. order = xs @ n # ys \<longrightarrow> parents re n \<subseteq> set xs \<union> R)"

lemma filter_split:
  "filter P zs = xs @ n # ys \<Longrightarrow> \<exists>us vs. zs = us @ n # vs \<and> xs = filter P us"
proof (induction zs arbitrary: xs)
  case (Cons z zs)
  show ?case
  proof (cases "P z \<and> xs = []")
    case True
    then show ?thesis using Cons.prems by (intro exI [of _ "[]"] exI [of _ zs]) simp
  next
    case False
    then obtain us vs where "zs = us @ n # vs" "xs = filter P (z # us)"
      using Cons.prems Cons.IH [of xs] Cons.IH [of "tl xs"] by (cases xs) (auto split: if_splits)
    then show ?thesis by (intro exI [of _ "z # us"] exI [of _ vs]) simp
  qed
qed simp

lemma effective_runnable:
  assumes "dict_wf (re_pipeline re)" and ord: "\<And>xs. mset (re_ord re xs) = mset xs" and "execution_order re = Inr order"
    and prep: "prepare_cache_frontier re order (emit TaskRunning started) = (True, s2)" and "pr_planned t = pr_planned s2"
  shows "runnable_order re (effective_execution_order order t) (set (pr_restored s2))"
proof -
  have topo: "distinct order" "topo_order (re_pipeline re) order"
    using topological_sort_order [OF assms(1) ord] assms(3) by (auto simp: execution_order_def)
  have start: "pr_restored (emit TaskRunning started) = []" "pr_planned (emit TaskRunning started) = None"
    by (simp_all add: started_def init_processor_def)
  show ?thesis
  proof (cases "cache_frontier_enabled re")
    case False
    then have "s2 = emit TaskRunning started" using prep not_prepared by simp
    then show ?thesis
      using topo assms(5) start
      by (auto simp: runnable_order_def effective_execution_order_def parents_preds [OF assms(1)] dest: topo_order_parents [THEN subsetD])
  next
    case True
    obtain rq vis where planned: "pr_planned s2 = Some (filter (\<lambda>n. n \<in> set rq) order)"
      and front: "frontier re (affected_metadata_nodes re)
        (find_all_dependents (re_ord re) (re_pipeline re) (fresh_sources re)) [] rq vis s2"
      by (rule prepared_frontier [OF prep True start(1) ord])
    have "parents re n \<subseteq> set xs \<union> set (pr_restored s2)" if split: "filter (\<lambda>n. n \<in> set rq) order = xs @ n # ys" for xs n ys
    proof -
      obtain us vs where us: "order = us @ n # vs" "xs = filter (\<lambda>n. n \<in> set rq) us" using filter_split [OF split] by blast
      have "n \<in> set (filter (\<lambda>n. n \<in> set rq) order)" unfolding split by simp
      then have "n \<in> set rq" by simp
      then show ?thesis
        using frontierD(1,4) [OF front] topo_order_parents [of "re_pipeline re" us n vs] topo(2) us
        by (auto simp: parents_preds [OF assms(1)])
    qed
    then show ?thesis
      using planned assms(5) topo(1) frontierD(2) [OF front] by (auto simp: runnable_order_def effective_execution_order_def)
  qed
qed

lemma targets_subset: "set (execution_target_ids re order) \<subseteq> set order"
  by (auto simp: execution_target_ids_def Let_def)

text \<open>
  C33. The cache frontier is closed: of the planned and the restored nodes no node is both, the targets
  are among them, and the parents of a planned node are planned or restored, the planned ones in front
  of it. A restored node has a snapshot and depends on no changed node and on no node that requires a
  fresh execution.
\<close>

theorem cache_frontier_is_closed:
  assumes "dict_wf (re_pipeline re)" and "\<And>xs. mset (re_ord re xs) = mset xs" and "execution_order re = Inr order"
    and "cache_frontier_enabled re" and "prepare_cache_frontier re order (emit TaskRunning started) = (True, s2)"
  shows "subseq (effective_execution_order order s2) order \<and>
    runnable_order re (effective_execution_order order s2) (set (pr_restored s2)) \<and>
    set (execution_target_ids re order) \<subseteq> set (effective_execution_order order s2) \<union> set (pr_restored s2) \<and>
    (\<forall>n \<in> set (pr_restored s2). re_snapshot re n \<noteq> None \<and>
       (\<forall>c \<in> set (re_changed_node_ids re @ fresh_sources re) \<inter> set (dict_keys (re_pipeline re)).
          (c, n) \<notin> (depends_on (re_pipeline re))\<^sup>*))"
proof -
  let ?p = "re_pipeline re"
  have keys: "set (dict_keys ?p) = dom (map_of ?p)" by (simp add: dict_keys_def dom_map_of_conv_image_fst)
  have start: "pr_restored (emit TaskRunning started) = []" by (simp add: started_def init_processor_def)
  obtain rq vis where planned: "pr_planned s2 = Some (filter (\<lambda>n. n \<in> set rq) order)"
    and front: "frontier re (affected_metadata_nodes re)
        (find_all_dependents (re_ord re) ?p (fresh_sources re)) [] rq vis s2"
    and targets: "set (execution_target_ids re order) \<inter> dom (map_of ?p) \<subseteq> vis"
    by (rule prepared_frontier [OF assms(5,4) start assms(2)])
  have sub: "set order \<subseteq> set (dict_keys ?p)"
    using full_order_facts(2) [OF assms(1,2)] assms(3)
    by (auto simp: execution_order_def topological_sort_eq Let_def split: if_splits)
  have eff: "effective_execution_order order s2 = filter (\<lambda>n. n \<in> set rq) order"
    using planned by (simp add: effective_execution_order_def)
  have "set (execution_target_ids re order) \<subseteq> set (effective_execution_order order s2) \<union> set (pr_restored s2)"
    using targets sub [unfolded keys] frontierD(1) [OF front] targets_subset [of re order] unfolding eff set_filter by blast
  moreover have "\<forall>n \<in> set (pr_restored s2). re_snapshot re n \<noteq> None \<and>
       (\<forall>c \<in> set (re_changed_node_ids re @ fresh_sources re) \<inter> set (dict_keys ?p). (c, n) \<notin> (depends_on ?p)\<^sup>*)"
    using frontierD(5) [OF front] find_all_dependents_set [OF assms(2), of ?p]
    by (auto simp: affected_metadata_nodes_def)
  ultimately show ?thesis
    using effective_runnable [OF assms(1,2,3,5) refl] by (simp add: eff)
qed

section \<open>Full runs\<close>

text \<open>The parents of a node are completed, and those that failed recoverably are used through their error port.\<close>

definition inputs_ready :: "run_env \<Rightarrow> processor \<Rightarrow> node_id \<Rightarrow> bool" where
  "inputs_ready re s n \<longleftrightarrow> parents re n \<subseteq> set (pr_completed s) \<and>
     (\<forall>m \<in> parents re n \<inter> set (pr_recoverable_failed s).
        (case map_of (re_pipeline re) n of None \<Rightarrow> False | Some nd \<Rightarrow> error_gated (nd_inputs nd) m))"

definition full_end :: "run_env \<Rightarrow> node_id list \<Rightarrow> processor \<Rightarrow> bool" where
  "full_end re order s \<longleftrightarrow> subseq (pr_executed s) order \<and> set (pr_completed s) \<inter> set (pr_skipped s) = {} \<and>
     (\<forall>n \<in> set (pr_executed s). inputs_ready re s n)"

definition full_run :: "run_env \<Rightarrow> node_id list \<Rightarrow> node_id list \<Rightarrow> processor \<Rightarrow> bool" where
  "full_run re order xs s \<longleftrightarrow> re_mode re = FULL \<and> runnable_order re order (set (pr_restored s)) \<and>
     set xs \<subseteq> set (pr_completed s) \<union> set (pr_skipped s) \<and> set (pr_restored s) \<subseteq> set (pr_completed s) \<and>
     set (pr_skipped s) \<subseteq> set xs \<and> set (pr_completed s) \<inter> set (pr_skipped s) = {} \<and>
     subseq (pr_executed s) xs \<and> (\<forall>n \<in> set (pr_executed s). inputs_ready re s n)"

lemma full_run_cong:
  assumes "pr_restored s' = pr_restored s" "pr_completed s' = pr_completed s" "pr_skipped s' = pr_skipped s"
    "pr_executed s' = pr_executed s" "pr_recoverable_failed s' = pr_recoverable_failed s"
  shows "full_run re order xs s' = full_run re order xs s" "full_end re order s' = full_end re order s"
  using assms by (simp_all add: full_run_def full_end_def inputs_ready_def)

lemma full_run_end: "order = xs @ ys \<Longrightarrow> full_run re order xs s \<Longrightarrow> full_end re order s"
  by (auto simp: full_run_def full_end_def)

lemma inputs_ready_mono:
  assumes "inputs_ready re s n" and "set (pr_completed s) \<subseteq> set (pr_completed s')"
    and "set (pr_recoverable_failed s') \<inter> set (pr_completed s) \<subseteq> set (pr_recoverable_failed s)"
  shows "inputs_ready re s' n"
  using assms unfolding inputs_ready_def by blast

lemma may_run_ready:
  assumes "may_run re n s" and "parents re n \<subseteq> set (pr_completed s) \<union> set (pr_skipped s)"
  shows "inputs_ready re s n"
proof -
  obtain nd where nd: "map_of (re_pipeline re) n = Some nd"
    and skip: "set (gather_parent_ids (nd_inputs nd)) \<inter> set (pr_skipped s) = {}"
      "\<not> should_skip_due_to_recoverable_parent_failure (nd_inputs nd) s"
    using assms(1) by (auto simp: may_run_def)
  have par: "parents re n \<subseteq> set (gather_parent_ids (nd_inputs nd))" using nd by (simp add: parents_def)
  have "error_gated (nd_inputs nd) m" if "m \<in> parents re n" "m \<in> set (pr_recoverable_failed s)" for m
    using skip(2) par that unfolding should_skip_iff set_gather_parent_ids by auto
  then show ?thesis using assms(2) skip(1) par nd by (auto simp: inputs_ready_def)
qed

text \<open>How the bookkeeping may change when \<open>n\<close> is processed.\<close>

lemma full_stepI:
  assumes "full_run re order xs s" and "order = xs @ n # ys" and "pr_restored s' = pr_restored s"
    and C: "set (pr_completed s') \<in> {set (pr_completed s), insert n (set (pr_completed s))}"
    and K: "set (pr_skipped s') \<in> {set (pr_skipped s), insert n (set (pr_skipped s))}"
    and CK: "n \<notin> set (pr_completed s') \<or> set (pr_skipped s') = set (pr_skipped s)"
    and F: "set (pr_recoverable_failed s') = set (pr_recoverable_failed s) \<or>
      n \<notin> set (pr_completed s) \<and> set (pr_recoverable_failed s') = insert n (set (pr_recoverable_failed s))"
    and E: "pr_executed s' = pr_executed s \<or>
      pr_executed s' = pr_executed s @ [n] \<and> inputs_ready re s n \<and> pr_recoverable_failed s' = pr_recoverable_failed s"
  shows "full_end re order s' \<and> (n \<in> set (pr_completed s') \<union> set (pr_skipped s') \<longrightarrow> full_run re order (xs @ [n]) s')"
proof -
  note run = assms(1) [unfolded full_run_def]
  have n: "n \<notin> set xs" "n \<notin> set (pr_skipped s)" using run assms(2) by (auto simp: runnable_order_def)
  have ready: "\<forall>k \<in> set (pr_executed s'). inputs_ready re s' k"
  proof
    fix k assume "k \<in> set (pr_executed s')"
    then have "inputs_ready re s k" using E run by auto
    then show "inputs_ready re s' k" by (rule inputs_ready_mono) (use C F in auto)
  qed
  have sub: "subseq (pr_executed s') (xs @ [n])" using E run by (auto intro: subseq_rev_drop_many subseq_append)
  then have "subseq (pr_executed s') order" using subseq_rev_drop_many [of _ "xs @ [n]" ys] assms(2) by simp
  moreover have "set (pr_completed s') \<inter> set (pr_skipped s') = {}" using C K CK n run by auto
  ultimately show ?thesis
    using ready sub run assms(3) C K n(2) by (auto simp: full_end_def full_run_def)
qed

lemma full_step:
  assumes "full_run re order xs s" and "order = xs @ n # ys" and "node_outcome re n s r s'"
  shows "full_end re order s' \<and> (\<forall>m. r = Step False False m \<longrightarrow> full_run re order (xs @ [n]) s')"
proof -
  note run = assms(1) [unfolded full_run_def]
  have skip: "n \<notin> set (pr_skipped s)" using run assms(2) by (auto simp: runnable_order_def)
  have "parents re n \<subseteq> set xs \<union> set (pr_restored s)" using run assms(2) unfolding runnable_order_def by blast
  then have par: "parents re n \<subseteq> set (pr_completed s) \<union> set (pr_skipped s)" using run by blast
  note step = full_stepI [OF assms(1,2), of s']
  from assms(3) show ?thesis
  proof (cases rule: node_outcome.cases)
    case Executed
    then show ?thesis using step may_run_ready [OF _ par] by (simp add: core_def)
  next
    case (Raised c p e)
    then show ?thesis using step by (auto simp: core_def)
  qed (use step run in \<open>simp_all add: core_def complete_def mark_failed_def mark_skipped_def\<close>)
qed

lemma full_loop_step:
  assumes "full_run re order xs s" and "order = xs @ n # ys" and "ready re poll s s0" and "node_outcome re n s0 r s'"
  shows "full_end re order s' \<and> (\<forall>m. r = Step False False m \<longrightarrow> full_run re order (xs @ [n]) s')"
proof -
  have "full_run re order xs s0"
    using assms(1,3) full_run_cong(1) [of s0 s re order xs] by (auto simp: ready_def split: if_splits)
  then show ?thesis by (rule full_step [OF _ assms(2,4)])
qed

interpretation flow: node_loop re poll order
    "\<lambda>xs s. (\<exists>ys. order = xs @ ys) \<and> full_run re order xs s" "full_end re order"
  for re poll order
proof unfold_locales
  fix xs s assume run: "(\<exists>ys. order = xs @ ys) \<and> full_run re order xs s"
  then show "full_end re order s" using full_run_end by blast
  then show "full_end re order (s\<lparr>pr_polls := Suc (pr_polls s)\<rparr>)" by (simp add: full_run_cong(2) [of "s\<lparr>pr_polls := p\<rparr>" s for p])
next
  fix xs n ys s s0 r s'
  assume run: "order = xs @ n # ys" "(\<exists>ys. order = xs @ ys) \<and> full_run re order xs s" "ready re poll s s0"
    "node_outcome re n s0 r s'"
  then show "full_end re order s'" using full_loop_step [OF _ run(1,3,4)] by blast
next
  fix xs n ys s s0 m s'
  assume run: "order = xs @ n # ys" "(\<exists>ys. order = xs @ ys) \<and> full_run re order xs s" "ready re poll s s0"
    "node_outcome re n s0 (Step False False m) s'"
  then show "(\<exists>ys. order = (xs @ [n]) @ ys) \<and> full_run re order (xs @ [n]) s'"
    using full_loop_step [OF _ run(1,3,4)] by simp
qed

lemma run_nodes_break:
  assumes "run_nodes re poll ns ls s = (Inr ls', s')" and "ls_break ls \<longrightarrow> ls_had_error ls"
  shows "ls_break ls' \<longrightarrow> ls_had_error ls'"
  using assms
proof (induction ns arbitrary: ls s)
  case (Cons n ns)
  from Cons.prems(1) show ?case
    by (cases rule: run_nodes_Cons) (use Cons in \<open>auto simp: next_loop_def\<close>)
qed simp

text \<open>
  C34. A full run executes nodes in dependency order, each only when all its parents in the pipeline
  are completed (executed, restored or failed recoverably); a parent that failed recoverably is used
  through its error signal and its variables only, and its error signal is a link of the node. No node
  is both completed and skipped, and after a successful run every planned node is one of the two.
\<close>

theorem full_runs_follow_dependencies:
  assumes "dict_wf (re_pipeline re)" and "\<And>xs. mset (re_ord re xs) = mset xs" and "re_mode re = FULL"
    and "execution_order re = Inr order" and "process re = (res, s)"
  shows "subseq (pr_executed s) order \<and> (\<forall>n \<in> set (pr_executed s). inputs_ready re s n) \<and>
    set (pr_completed s) \<inter> set (pr_skipped s) = {} \<and>
    (res_success res \<longrightarrow> set (effective_execution_order order s) \<subseteq> set (pr_completed s) \<union> set (pr_skipped s))"
proof -
  have no_prepass: "prepare_metadata_variable_prepass_order re order t = Inr []" for t
    using assms(3) by (simp add: prepare_metadata_variable_prepass_order_def prepass_source_nodes_def)
  have unfinished: ?thesis if "restored_only t" "s = emit (TaskFailed e) t" "\<not> res_success res" for t e
    using that by (simp add: restored_only_def)
  show ?thesis
  proof (cases rule: process_cases [OF assms(5)])
    case (3 order' s2)
    then show ?thesis using unfinished prepared_restored_only [OF 3(3)] by (auto simp: abort_def)
  next
    case (7 order' s2 prepass s3 ls r s4)
    then have o: "order' = order" and "prepass = []" using assms(4) no_prepass by auto
    then have s3: "s3 = s2" "ls = initial_loop" using 7(5) by auto
    let ?eff = "effective_execution_order order s2"
    note ro = prepared_restored_only [OF 7(3)]
    have "full_run re ?eff [] s2"
      using ro effective_runnable [OF assms(1,2,4) 7(3) [unfolded o] refl] assms(3) by (simp add: full_run_def restored_only_def)
    then have fin: "full_end re ?eff s4 \<and> (\<forall>ls'. r = Inr ls' \<longrightarrow> ls_stopped ls' \<or> ls_break ls' \<or> full_run re ?eff ?eff s4)"
      using flow.run_nodes_invariant [OF 7(7), of ?eff "[]"] s3 o by auto
    have "run_frame s4 = run_frame s2" using framed.run_nodes_invariant [OF 7(7), of _ "[]" "run_frame s2"] s3 by simp
    then have eff: "effective_execution_order order s4 = ?eff" by (simp add: run_frame_def effective_execution_order_def)
    obtain e where e: "s = emit e s4" using 7(8) by (auto simp: abort_def conclude_def Let_def split: sum.splits if_splits)
    have "subseq ?eff order" using prepared_effective_subseq [OF 7(3) [unfolded o] refl] .
    moreover have "full_run re ?eff ?eff s4" if "res_success res"
      using that fin 7(8) run_nodes_break [of re True ?eff _ s2 _ s4] 7(7) s3 o
      by (auto simp: abort_def conclude_def initial_loop_def Let_def split: sum.splits if_splits)
    ultimately show ?thesis
      using fin e eff by (auto simp: full_end_def full_run_def inputs_ready_def effective_execution_order_def intro: subseq_order.trans)
  qed (use assms(4) no_prepass in \<open>auto simp: started_def init_processor_def initial_loop_def effective_execution_order_def\<close>)
qed

text \<open>A run with a failing node \<open>a\<close> whose error signal starts \<open>d\<close>; and one where \<open>b\<close> has changed and \<open>a\<close> a snapshot.\<close>

definition sample_error_defs :: "string \<Rightarrow> NodeDefinition option" where
  "sample_error_defs name = Some \<lparr>df_name = name, df_input_definitions = [],
     df_output_definitions = [(''signal_error'', \<lparr>od_attr_name = ''signal_error'', od_type = IoMember IO_SIGNAL\<rparr>)]\<rparr>"

definition sample_error_run :: run_env where
  "sample_error_run = (sample_run (\<lambda>i. False))\<lparr>
     re_pipeline := [
       (''a'', \<lparr>nd_name = ''Join'', nd_store_enabled = None, nd_inputs = []\<rparr>),
       (''d'', \<lparr>nd_name = ''Join'', nd_store_enabled = None,
          nd_inputs = [(''signal_in'', LinkValue \<lparr>lv_node_id = ''a'', lv_output_name = ''signal_error''\<rparr>)]\<rparr>)],
     re_defs := sample_error_defs,
     re_node := (\<lambda>n kw. \<lparr>nr_create_error = None, nr_validate = Valid, nr_cache_key = None,
        nr_execute = (if n = ''a'' then NodeRaised ''boom'' else Executed [(''signal_error'', PyBool False)]),
        nr_input_variables = [], nr_output_variables = [], nr_resolve_metadata = Inr []\<rparr>)\<rparr>"

definition sample_cached_run :: run_env where
  "sample_cached_run = (sample_run (\<lambda>i. False))\<lparr>
     re_pipeline := [
       (''a'', \<lparr>nd_name = ''Join'', nd_store_enabled = Some True, nd_inputs = []\<rparr>),
       (''b'', \<lparr>nd_name = ''Join'', nd_store_enabled = Some True,
          nd_inputs = [(''left'', LinkValue \<lparr>lv_node_id = ''a'', lv_output_name = ''output''\<rparr>)]\<rparr>)],
     re_classes := (\<lambda>name. map_option (\<lambda>c. c\<lparr>nc_df_output := True\<rparr>) (sample_classes name)),
     re_changed_node_ids := [''b''], re_has_data_stores := True,
     re_snapshot := (\<lambda>n. Some \<lparr>ce_outputs = [(''output'', PyStr n)], ce_metadata = None\<rparr>)\<rparr>"

lemma sample_runs_wf:
  "dict_wf (re_pipeline sample_error_run)" "dict_wf (re_pipeline sample_cached_run)"
  "re_ord sample_error_run = id" "re_ord sample_cached_run = id" "re_mode sample_error_run = FULL"
  by (simp_all add: sample_error_run_def sample_cached_run_def sample_run_def dict_wf_def dict_keys_def)

theorem cache_frontier_is_closed_witness:
  "\<exists>s2. prepare_cache_frontier sample_cached_run [''a'', ''b''] (emit TaskRunning started) = (True, s2) \<and>
     pr_restored s2 = [''a''] \<and> runnable_order sample_cached_run [''b''] {''a''}"
proof -
  obtain ok s2 where prep: "prepare_cache_frontier sample_cached_run [''a'', ''b''] (emit TaskRunning started) = (ok, s2)"
    by (meson surj_pair)
  have "fst (prepare_cache_frontier sample_cached_run [''a'', ''b''] (emit TaskRunning started)) = True"
    "pr_restored (snd (prepare_cache_frontier sample_cached_run [''a'', ''b''] (emit TaskRunning started))) = [''a'']"
    "effective_execution_order [''a'', ''b''] (snd (prepare_cache_frontier sample_cached_run [''a'', ''b''] (emit TaskRunning started))) = [''b'']"
    by code_simp+
  then have s2: "ok" "pr_restored s2 = [''a'']" "effective_execution_order [''a'', ''b''] s2 = [''b'']" using prep by auto
  have "execution_order sample_cached_run = Inr [''a'', ''b'']" "cache_frontier_enabled sample_cached_run" by code_simp+
  from cache_frontier_is_closed [OF sample_runs_wf(2) _ this, of s2] prep s2
  show ?thesis by (simp add: sample_runs_wf)
qed

theorem full_runs_follow_dependencies_witness:
  "pr_executed (snd (process sample_error_run)) = [''d''] \<and> inputs_ready sample_error_run (snd (process sample_error_run)) ''d''"
proof
  show ex: "pr_executed (snd (process sample_error_run)) = [''d'']" by code_simp
  have "execution_order sample_error_run = Inr [''a'', ''d'']" by code_simp
  from full_runs_follow_dependencies [OF sample_runs_wf(1) _ sample_runs_wf(5) this surjective_pairing]
  show "inputs_ready sample_error_run (snd (process sample_error_run)) ''d''"
    by (simp add: sample_runs_wf ex)
qed

section \<open>Fingerprints\<close>

lemma sort_items_eq_iff:
  assumes "dict_wf xs" and "dict_wf ys"
  shows "sort_key fst xs = sort_key fst ys \<longleftrightarrow> mset xs = mset (ys :: (string, 'v) dict)"
proof
  show "sort_key fst xs = sort_key fst ys \<Longrightarrow> mset xs = mset ys" by (metis mset_sort)
  show "mset xs = mset ys \<Longrightarrow> sort_key fst xs = sort_key fst ys"
    using assms(1) by (intro sort_key_inj_key_eq) (simp_all add: dict_wf_def dict_keys_def distinct_map)
qed

lemma map_pair_items:
  "map (\<lambda>(k, h). PyTuple [PyStr k, PyStr h]) xs = map (\<lambda>(k, h). PyTuple [PyStr k, PyStr h]) ys \<longleftrightarrow> xs = ys"
  "map (\<lambda>(k, v). PyTuple [PyStr k, v]) us = map (\<lambda>(k, v). PyTuple [PyStr k, v]) vs \<longleftrightarrow> us = vs"
  by (rule inj_map_eq_map; auto simp: inj_on_def)+

lemma sort_key_Nil_iff: "sort_key f xs = [] \<longleftrightarrow> xs = []" "[] = sort_key f xs \<longleftrightarrow> xs = []"
  by (metis length_0_conv length_sort)+

text \<open>
  C35. The value that is hashed into the fingerprint of a node's inputs identifies exactly the class
  name, the parents' hashes and the constants: two nodes have the same payload, and so the same
  fingerprint, if these agree up to the order in which the items were collected, and only then.
\<close>

theorem fingerprint_payload_identifies_inputs:
  assumes "dict_wf hashes" and "dict_wf hashes'" and "dict_wf constants" and "dict_wf constants'"
  shows "(node_inputs_payload c hashes constants = node_inputs_payload c' hashes' constants' \<longleftrightarrow>
      nc_name c = nc_name c' \<and> mset hashes = mset hashes' \<and> mset constants = mset constants') \<and>
    (nc_name c = nc_name c' \<and> mset hashes = mset hashes' \<and> mset constants = mset constants' \<longrightarrow>
      create_node_inputs_fingerprint hash c hashes constants = create_node_inputs_fingerprint hash c' hashes' constants')"
proof -
  have items: "node_inputs_payload c hashes constants = node_inputs_payload c' hashes' constants' \<longleftrightarrow>
      nc_name c = nc_name c' \<and> sort_key fst hashes = sort_key fst hashes' \<and> sort_key fst constants = sort_key fst constants'"
    by (cases "hashes = []"; cases "hashes' = []"; cases "constants = []"; cases "constants' = []")
      (auto simp: node_inputs_payload_def map_pair_items sort_key_Nil_iff)
  then have "node_inputs_payload c hashes constants = node_inputs_payload c' hashes' constants' \<longleftrightarrow>
      nc_name c = nc_name c' \<and> mset hashes = mset hashes' \<and> mset constants = mset constants'"
    unfolding sort_items_eq_iff [OF assms(1,2)] sort_items_eq_iff [OF assms(3,4)] .
  then show ?thesis unfolding create_node_inputs_fingerprint_def by metis
qed

theorem fingerprint_payload_identifies_inputs_witness:
  "create_node_inputs_fingerprint (\<lambda>v. ''h'') (the (sample_classes ''Join'')) [(''a'', ''1''), (''b'', ''2'')] [] =
   create_node_inputs_fingerprint (\<lambda>v. ''h'') (the (sample_classes ''Join'')) [(''b'', ''2''), (''a'', ''1'')] [] \<and>
   node_inputs_payload (the (sample_classes ''Join'')) [(''a'', ''1'')] [] \<noteq>
   node_inputs_payload (the (sample_classes ''Join'')) [(''a'', ''2'')] []"
  using fingerprint_payload_identifies_inputs [of "[(''a'', ''1''), (''b'', ''2'')]" "[(''b'', ''2''), (''a'', ''1'')]" "[]" "[]"]
    fingerprint_payload_identifies_inputs [of "[(''a'', ''1'')]" "[(''a'', ''2'')]" "[]" "[]"]
  by (simp add: dict_wf_def dict_keys_def)

end
