(* ===== verification/Kafka_Values.thy ===== *)
theory Kafka_Values
  imports Variable_Types
begin

text \<open>
  Value objects, entities and policies of \<^verbatim>\<open>src/modules/kafka_consumption/domain\<close>, and the
  planning of a bounded read (\<^verbatim>\<open>flow/use_cases/plan_read.py\<close>).

  A dataclass is a record; a class with a \<^verbatim>\<open>__post_init__\<close> also has a constructor function that
  returns the error it raises. Integers are the unbounded integers of Python, so the type tests of
  \<^verbatim>\<open>nonnegative\<close> hold by typing. Error texts leave out the interpolated values. Byte strings are
  lists of bytes, header keys lists of code points.
\<close>

section \<open>Errors\<close>

datatype kafka_error =
    KafkaInputError string
  | KafkaPositionError string
  | KafkaMessageTooLargeError
  | KafkaConsumptionFlowError string
  | KafkaUnavailableError string
  | KafkaSnapshotLostError string
  | KafkaDecodeError
  | KafkaCommitError string
  | CancelledError
  | PyError string

type_synonym 'a kafka_result = "(kafka_error, 'a) result"

section \<open>Value objects\<close>

definition nonnegative :: "int \<Rightarrow> string \<Rightarrow> unit kafka_result" where
  "nonnegative value name =
     (if value < 0 then Inl (KafkaInputError (name @ '' must be a nonnegative integer'')) else Inr ())"

text \<open>\<^verbatim>\<open>not s.strip()\<close>: the text holds only characters that \<^verbatim>\<open>str.strip\<close> removes.\<close>

definition is_blank :: "string \<Rightarrow> bool" where
  "is_blank s = list_all (\<lambda>c. is_space c \<or> of_char c \<in> {28, 29, 30, 31, 133, 160::nat}) s"

record TopicPartition =
  tp_topic :: string
  tp_partition :: int

definition make_TopicPartition :: "string \<Rightarrow> int \<Rightarrow> TopicPartition kafka_result" where
  "make_TopicPartition topic part =
     (if is_blank topic then Inl (KafkaInputError ''topic must be nonempty'')
      else bind_result (nonnegative part ''partition'')
             (\<lambda>_. Inr \<lparr>tp_topic = topic, tp_partition = part\<rparr>))"

record OffsetRange =
  rg_topic_partition :: TopicPartition
  rg_start :: int
  rg_end :: int

definition make_OffsetRange :: "TopicPartition \<Rightarrow> int \<Rightarrow> int \<Rightarrow> OffsetRange kafka_result" where
  "make_OffsetRange tp start stop =
     bind_result (nonnegative start ''start'') (\<lambda>_.
     bind_result (nonnegative stop ''end'') (\<lambda>_.
       if start > stop then Inl (KafkaInputError ''start must not exceed end'')
       else Inr \<lparr>rg_topic_partition = tp, rg_start = start, rg_end = stop\<rparr>))"

record ReadLimits =
  lm_max_messages :: "int option"
  lm_max_bytes :: "int option"
  lm_rows_per_partition :: int
  lm_target_partition_bytes :: int
  lm_max_message_bytes :: int

definition positive_limit :: "string \<times> int option \<Rightarrow> unit kafka_result" where
  "positive_limit p = (case p of (name, None) \<Rightarrow> Inr ()
     | (name, Some value) \<Rightarrow> bind_result (nonnegative value name) (\<lambda>_.
         if value = 0 then Inl (KafkaInputError (name @ '' must be positive'')) else Inr ()))"

definition make_ReadLimits :: "int option \<Rightarrow> int option \<Rightarrow> int \<Rightarrow> int \<Rightarrow> int \<Rightarrow> ReadLimits kafka_result" where
  "make_ReadLimits max_messages max_bytes rows target max_message =
     bind_result (map_result positive_limit
       [(''max_messages'', max_messages), (''max_bytes'', max_bytes), (''rows_per_partition'', Some rows),
        (''target_partition_bytes'', Some target), (''max_message_bytes'', Some max_message)])
     (\<lambda>_. Inr \<lparr>lm_max_messages = max_messages, lm_max_bytes = max_bytes, lm_rows_per_partition = rows,
             lm_target_partition_bytes = target, lm_max_message_bytes = max_message\<rparr>)"

record PartitionPosition =
  pp_topic_partition :: TopicPartition
  pp_next_offset :: int

definition make_PartitionPosition :: "TopicPartition \<Rightarrow> int \<Rightarrow> PartitionPosition kafka_result" where
  "make_PartitionPosition tp next_offset =
     bind_result (nonnegative next_offset ''next_offset'')
       (\<lambda>_. Inr \<lparr>pp_topic_partition = tp, pp_next_offset = next_offset\<rparr>)"

datatype StopReason = Snapshot_exhausted | Max_messages | Max_bytes

record ReadCursor =
  cu_positions :: "PartitionPosition list"
  cu_remaining_messages :: "int option"
  cu_remaining_bytes :: "int option"
  cu_next_partition_index :: nat
  cu_stop_reason :: "StopReason option"

definition optional_nonnegative :: "string \<times> int option \<Rightarrow> unit kafka_result" where
  "optional_nonnegative p = (case p of (name, None) \<Rightarrow> Inr () | (name, Some value) \<Rightarrow> nonnegative value name)"

definition make_ReadCursor ::
  "PartitionPosition list \<Rightarrow> int option \<Rightarrow> int option \<Rightarrow> nat \<Rightarrow> StopReason option \<Rightarrow> ReadCursor kafka_result" where
  "make_ReadCursor positions rm rb index reason =
     bind_result (map_result optional_nonnegative
       [(''remaining_messages'', rm), (''remaining_bytes'', rb), (''next_partition_index'', Some (int index))])
     (\<lambda>_. Inr \<lparr>cu_positions = positions, cu_remaining_messages = rm, cu_remaining_bytes = rb,
             cu_next_partition_index = index, cu_stop_reason = reason\<rparr>)"

record PartitionOffsets =
  po_partition :: int
  po_next_offset :: int
  po_start_offset :: "int option"
  po_last_message_offset :: "int option"
  po_message_count :: "int option"
  po_payload_bytes :: "int option"

definition make_PartitionOffsets ::
  "int \<Rightarrow> int \<Rightarrow> int option \<Rightarrow> int option \<Rightarrow> int option \<Rightarrow> int option \<Rightarrow> PartitionOffsets kafka_result" where
  "make_PartitionOffsets part next_offset start last_offset n_messages nbytes =
     bind_result (map_result optional_nonnegative
       [(''partition'', Some part), (''next_offset'', Some next_offset), (''start_offset'', start),
        (''last_message_offset'', last_offset), (''message_count'', n_messages), (''payload_bytes'', nbytes)]) (\<lambda>_.
     if (case start of None \<Rightarrow> False | Some s \<Rightarrow> s > next_offset)
     then Inl (KafkaInputError ''start_offset exceeds next_offset'')
     else if (case last_offset of None \<Rightarrow> False | Some l \<Rightarrow> l + 1 \<noteq> next_offset)
     then Inl (KafkaInputError ''next_offset must follow last_message_offset'')
     else if (case (last_offset, start) of (Some l, Some s) \<Rightarrow> l < s | _ \<Rightarrow> False)
     then Inl (KafkaInputError ''last_message_offset precedes start_offset'')
     else Inr \<lparr>po_partition = part, po_next_offset = next_offset, po_start_offset = start,
             po_last_message_offset = last_offset, po_message_count = n_messages, po_payload_bytes = nbytes\<rparr>)"

section \<open>Entities\<close>

record ReadPlan =
  rp_read_id :: string
  rp_topic :: string
  rp_group_id :: string
  rp_ranges :: "OffsetRange list"
  rp_limits :: ReadLimits
  rp_isolation_level :: string
  rp_cluster_id :: "string option"
  rp_connection_id :: "string option"

type_synonym bytes = "nat list"

record RawMessage =
  rm_topic_partition :: TopicPartition
  rm_offset :: int
  rm_timestamp_ms :: "int option"
  rm_timestamp_type :: "string option"
  rm_key :: "bytes option"
  rm_value :: "bytes option"
  rm_headers :: "(nat list \<times> bytes option) list"

text \<open>The length of \<^verbatim>\<open>key.encode("utf-8")\<close>, by code point.\<close>

definition utf8_length :: "nat list \<Rightarrow> int" where
  "utf8_length cs = sum_list (map (\<lambda>c. if c < 128 then 1 else if c < 2048 then 2 else if c < 65536 then 3 else 4) cs)"

definition bytes_length :: "bytes option \<Rightarrow> int" where
  "bytes_length b = (case b of None \<Rightarrow> 0 | Some bs \<Rightarrow> int (length bs))"

definition payload_bytes :: "RawMessage \<Rightarrow> int" where
  "payload_bytes m =
     bytes_length (rm_key m) + bytes_length (rm_value m) +
     sum_list (map (\<lambda>(key, v). utf8_length key + bytes_length v) (rm_headers m))"

record ReadBatch =
  rb_messages :: "RawMessage list"
  rb_next_position :: int
  rb_exhausted :: bool
  rb_byte_limit_reached :: bool

record ChunkReceipt =
  cr_read_id :: string
  cr_part_number :: nat
  cr_offsets :: "PartitionOffsets list"
  cr_message_count :: int
  cr_payload_bytes :: int
  cr_fingerprint :: string
  cr_cursor :: ReadCursor

record ReadSummary =
  rs_topic :: string
  rs_group_id :: string
  rs_partitions :: "PartitionOffsets list"
  rs_read_id :: "string option"
  rs_cluster_id :: "string option"
  rs_connection_id :: "string option"
  rs_isolation_level :: string
  rs_messages_read :: "int option"
  rs_bytes_read :: "int option"
  rs_stop_reason :: "StopReason option"

datatype commit_status = Committed | Unchanged | Already_ahead

record PartitionCommitResult =
  pc_partition :: int
  pc_requested :: int
  pc_current :: "int option"
  pc_resulting :: int
  pc_status :: commit_status

type_synonym CommitResult = "PartitionCommitResult list"

definition partitions_committed :: "CommitResult \<Rightarrow> nat" where
  "partitions_committed result = length (filter (\<lambda>item. pc_status item = Committed) result)"

section \<open>Policies\<close>

definition validate_position :: "int \<Rightarrow> int \<Rightarrow> int \<Rightarrow> int kafka_result" where
  "validate_position position beginning stop =
     bind_result (map_result (\<lambda>(name, value). nonnegative value name)
       [(''position'', position), (''beginning'', beginning), (''end'', stop)]) (\<lambda>_.
     if \<not> (beginning \<le> position \<and> position \<le> stop)
     then Inl (KafkaPositionError ''Position is outside available range'')
     else Inr position)"

definition start_at :: "string \<Rightarrow> int \<Rightarrow> int \<Rightarrow> int option \<Rightarrow> int option \<Rightarrow> int kafka_result" where
  "start_at mode beginning stop timestamp_position explicit_position =
     (if mode = ''earliest'' then validate_position beginning beginning stop
      else if mode = ''latest'' then validate_position stop beginning stop
      else if mode = ''timestamp''
      then validate_position (case timestamp_position of None \<Rightarrow> stop | Some t \<Rightarrow> min t stop) beginning stop
      else case (mode = ''explicit'', explicit_position) of
             (True, Some e) \<Rightarrow> validate_position e beginning stop
           | _ \<Rightarrow> Inl (KafkaInputError ''Invalid start mode or missing explicit position''))"

definition select_start_position ::
  "string \<Rightarrow> int \<Rightarrow> int \<Rightarrow> int option \<Rightarrow> string \<Rightarrow> int option \<Rightarrow> int option \<Rightarrow> int kafka_result" where
  "select_start_position mode beginning stop current missing_policy timestamp_position explicit_position =
     (if mode = ''committed''
      then case current of
             Some c \<Rightarrow> validate_position c beginning stop
           | None \<Rightarrow>
               if missing_policy = ''error'' then Inl (KafkaPositionError ''No committed position'')
               else if missing_policy \<notin> {''earliest'', ''latest''}
               then Inl (KafkaInputError ''Unknown missing offset policy'')
               else start_at missing_policy beginning stop timestamp_position explicit_position
      else start_at mode beginning stop timestamp_position explicit_position)"

definition monotonic_commit :: "int \<Rightarrow> int \<Rightarrow> int option \<Rightarrow> int \<Rightarrow> PartitionCommitResult kafka_result" where
  "monotonic_commit part requested current stop =
     bind_result (nonnegative part ''partition'') (\<lambda>_.
     bind_result (validate_position requested 0 stop) (\<lambda>_.
     let write = \<lparr>pc_partition = part, pc_requested = requested, pc_current = current,
                  pc_resulting = requested, pc_status = Committed\<rparr>
     in case current of
          None \<Rightarrow> Inr write
        | Some c \<Rightarrow> bind_result (nonnegative c ''current'') (\<lambda>_.
            if c \<ge> requested
            then Inr \<lparr>pc_partition = part, pc_requested = requested, pc_current = current,
                      pc_resulting = c, pc_status = (if c = requested then Unchanged else Already_ahead)\<rparr>
            else Inr write)))"

section \<open>The gateway protocol\<close>

record read_request =
  rq_range :: OffsetRange
  rq_isolation_level :: string
  rq_max_records :: int
  rq_max_bytes :: "int option"
  rq_total_max_bytes :: "int option"
  rq_target_bytes :: int
  rq_max_message_bytes :: int

text \<open>
  The answers of \<^verbatim>\<open>KafkaGateway\<close> (\<^verbatim>\<open>domain/gateways/kafka.py\<close>) during one use case. A use case calls
  \<open>kg_read\<close> many times, so its answers depend on the time of the call; every other method is called
  at most once. \<^verbatim>\<open>check_cancelled\<close> is a predicate on the time of the check.
\<close>

record kafka_gateway =
  kg_partitions :: "string \<Rightarrow> int list kafka_result"
  kg_cluster_id :: "string option kafka_result"
  kg_bounds :: "TopicPartition list \<Rightarrow> string \<Rightarrow> (TopicPartition, int \<times> int) dict kafka_result"
  kg_offsets_for_timestamp ::
    "TopicPartition list \<Rightarrow> int \<Rightarrow> string \<Rightarrow> (TopicPartition, int option) dict kafka_result"
  kg_committed :: "string \<Rightarrow> TopicPartition list \<Rightarrow> (TopicPartition, int option) dict kafka_result"
  kg_commit :: "string \<Rightarrow> (TopicPartition, int) dict \<Rightarrow> unit kafka_result"
  kg_read :: "nat \<Rightarrow> read_request \<Rightarrow> ReadBatch kafka_result"

definition check_cancelled :: "(nat \<Rightarrow> bool) \<Rightarrow> nat \<Rightarrow> unit kafka_result" where
  "check_cancelled cancelled now = (if cancelled now then Inl CancelledError else Inr ())"

definition dict_index :: "('k, 'v) dict \<Rightarrow> 'k \<Rightarrow> 'v kafka_result" where
  "dict_index d k = (case map_of d k of None \<Rightarrow> Inl (PyError ''KeyError'') | Some v \<Rightarrow> Inr v)"

section \<open>Planning a read\<close>

text \<open>A \<^verbatim>\<open>datetime\<close>: whether it knows its UTC offset, and its timestamp in milliseconds.\<close>

datatype start_datetime = Datetime bool int

record plan_args =
  pa_topic :: string
  pa_group_id :: string
  pa_limits :: ReadLimits
  pa_partitions :: "int list option"
  pa_start_mode :: string
  pa_missing_offset_policy :: string
  pa_start_timestamp :: "start_datetime option"
  pa_start_offsets :: "(string, int) dict option"
  pa_isolation_level :: string
  pa_connection_id :: "string option"

definition check_plan_args :: "plan_args \<Rightarrow> unit kafka_result" where
  "check_plan_args a =
     bind_result (make_TopicPartition (pa_topic a) 0) (\<lambda>_.
     if is_blank (pa_group_id a) then Inl (KafkaInputError ''group_id must be nonempty'')
     else if pa_start_mode a \<notin> {''committed'', ''earliest'', ''latest'', ''timestamp'', ''explicit''}
     then Inl (KafkaInputError ''Invalid start mode'')
     else if pa_missing_offset_policy a \<notin> {''earliest'', ''latest'', ''error''}
     then Inl (KafkaInputError ''Invalid missing offset policy'')
     else if pa_isolation_level a \<notin> {''read_committed'', ''read_uncommitted''}
     then Inl (KafkaInputError ''Invalid isolation level'')
     else if pa_start_mode a = ''timestamp'' \<and>
       (case pa_start_timestamp a of Some (Datetime aware _) \<Rightarrow> \<not> aware | None \<Rightarrow> True)
     then Inl (KafkaInputError ''timestamp mode requires a timezone-aware start_timestamp'')
     else Inr ())"

definition select_partitions :: "plan_args \<Rightarrow> int list \<Rightarrow> TopicPartition list kafka_result" where
  "select_partitions a available =
     (let selected = (case pa_partitions a of None \<Rightarrow> available | Some ps \<Rightarrow> ps)
      in bind_result (map_result (\<lambda>p. nonnegative p ''partition'') selected) (\<lambda>_.
         if selected = [] \<or> \<not> distinct selected \<or> set selected - set available \<noteq> {}
         then Inl (KafkaInputError ''Partitions must be nonempty, unique and available'')
         else bind_result (map_result (make_TopicPartition (pa_topic a)) (sort selected)) (\<lambda>tps.
         if pa_start_mode a = ''explicit''
         then case pa_start_offsets a of
                None \<Rightarrow> Inl (KafkaInputError ''start_offsets must contain exactly the selected partition IDs'')
              | Some offsets \<Rightarrow>
                  if set (dict_keys offsets) \<noteq> set (map (\<lambda>p. digits (nat p)) selected)
                  then Inl (KafkaInputError ''start_offsets must contain exactly the selected partition IDs'')
                  else bind_result (map_result (\<lambda>v. nonnegative v ''start_offset'') (dict_values offsets))
                         (\<lambda>_. Inr tps)
         else Inr tps)))"

definition plan_range ::
  "plan_args \<Rightarrow> (TopicPartition, int \<times> int) dict \<Rightarrow> (TopicPartition, int option) dict \<Rightarrow>
   (TopicPartition, int option) dict \<Rightarrow> TopicPartition \<Rightarrow> OffsetRange kafka_result" where
  "plan_range a bounds current timestamps tp =
     bind_result (dict_index bounds tp) (\<lambda>(beginning, stop).
     bind_result (select_start_position (pa_start_mode a) beginning stop (Option.bind (map_of current tp) id)
         (pa_missing_offset_policy a) (Option.bind (map_of timestamps tp) id)
         (map_of (case pa_start_offsets a of None \<Rightarrow> [] | Some d \<Rightarrow> d) (digits (nat (tp_partition tp)))))
       (\<lambda>start. make_OffsetRange tp start stop))"

definition plan_read :: "kafka_gateway \<Rightarrow> (nat \<Rightarrow> bool) \<Rightarrow> string \<Rightarrow> plan_args \<Rightarrow> ReadPlan kafka_result" where
  "plan_read gw cancelled uuid a =
     bind_result (check_plan_args a) (\<lambda>_.
     bind_result (check_cancelled cancelled 0) (\<lambda>_.
     bind_result (kg_partitions gw (pa_topic a)) (\<lambda>available.
     bind_result (select_partitions a available) (\<lambda>tps.
     bind_result (check_cancelled cancelled 1) (\<lambda>_.
     bind_result (kg_bounds gw tps (pa_isolation_level a)) (\<lambda>bounds.
     bind_result (if pa_start_mode a = ''committed'' then kg_committed gw (pa_group_id a) tps else Inr []) (\<lambda>current.
     bind_result (case (pa_start_mode a = ''timestamp'', pa_start_timestamp a) of
                    (True, Some (Datetime _ ms)) \<Rightarrow> kg_offsets_for_timestamp gw tps ms (pa_isolation_level a)
                  | _ \<Rightarrow> Inr []) (\<lambda>timestamps.
     bind_result (map_result (plan_range a bounds current timestamps) tps) (\<lambda>ranges.
     bind_result (check_cancelled cancelled 2) (\<lambda>_.
     bind_result (kg_cluster_id gw) (\<lambda>cluster.
       Inr \<lparr>rp_read_id = uuid, rp_topic = pa_topic a, rp_group_id = pa_group_id a, rp_ranges = ranges,
            rp_limits = pa_limits a, rp_isolation_level = pa_isolation_level a,
            rp_cluster_id = cluster, rp_connection_id = pa_connection_id a\<rparr>)))))))))))"

end
