(* ===== verification/Kafka_Gateway.thy ===== *)
theory Kafka_Gateway
  imports Kafka_Values
begin

text \<open>
  The gateway to Kafka, \<^verbatim>\<open>src/modules/kafka_consumption/infra/gateways/kafka_python.py\<close>, over the
  third-party client, which is the parameter \<open>kafka_sdk\<close>: its answers at every point of time of one
  gateway call. A call is a computation on the state of its short-lived consumer.

  The clock is read only to give up after a time without progress; the model counts the passes of the
  poll loop without progress instead, and the field \<open>sk_patience\<close> is the number of such passes that fit
  into the timeout. Closing a client is not observable. The client's unexpected exceptions
  (those that are neither Kafka nor TLS errors) are not modelled.
\<close>

section \<open>The client\<close>

datatype sdk_error = SSLError | OffsetOutOfRangeError | OtherKafkaError (retriable: bool)

record ConsumerRecord =
  sr_topic :: string
  sr_partition :: int
  sr_offset :: int
  sr_timestamp :: "int option"
  sr_timestamp_type :: "int option"
  sr_key :: "bytes option"
  sr_value :: "bytes option"
  sr_headers :: "(nat list \<times> bytes option) list option"

text \<open>
  \<open>sk_poll\<close> takes the fetch position of the consumer and the record limit and returns the records with
  the new fetch position; a failing poll moves the position too. \<open>sk_wait_cancelled\<close> tells whether a
  cancellation check during the pause between two attempts raises.
\<close>

record kafka_sdk =
  sk_cancelled :: "nat \<Rightarrow> bool"
  sk_wait_cancelled :: "nat \<Rightarrow> bool"
  sk_patience :: nat
  sk_connect :: "nat \<Rightarrow> (sdk_error, unit) result"
  sk_partitions_for_topic :: "nat \<Rightarrow> string \<Rightarrow> (sdk_error, int list option) result"
  sk_describe_cluster :: "nat \<Rightarrow> (sdk_error, string option) result"
  sk_beginning_offsets :: "nat \<Rightarrow> TopicPartition list \<Rightarrow> (sdk_error, (TopicPartition, int) dict) result"
  sk_end_offsets :: "nat \<Rightarrow> TopicPartition list \<Rightarrow> (sdk_error, (TopicPartition, int) dict) result"
  sk_offsets_for_times ::
    "nat \<Rightarrow> (TopicPartition, int) dict \<Rightarrow> (sdk_error, (TopicPartition, int option) dict) result"
  sk_committed :: "nat \<Rightarrow> string \<Rightarrow> TopicPartition \<Rightarrow> (sdk_error, int option) result"
  sk_commit :: "nat \<Rightarrow> string \<Rightarrow> (TopicPartition, int) dict \<Rightarrow> (sdk_error, unit) result"
  sk_poll :: "nat \<Rightarrow> TopicPartition \<Rightarrow> int \<Rightarrow> int \<Rightarrow> (sdk_error, ConsumerRecord list) result \<times> int"
  sk_position :: "nat \<Rightarrow> (sdk_error, unit) result"

record KafkaRuntimeSettings =
  st_poll_timeout_ms :: int
  st_request_timeout_ms :: int
  st_no_progress_timeout_sec :: rat
  st_attempts :: int
  st_max_fetch_bytes :: int
  st_max_plan_tasks :: int

definition make_KafkaRuntimeSettings ::
  "int \<Rightarrow> int \<Rightarrow> rat \<Rightarrow> int \<Rightarrow> int \<Rightarrow> int \<Rightarrow> KafkaRuntimeSettings kafka_result" where
  "make_KafkaRuntimeSettings poll request no_progress attempts fetch tasks =
     bind_result (map_result (\<lambda>(name, value).
         if value \<le> 0 then Inl (KafkaInputError (name @ '' must be a positive integer'')) else Inr ())
       [(''poll_timeout_ms'', poll), (''request_timeout_ms'', request), (''attempts'', attempts),
        (''max_fetch_bytes'', fetch), (''max_plan_tasks'', tasks)]) (\<lambda>_.
     if request \<le> poll \<or> no_progress \<le> 0 then Inl (KafkaInputError ''Invalid Kafka technical timeouts'')
     else Inr \<lparr>st_poll_timeout_ms = poll, st_request_timeout_ms = request,
             st_no_progress_timeout_sec = no_progress, st_attempts = attempts,
             st_max_fetch_bytes = fetch, st_max_plan_tasks = tasks\<rparr>)"

section \<open>Computations of one gateway call\<close>

text \<open>
  The time, the fetch position of the consumer, and the \<^verbatim>\<open>nonlocal\<close> flags of \<^verbatim>\<open>read\<close> and \<^verbatim>\<open>commit\<close>.
\<close>

record consumer_state =
  cs_now :: nat
  cs_position :: int
  cs_poll_failed :: bool
  cs_submitted :: bool

definition new_consumer :: consumer_state where
  "new_consumer = \<lparr>cs_now = 0, cs_position = 0, cs_poll_failed = False, cs_submitted = False\<rparr>"

type_synonym ('e, 'a) call = "consumer_state \<Rightarrow> ('e, 'a) result \<times> consumer_state"

definition return :: "'a \<Rightarrow> ('e, 'a) call" where
  "return a s = (Inr a, s)"

definition raise :: "'e \<Rightarrow> ('e, 'a) call" where
  "raise e s = (Inl e, s)"

definition bind_call :: "('e, 'a) call \<Rightarrow> ('a \<Rightarrow> ('e, 'b) call) \<Rightarrow> ('e, 'b) call" where
  "bind_call m f s = (case m s of (Inl e, s') \<Rightarrow> (Inl e, s') | (Inr a, s') \<Rightarrow> f a s')"

definition lift_result :: "('e, 'a) result \<Rightarrow> ('e, 'a) call" where
  "lift_result r s = (r, s)"

definition tick :: "consumer_state \<Rightarrow> consumer_state" where
  "tick s = s\<lparr>cs_now := Suc (cs_now s)\<rparr>"

definition not_cancelled :: "kafka_sdk \<Rightarrow> (kafka_error, unit) call" where
  "not_cancelled sdk s = (check_cancelled (sk_cancelled sdk) (cs_now s), tick s)"

text \<open>What an attempted operation raises: an error of the client, or an error of the gateway itself.\<close>

datatype attempt_error = Sdk sdk_error | Raised kafka_error

definition sdk_call :: "(nat \<Rightarrow> (sdk_error, 'a) result) \<Rightarrow> (attempt_error, 'a) call" where
  "sdk_call f s = (case f (cs_now s) of Inl e \<Rightarrow> (Inl (Sdk e), tick s) | Inr a \<Rightarrow> (Inr a, tick s))"

fun retry :: "kafka_sdk \<Rightarrow> nat \<Rightarrow> (attempt_error, 'a) call \<Rightarrow> string \<Rightarrow> (kafka_error, 'a) call" where
  "retry sdk 0 operation name s = (Inl (KafkaUnavailableError (''Kafka '' @ name @ '' exhausted attempts'')), s)"
| "retry sdk (Suc left) operation name s =
     (case not_cancelled sdk s of
        (Inl e, s1) \<Rightarrow> (Inl e, s1)
      | (Inr _, s1) \<Rightarrow>
          (case operation s1 of
             (Inr a, s2) \<Rightarrow> (Inr a, s2)
           | (Inl (Raised e), s2) \<Rightarrow> (Inl e, s2)
           | (Inl (Sdk SSLError), s2) \<Rightarrow>
               (Inl (KafkaUnavailableError (''Kafka '' @ name @ '' failed (TLS verification)'')), s2)
           | (Inl (Sdk OffsetOutOfRangeError), s2) \<Rightarrow>
               (Inl (KafkaSnapshotLostError (''Kafka range lost during '' @ name)), s2)
           | (Inl (Sdk (OtherKafkaError again)), s2) \<Rightarrow>
               if \<not> again \<or> left = 0
               then (Inl (if name = ''commit'' then KafkaCommitError (''Kafka '' @ name @ '' failed'')
                          else KafkaUnavailableError (''Kafka '' @ name @ '' failed'')), s2)
               else if sk_wait_cancelled sdk (cs_now s2) then (Inl CancelledError, tick s2)
               else retry sdk left operation name (tick s2)))"

definition open_consumer :: "kafka_sdk \<Rightarrow> nat \<Rightarrow> string \<Rightarrow> (kafka_error, unit) call" where
  "open_consumer sdk attempts isolation_level =
     (if isolation_level \<notin> {''read_committed'', ''read_uncommitted''}
      then raise (KafkaInputError ''Invalid isolation level'')
      else retry sdk attempts (sdk_call (sk_connect sdk)) ''connect'')"

section \<open>Metadata, bounds and group positions\<close>

definition gateway_partitions :: "kafka_sdk \<Rightarrow> nat \<Rightarrow> string \<Rightarrow> int list kafka_result" where
  "gateway_partitions sdk attempts topic =
     fst (bind_call (lift_result (make_TopicPartition topic 0)) (\<lambda>_.
          bind_call (open_consumer sdk attempts ''read_committed'') (\<lambda>_.
          bind_call (retry sdk attempts (sdk_call (\<lambda>t. sk_partitions_for_topic sdk t topic)) ''metadata'') (\<lambda>found.
            case found of
              None \<Rightarrow> raise (KafkaInputError ''Unknown or unavailable Kafka topic'')
            | Some [] \<Rightarrow> raise (KafkaInputError ''Unknown or unavailable Kafka topic'')
            | Some ps \<Rightarrow> return (sort ps)))) new_consumer)"

definition gateway_cluster_id :: "kafka_sdk \<Rightarrow> nat \<Rightarrow> string option kafka_result" where
  "gateway_cluster_id sdk attempts =
     fst (bind_call (retry sdk attempts (sdk_call (sk_connect sdk)) ''connect'') (\<lambda>_.
          retry sdk attempts (sdk_call (sk_describe_cluster sdk)) ''cluster metadata'') new_consumer)"

definition gateway_bounds ::
  "kafka_sdk \<Rightarrow> nat \<Rightarrow> TopicPartition list \<Rightarrow> string \<Rightarrow> (TopicPartition, int \<times> int) dict kafka_result" where
  "gateway_bounds sdk attempts tps isolation_level =
     (if tps = [] then Inr []
      else fst (bind_call (open_consumer sdk attempts isolation_level) (\<lambda>_.
        bind_call (retry sdk attempts (sdk_call (\<lambda>t. sk_beginning_offsets sdk t tps)) ''beginning offsets'') (\<lambda>starts.
        bind_call (retry sdk attempts (sdk_call (\<lambda>t. sk_end_offsets sdk t tps)) ''end offsets'') (\<lambda>ends.
          lift_result (map_result (\<lambda>p.
            bind_result (dict_index starts p) (\<lambda>b.
            bind_result (dict_index ends p) (\<lambda>e. Inr (p, (b, e))))) tps)))) new_consumer))"

definition gateway_offsets_for_timestamp ::
  "kafka_sdk \<Rightarrow> nat \<Rightarrow> TopicPartition list \<Rightarrow> int \<Rightarrow> string \<Rightarrow> (TopicPartition, int option) dict kafka_result" where
  "gateway_offsets_for_timestamp sdk attempts tps timestamp_ms isolation_level =
     bind_result (nonnegative timestamp_ms ''timestamp_ms'') (\<lambda>_.
     if tps = [] then Inr []
     else fst (bind_call (open_consumer sdk attempts isolation_level) (\<lambda>_.
       bind_call (retry sdk attempts
           (sdk_call (\<lambda>t. sk_offsets_for_times sdk t (map (\<lambda>p. (p, timestamp_ms)) tps))) ''timestamp offsets'') (\<lambda>found.
         lift_result (map_result (\<lambda>p. bind_result (dict_index found p) (\<lambda>o'. Inr (p, o'))) tps))) new_consumer))"

definition validate_group :: "string \<Rightarrow> unit kafka_result" where
  "validate_group group_id =
     (if is_blank group_id then Inl (KafkaInputError ''group_id must be nonempty'') else Inr ())"

fun committed_each :: "kafka_sdk \<Rightarrow> nat \<Rightarrow> string \<Rightarrow> TopicPartition list \<Rightarrow>
    (kafka_error, (TopicPartition, int option) dict) call" where
  "committed_each sdk attempts group_id [] = return []"
| "committed_each sdk attempts group_id (p # ps) =
     bind_call (retry sdk attempts (sdk_call (\<lambda>t. sk_committed sdk t group_id p)) ''committed'') (\<lambda>c.
     bind_call (committed_each sdk attempts group_id ps) (\<lambda>rest. return ((p, c) # rest)))"

definition gateway_committed ::
  "kafka_sdk \<Rightarrow> nat \<Rightarrow> string \<Rightarrow> TopicPartition list \<Rightarrow> (TopicPartition, int option) dict kafka_result" where
  "gateway_committed sdk attempts group_id tps =
     bind_result (validate_group group_id) (\<lambda>_.
     if tps = [] then Inr []
     else fst (bind_call (open_consumer sdk attempts ''read_committed'') (\<lambda>_.
       committed_each sdk attempts group_id tps) new_consumer))"

section \<open>Submitting positions\<close>

definition submit ::
  "kafka_sdk \<Rightarrow> string \<Rightarrow> (TopicPartition, int) dict \<Rightarrow> (attempt_error, unit) call" where
  "submit sdk group_id offsets s =
     (case not_cancelled sdk s of
        (Inl e, s1) \<Rightarrow> (Inl (Raised e), s1)
      | (Inr _, s1) \<Rightarrow> sdk_call (\<lambda>t. sk_commit sdk t group_id offsets) (s1\<lparr>cs_submitted := True\<rparr>))"

text \<open>
  The result and whether the request was submitted, in which case an error carries the note that
  offsets may be saved.
\<close>

definition gateway_commit ::
  "kafka_sdk \<Rightarrow> nat \<Rightarrow> string \<Rightarrow> (TopicPartition, int) dict \<Rightarrow> unit kafka_result \<times> bool" where
  "gateway_commit sdk attempts group_id positions =
     (case bind_result (validate_group group_id)
             (\<lambda>_. map_result (\<lambda>p. nonnegative p ''next_offset'') (dict_values positions)) of
        Inl e \<Rightarrow> (Inl e, False)
      | Inr _ \<Rightarrow>
          if positions = [] then (Inr (), False)
          else let (r, s) = bind_call (open_consumer sdk attempts ''read_committed'') (\<lambda>_.
                 bind_call (retry sdk attempts (submit sdk group_id positions) ''commit'') (\<lambda>_.
                 bind_call (not_cancelled sdk) (\<lambda>_. not_cancelled sdk))) new_consumer
               in (r, cs_submitted s))"

section \<open>Reading a range\<close>

definition message_from_sdk :: "ConsumerRecord \<Rightarrow> RawMessage kafka_result" where
  "message_from_sdk r =
     bind_result (make_TopicPartition (sr_topic r) (sr_partition r)) (\<lambda>tp.
       Inr \<lparr>rm_topic_partition = tp, rm_offset = sr_offset r,
            rm_timestamp_ms = (case sr_timestamp r of Some t \<Rightarrow> if t \<ge> 0 then Some t else None | None \<Rightarrow> None),
            rm_timestamp_type = (case sr_timestamp_type r of
                Some t \<Rightarrow> if t = 0 then Some ''CreateTime'' else if t = 1 then Some ''LogAppendTime'' else None
              | None \<Rightarrow> None),
            rm_key = sr_key r, rm_value = sr_value r,
            rm_headers = (case sr_headers r of None \<Rightarrow> [] | Some hs \<Rightarrow> hs)\<rparr>)"

definition verify_range ::
  "kafka_sdk \<Rightarrow> nat \<Rightarrow> TopicPartition \<Rightarrow> int \<Rightarrow> int \<Rightarrow> (kafka_error, unit) call" where
  "verify_range sdk attempts tp stop position =
     bind_call (retry sdk attempts (sdk_call (\<lambda>t. sk_beginning_offsets sdk t [tp])) ''range check'') (\<lambda>starts.
     bind_call (lift_result (dict_index starts tp)) (\<lambda>beginning.
     bind_call (retry sdk attempts (sdk_call (\<lambda>t. sk_end_offsets sdk t [tp])) ''range check'') (\<lambda>ends.
     bind_call (lift_result (dict_index ends tp)) (\<lambda>upper.
       if beginning > position \<or> upper < stop then raise (KafkaSnapshotLostError ''Kafka snapshot lost'')
       else return ()))))"

definition poll :: "kafka_sdk \<Rightarrow> TopicPartition \<Rightarrow> int \<Rightarrow> (attempt_error, ConsumerRecord list) call" where
  "poll sdk tp n s =
     (case sk_poll sdk (cs_now s) tp (cs_position s) n of
        (Inl e, p) \<Rightarrow> (Inl (Sdk e), tick (s\<lparr>cs_position := p, cs_poll_failed := True\<rparr>))
      | (Inr polled, p) \<Rightarrow> (Inr polled, tick (s\<lparr>cs_position := p, cs_poll_failed := False\<rparr>)))"

definition poll_from_safe_position ::
  "kafka_sdk \<Rightarrow> nat \<Rightarrow> TopicPartition \<Rightarrow> int \<Rightarrow> int \<Rightarrow> int \<Rightarrow> (attempt_error, ConsumerRecord list) call" where
  "poll_from_safe_position sdk attempts tp stop position n s =
     (if cs_poll_failed s
      then case verify_range sdk attempts tp stop position s of
             (Inl e, s1) \<Rightarrow> (Inl (Raised e), s1)
           | (Inr _, s1) \<Rightarrow> poll sdk tp n (s1\<lparr>cs_position := position\<rparr>)
      else poll sdk tp n s)"

text \<open>The local variables of the read loop.\<close>

record read_acc =
  ra_messages :: "RawMessage list"
  ra_payload :: int
  ra_position :: int

definition batch_of :: "RawMessage list \<Rightarrow> int \<Rightarrow> bool \<Rightarrow> bool \<Rightarrow> ReadBatch" where
  "batch_of messages position exhausted limited =
     \<lparr>rb_messages = messages, rb_next_position = position, rb_exhausted = exhausted, rb_byte_limit_reached = limited\<rparr>"

text \<open>The loop over the polled records: it returns a batch, or the variables after the last record.\<close>

fun read_records ::
  "kafka_sdk \<Rightarrow> nat \<Rightarrow> read_request \<Rightarrow> ConsumerRecord list \<Rightarrow> read_acc \<Rightarrow> (kafka_error, ReadBatch + read_acc) call" where
  "read_records sdk attempts rq [] acc = return (Inr acc)"
| "read_records sdk attempts rq (r # rs) acc =
     (let tp = rg_topic_partition (rq_range rq); start = rg_start (rq_range rq); stop = rg_end (rq_range rq)
      in if sr_offset r \<ge> stop
         then bind_call (verify_range sdk attempts tp stop (ra_position acc))
                (\<lambda>_. return (Inl (batch_of (ra_messages acc) stop True False)))
         else bind_call (lift_result (message_from_sdk r)) (\<lambda>message.
         let nbytes = payload_bytes message
         in if nbytes > rq_max_message_bytes rq \<or>
               (case rq_total_max_bytes rq of None \<Rightarrow> False | Some limit \<Rightarrow> nbytes > limit)
            then raise KafkaMessageTooLargeError
            else if (case rq_max_bytes rq of None \<Rightarrow> False | Some limit \<Rightarrow> ra_payload acc + nbytes > limit)
            then bind_call (verify_range sdk attempts tp stop (ra_position acc))
                   (\<lambda>_. return (Inl (batch_of (ra_messages acc) (sr_offset r) False True)))
            else let acc' = \<lparr>ra_messages = ra_messages acc @ [message], ra_payload = ra_payload acc + nbytes,
                             ra_position = sr_offset r + 1\<rparr>
                 in if int (length (ra_messages acc')) \<ge> rq_max_records rq \<or> ra_payload acc' \<ge> rq_target_bytes rq
                    then bind_call (verify_range sdk attempts tp stop start)
                           (\<lambda>_. return (Inl (batch_of (ra_messages acc') (ra_position acc') (ra_position acc' \<ge> stop) False)))
                    else read_records sdk attempts rq rs acc'))"

text \<open>The position of the consumer after the polled records, which may lie behind control records.\<close>

definition scan_position ::
  "kafka_sdk \<Rightarrow> nat \<Rightarrow> int \<Rightarrow> bool \<Rightarrow> read_acc \<Rightarrow> (kafka_error, read_acc \<times> bool) call" where
  "scan_position sdk attempts stop progress acc =
     bind_call (retry sdk attempts (sdk_call (sk_position sdk)) ''position'') (\<lambda>_ s.
       let scanned = min (cs_position s) stop
       in if scanned > ra_position acc then return (acc\<lparr>ra_position := scanned\<rparr>, True) s
          else return (acc, progress) s)"

text \<open>One pass of the poll loop: a batch, or the variables for the next pass and whether it made progress.\<close>

definition read_pass ::
  "kafka_sdk \<Rightarrow> nat \<Rightarrow> read_request \<Rightarrow> read_acc \<Rightarrow> (kafka_error, ReadBatch + (read_acc \<times> bool)) call" where
  "read_pass sdk attempts rq acc =
     (let tp = rg_topic_partition (rq_range rq); stop = rg_end (rq_range rq)
      in bind_call (not_cancelled sdk) (\<lambda>_.
         bind_call (retry sdk attempts (poll_from_safe_position sdk attempts tp stop (ra_position acc)
             (rq_max_records rq - int (length (ra_messages acc)))) ''poll'') (\<lambda>polled.
         bind_call (read_records sdk attempts rq polled acc) (\<lambda>out. case out of
           Inl batch \<Rightarrow> return (Inl batch)
         | Inr acc' \<Rightarrow>
             bind_call (scan_position sdk attempts stop (length (ra_messages acc') > length (ra_messages acc)) acc')
               (\<lambda>next. return (Inr next))))))"

section \<open>Successful calls\<close>

named_theorems call_iffs \<open>when a call succeeds\<close>

lemma return_Inr_iff [call_iffs]: "return a s = (Inr b, s') \<longleftrightarrow> b = a \<and> s' = s"
  by (auto simp: return_def)

lemma raise_Inr_iff [call_iffs]: "raise e s = (Inr b, s') \<longleftrightarrow> False"
  by (simp add: raise_def)

lemma lift_result_Inr_iff [call_iffs]: "lift_result r s = (Inr b, s') \<longleftrightarrow> r = Inr b \<and> s' = s"
  by (auto simp: lift_result_def)

lemma bind_call_Inr_iff [call_iffs]:
  "bind_call m f s = (Inr b, s') \<longleftrightarrow> (\<exists>a s1. m s = (Inr a, s1) \<and> f a s1 = (Inr b, s'))"
  by (auto simp: bind_call_def split: prod.splits sum.splits)

lemma read_records_grows:
  "read_records sdk attempts rq rs acc s = (Inr (Inr acc'), s') \<Longrightarrow>
   acc' = acc \<or> length (ra_messages acc) < length (ra_messages acc') \<and> int (length (ra_messages acc')) < rq_max_records rq"
  by (induction rs arbitrary: acc s) (fastforce simp: Let_def call_iffs split: if_splits)+

lemma scan_positionE:
  assumes "scan_position sdk attempts stop progress acc s = (Inr (acc', progress'), s')"
  obtains "min (cs_position s') stop > ra_position acc" "acc' = acc\<lparr>ra_position := min (cs_position s') stop\<rparr>" "progress'"
  | "min (cs_position s') stop \<le> ra_position acc" "acc' = acc" "progress' = progress"
  using assms by (force simp: scan_position_def call_iffs Let_def split: if_splits)

lemma read_passE:
  assumes "read_pass sdk attempts rq acc s = (Inr out, s')"
  obtains s1 polled s2 s3 res where "not_cancelled sdk s = (Inr (), s1)"
    "retry sdk attempts (poll_from_safe_position sdk attempts (rg_topic_partition (rq_range rq)) (rg_end (rq_range rq))
       (ra_position acc) (rq_max_records rq - int (length (ra_messages acc)))) ''poll'' s1 = (Inr polled, s2)"
    "read_records sdk attempts rq polled acc s2 = (Inr res, s3)"
    "case res of Inl b \<Rightarrow> out = Inl b \<and> s' = s3
     | Inr acc1 \<Rightarrow> \<exists>acc' progress. out = Inr (acc', progress) \<and>
         scan_position sdk attempts (rg_end (rq_range rq)) (length (ra_messages acc1) > length (ra_messages acc)) acc1 s3 =
           (Inr (acc', progress), s')"
proof -
  obtain s1 polled s2 res s3 where *: "not_cancelled sdk s = (Inr (), s1)"
    "retry sdk attempts (poll_from_safe_position sdk attempts (rg_topic_partition (rq_range rq)) (rg_end (rq_range rq))
       (ra_position acc) (rq_max_records rq - int (length (ra_messages acc)))) ''poll'' s1 = (Inr polled, s2)"
    "read_records sdk attempts rq polled acc s2 = (Inr res, s3)"
    "(case res of Inl batch \<Rightarrow> return (Inl batch)
      | Inr acc' \<Rightarrow> bind_call (scan_position sdk attempts (rg_end (rq_range rq))
          (length (ra_messages acc') > length (ra_messages acc)) acc') (\<lambda>next. return (Inr next))) s3 = (Inr out, s')"
    using assms by (auto simp: read_pass_def Let_def call_iffs)
  show ?thesis
    by (rule that [OF *(1-3)], use *(4) in \<open>cases res; force simp: call_iffs\<close>)
qed

text \<open>A pass that does not return a batch makes progress, or leaves the variables unchanged.\<close>

lemma read_pass_progress:
  assumes "read_pass sdk attempts rq acc s = (Inr (Inr (acc', progress)), s')"
  shows "length (ra_messages acc) < length (ra_messages acc') \<and> int (length (ra_messages acc')) < rq_max_records rq \<and> progress \<or>
    ra_messages acc' = ra_messages acc \<and> ra_position acc < ra_position acc' \<and> ra_position acc' \<le> rg_end (rq_range rq) \<and> progress \<or>
    acc' = acc \<and> \<not> progress"
  using assms
proof (rule read_passE)
  fix s1 polled s2 s3 and res :: "ReadBatch + read_acc"
  assume records: "read_records sdk attempts rq polled acc s2 = (Inr res, s3)"
    and "case res of Inl b \<Rightarrow> Inr (acc', progress) = Inl b \<and> s' = s3
     | Inr acc1 \<Rightarrow> \<exists>acc'' progress'. (Inr (acc', progress) :: ReadBatch + read_acc \<times> bool) = Inr (acc'', progress') \<and>
         scan_position sdk attempts (rg_end (rq_range rq)) (length (ra_messages acc1) > length (ra_messages acc)) acc1 s3 =
           (Inr (acc'', progress'), s')"
  then obtain acc1 where res: "res = Inr acc1"
    and scan: "scan_position sdk attempts (rg_end (rq_range rq)) (length (ra_messages acc1) > length (ra_messages acc)) acc1 s3 =
           (Inr (acc', progress), s')"
    by (cases res) auto
  from read_records_grows [OF records [unfolded res]] scan show ?thesis
    by (auto elim!: scan_positionE)
qed

section \<open>The poll loop\<close>

text \<open>
  The loop \<^verbatim>\<open>while position < end\<close>. It ends for every behaviour of the client: a pass adds messages
  (at most \<^verbatim>\<open>max_records\<close>), moves the position towards the end, or counts as one without progress.
\<close>

function read_loop ::
  "kafka_sdk \<Rightarrow> nat \<Rightarrow> read_request \<Rightarrow> nat \<Rightarrow> read_acc \<Rightarrow> (kafka_error, ReadBatch) call" where
  "read_loop sdk attempts rq idle acc s =
     (let tp = rg_topic_partition (rq_range rq); stop = rg_end (rq_range rq)
      in if ra_position acc < stop
         then case read_pass sdk attempts rq acc s of
                (Inl e, s') \<Rightarrow> (Inl e, s')
              | (Inr (Inl batch), s') \<Rightarrow> (Inr batch, s')
              | (Inr (Inr (acc', progress)), s') \<Rightarrow>
                  let idle' = (if progress then 0 else Suc idle)
                  in if idle' \<ge> Suc (sk_patience sdk)
                     then bind_call (verify_range sdk attempts tp stop (ra_position acc'))
                            (\<lambda>_. raise (KafkaUnavailableError ''Kafka read made no progress'')) s'
                     else read_loop sdk attempts rq idle' acc' s'
         else bind_call (verify_range sdk attempts tp stop (rg_start (rq_range rq)))
                (\<lambda>_. return (batch_of (ra_messages acc) (ra_position acc) True False)) s)"
  by pat_completeness auto
termination
  by (relation "measures [\<lambda>(sdk, attempts, rq, idle, acc, s). nat (rq_max_records rq - int (length (ra_messages acc))),
        \<lambda>(sdk, attempts, rq, idle, acc, s). nat (rg_end (rq_range rq) - ra_position acc),
        \<lambda>(sdk, attempts, rq, idle, acc, s). Suc (sk_patience sdk) - idle]")
     (auto dest!: read_pass_progress [OF sym] split: if_splits)

declare read_loop.simps [simp del]

definition positive :: "string \<times> int \<Rightarrow> unit kafka_result" where
  "positive p = (case p of (name, value) \<Rightarrow> bind_result (nonnegative value name) (\<lambda>_.
     if value = 0 then Inl (KafkaInputError (name @ '' must be positive'')) else Inr ()))"

definition gateway_read :: "kafka_sdk \<Rightarrow> nat \<Rightarrow> read_request \<Rightarrow> ReadBatch kafka_result" where
  "gateway_read sdk attempts rq =
     bind_result (map_result positive [(''max_records'', rq_max_records rq), (''target_bytes'', rq_target_bytes rq),
       (''max_message_bytes'', rq_max_message_bytes rq)]) (\<lambda>_.
     bind_result (map_result optional_nonnegative
       [(''max_bytes'', rq_max_bytes rq), (''max_bytes'', rq_total_max_bytes rq)]) (\<lambda>_.
     let tp = rg_topic_partition (rq_range rq); start = rg_start (rq_range rq); stop = rg_end (rq_range rq)
     in if start = stop then Inr (batch_of [] start True False)
        else fst (bind_call (open_consumer sdk attempts (rq_isolation_level rq)) (\<lambda>_.
               bind_call (verify_range sdk attempts tp stop start) (\<lambda>_ s.
                 read_loop sdk attempts rq 0 \<lparr>ra_messages = [], ra_payload = 0, ra_position = start\<rparr>
                   (s\<lparr>cs_position := start\<rparr>))) new_consumer)))"

text \<open>
  The gateway of a use case: each of its calls meets the client in a condition of its own.
\<close>

definition kafka_python_gateway :: "(nat \<Rightarrow> kafka_sdk) \<Rightarrow> nat \<Rightarrow> kafka_gateway" where
  "kafka_python_gateway sdk attempts =
     \<lparr>kg_partitions = gateway_partitions (sdk 0) attempts,
      kg_cluster_id = gateway_cluster_id (sdk 1) attempts,
      kg_bounds = gateway_bounds (sdk 2) attempts,
      kg_offsets_for_timestamp = gateway_offsets_for_timestamp (sdk 3) attempts,
      kg_committed = gateway_committed (sdk 4) attempts,
      kg_commit = (\<lambda>group_id positions. fst (gateway_commit (sdk 5) attempts group_id positions)),
      kg_read = (\<lambda>now. gateway_read (sdk (6 + now)) attempts)\<rparr>"

end
