(* ===== verification/Kafka_Log.thy ===== *)
theory Kafka_Log
  imports Kafka_Gateway
begin

text \<open>
  What the gateway promises its clients: a successful read returns exactly the messages of a
  contiguous part of the partition's log, within the limits of the request. The promise rests on the
  documented behaviour of the client (\<open>sdk_delivers\<close>): a poll returns the records between its old and
  its new fetch position, in order.
\<close>

section \<open>Logs\<close>

text \<open>The messages of a partition that are visible at the isolation level of the read, by offset.\<close>

type_synonym topic_log = "TopicPartition \<Rightarrow> RawMessage list"

definition log_ok :: "topic_log \<Rightarrow> bool" where
  "log_ok lg \<longleftrightarrow> (\<forall>tp. sorted_wrt (<) (map rm_offset (lg tp)) \<and>
     list_all (\<lambda>m. rm_topic_partition m = tp \<and> 0 \<le> rm_offset m) (lg tp))"

definition segment :: "topic_log \<Rightarrow> TopicPartition \<Rightarrow> int \<Rightarrow> int \<Rightarrow> RawMessage list" where
  "segment lg tp a b = filter (\<lambda>m. a \<le> rm_offset m \<and> rm_offset m < b) (lg tp)"

definition total_bytes :: "RawMessage list \<Rightarrow> int" where
  "total_bytes ms = sum_list (map payload_bytes ms)"

lemma utf8_length_nonneg: "0 \<le> utf8_length cs"
  by (auto simp: utf8_length_def intro!: sum_list_nonneg)

lemma payload_bytes_nonneg: "0 \<le> payload_bytes m"
  by (auto simp: payload_bytes_def bytes_length_def utf8_length_nonneg
      intro!: add_nonneg_nonneg sum_list_nonneg split: option.splits)

lemma total_bytes_simps [simp]:
  "total_bytes [] = 0"
  "total_bytes (m # ms) = payload_bytes m + total_bytes ms"
  "total_bytes (ms @ ns) = total_bytes ms + total_bytes ns"
  by (simp_all add: total_bytes_def)

lemma total_bytes_nonneg: "0 \<le> total_bytes ms"
  by (induction ms) (auto intro: add_nonneg_nonneg payload_bytes_nonneg)

lemma sorted_filter_split:
  fixes f :: "'a \<Rightarrow> int"
  assumes "sorted_wrt (<) (map f xs)" "a \<le> b" "b \<le> c"
  shows "filter (\<lambda>x. a \<le> f x \<and> f x < c) xs =
    filter (\<lambda>x. a \<le> f x \<and> f x < b) xs @ filter (\<lambda>x. b \<le> f x \<and> f x < c) xs"
  using assms(1)
proof (induction xs)
  case (Cons x xs)
  have "filter (\<lambda>y. a \<le> f y \<and> f y < b) xs = []" if "b \<le> f x"
    using Cons.prems that by (auto simp: filter_empty_conv)
  then show ?case using Cons assms(2,3) by auto
qed simp

lemma segment_split:
  "log_ok lg \<Longrightarrow> a \<le> b \<Longrightarrow> b \<le> c \<Longrightarrow> segment lg tp a c = segment lg tp a b @ segment lg tp b c"
  unfolding segment_def by (rule sorted_filter_split) (auto simp: log_ok_def)

lemma segment_empty [simp]: "b \<le> a \<Longrightarrow> segment lg tp a b = []"
  by (auto simp: segment_def filter_empty_conv)

lemma segment_mem: "m \<in> set (segment lg tp a b) \<longleftrightarrow> m \<in> set (lg tp) \<and> a \<le> rm_offset m \<and> rm_offset m < b"
  by (auto simp: segment_def)

lemma segment_partition: "log_ok lg \<Longrightarrow> m \<in> set (segment lg tp a b) \<Longrightarrow> rm_topic_partition m = tp"
  by (auto simp: segment_mem log_ok_def list_all_iff)

lemma sorted_segment: "log_ok lg \<Longrightarrow> sorted_wrt (<) (map rm_offset (segment lg tp a b))"
  by (auto simp: segment_def log_ok_def sorted_wrt_map intro!: sorted_wrt_filter)

lemma segment_shorter_empty: "segment lg tp a c = [] \<Longrightarrow> b \<le> c \<Longrightarrow> segment lg tp a b = []"
  by (auto simp: segment_def filter_empty_conv)

text \<open>The first message of a segment cuts it.\<close>

lemma segment_ConsD:
  assumes "log_ok lg" "segment lg tp a c = m # ms"
  shows "a \<le> rm_offset m" "rm_offset m < c" "m \<in> set (lg tp)" "segment lg tp a (rm_offset m) = []"
    "segment lg tp a (rm_offset m + 1) = [m]" "segment lg tp (rm_offset m + 1) c = ms"
proof -
  have "m \<in> set (segment lg tp a c)" by (simp add: assms(2))
  then show m: "a \<le> rm_offset m" "rm_offset m < c" "m \<in> set (lg tp)" by (auto simp: segment_mem)
  have later: "rm_offset m < rm_offset x" if "x \<in> set ms" for x
    using sorted_segment [OF assms(1), of tp a c] that by (auto simp: assms(2))
  have split: "m # ms = segment lg tp a (rm_offset m) @ segment lg tp (rm_offset m) c"
    using segment_split [OF assms(1) m(1), of c tp] m(2) assms(2) by simp
  have "segment lg tp a (rm_offset m) \<noteq> m # xs" for xs
    using segment_mem [of m lg tp a "rm_offset m"] by force
  then show first: "segment lg tp a (rm_offset m) = []"
    using split by (metis append_eq_Cons_conv)
  have split': "m # ms = segment lg tp a (rm_offset m + 1) @ segment lg tp (rm_offset m + 1) c"
    using segment_split [OF assms(1), of a "rm_offset m + 1" c tp] m(1,2) assms(2) by simp
  have "m \<in> set (segment lg tp a (rm_offset m + 1))" using m by (auto simp: segment_mem)
  then obtain xs where xs: "segment lg tp a (rm_offset m + 1) = m # xs" "ms = xs @ segment lg tp (rm_offset m + 1) c"
    using split' by (cases "segment lg tp a (rm_offset m + 1)") auto
  have "xs = []"
  proof (cases xs)
    case (Cons x xs')
    then have "x \<in> set ms" "x \<in> set (segment lg tp a (rm_offset m + 1))" using xs by auto
    then show ?thesis using later by (force simp: segment_mem)
  qed simp
  then show "segment lg tp a (rm_offset m + 1) = [m]" "segment lg tp (rm_offset m + 1) c = ms"
    using xs by auto
qed

section \<open>The contract of a read\<close>

definition within_limit :: "int option \<Rightarrow> int \<Rightarrow> bool" where
  "within_limit limit n = (case limit of None \<Rightarrow> True | Some l \<Rightarrow> n \<le> l)"

definition sizes_ok :: "read_request \<Rightarrow> RawMessage list \<Rightarrow> bool" where
  "sizes_ok rq ms \<longleftrightarrow> within_limit (rq_max_bytes rq) (total_bytes ms) \<and>
     list_all (\<lambda>m. payload_bytes m \<le> rq_max_message_bytes rq) ms"

definition batch_ok :: "topic_log \<Rightarrow> read_request \<Rightarrow> ReadBatch \<Rightarrow> bool" where
  "batch_ok lg rq b \<longleftrightarrow>
     (let tp = rg_topic_partition (rq_range rq); start = rg_start (rq_range rq); stop = rg_end (rq_range rq);
          ms = rb_messages b; position = rb_next_position b
      in ms = segment lg tp start position \<and> start \<le> position \<and> position \<le> stop \<and>
         (rb_exhausted b \<longleftrightarrow> position = stop) \<and>
         int (length ms) \<le> rq_max_records rq \<and> sizes_ok rq ms \<and>
         (if rb_byte_limit_reached b
          then position < stop \<and> (\<exists>m \<in> set (lg tp). rm_offset m = position \<and>
                 \<not> within_limit (rq_max_bytes rq) (total_bytes ms + payload_bytes m))
          else position = stop \<or> rq_max_records rq \<le> int (length ms) \<or> rq_target_bytes rq \<le> total_bytes ms))"

lemma batch_okD:
  assumes "batch_ok lg rq b"
  shows "rb_messages b = segment lg (rg_topic_partition (rq_range rq)) (rg_start (rq_range rq)) (rb_next_position b)"
    "rg_start (rq_range rq) \<le> rb_next_position b" "rb_next_position b \<le> rg_end (rq_range rq)"
    "int (length (rb_messages b)) \<le> rq_max_records rq"
    "list_all (\<lambda>m. payload_bytes m \<le> rq_max_message_bytes rq) (rb_messages b)"
    "within_limit (rq_max_bytes rq) (total_bytes (rb_messages b))"
  using assms unfolding batch_ok_def sizes_ok_def Let_def by blast+

lemma batch_ok_limitedE:
  assumes "batch_ok lg rq b" "rb_byte_limit_reached b"
  obtains m where "m \<in> set (lg (rg_topic_partition (rq_range rq)))" "rm_offset m = rb_next_position b"
    "rb_next_position b < rg_end (rq_range rq)"
    "\<not> within_limit (rq_max_bytes rq) (total_bytes (rb_messages b) + payload_bytes m)"
  using assms by (auto simp: batch_ok_def Let_def)

lemma batch_ok_stopped:
  "batch_ok lg rq b \<Longrightarrow> \<not> rb_byte_limit_reached b \<Longrightarrow> rb_next_position b = rg_end (rq_range rq) \<or>
     rq_max_records rq \<le> int (length (rb_messages b)) \<or> rq_target_bytes rq \<le> total_bytes (rb_messages b)"
  by (auto simp: batch_ok_def Let_def)

definition sdk_delivers :: "topic_log \<Rightarrow> kafka_sdk \<Rightarrow> bool" where
  "sdk_delivers lg sdk \<longleftrightarrow> (\<forall>t tp a n records b. sk_poll sdk t tp a n = (Inr records, b) \<longrightarrow>
     a \<le> b \<and> map_result message_from_sdk records = Inr (segment lg tp a b))"

section \<open>Frames\<close>

text \<open>A call that leaves a property of the consumer alone, also where it raises.\<close>

definition keeps :: "(consumer_state \<Rightarrow> bool) \<Rightarrow> ('e, 'a) call \<Rightarrow> bool" where
  "keeps P m \<longleftrightarrow> (\<forall>s r s'. P s \<longrightarrow> m s = (r, s') \<longrightarrow> P s')"

lemma keepsD: "keeps P m \<Longrightarrow> m s = (r, s') \<Longrightarrow> P s \<Longrightarrow> P s'"
  by (auto simp: keeps_def)

definition consumer_at :: "int \<Rightarrow> bool \<Rightarrow> consumer_state \<Rightarrow> bool" where
  "consumer_at p failed s \<longleftrightarrow> cs_position s = p \<and> cs_poll_failed s = failed"

named_theorems keeps_rules \<open>calls that leave the consumer's position alone\<close>

lemma consumer_at_tick [simp]: "consumer_at p f (tick s) = consumer_at p f s"
  by (simp add: consumer_at_def tick_def)

lemma keeps_return [keeps_rules]: "keeps P (return a)"
  by (simp add: keeps_def return_def)

lemma keeps_raise [keeps_rules]: "keeps P (raise e)"
  by (simp add: keeps_def raise_def)

lemma keeps_lift_result [keeps_rules]: "keeps P (lift_result r)"
  by (simp add: keeps_def lift_result_def)

lemma keeps_bind [keeps_rules]:
  assumes "keeps P m" and "\<And>a. keeps P (f a)"
  shows "keeps P (bind_call m f)"
proof -
  have "P s'" if "P s" and r: "bind_call m f s = (r, s')" for s r s'
  proof (cases "m s")
    case (Pair x s1)
    have s1: "P s1" using keepsD [OF assms(1) Pair that(1)] .
    show ?thesis
    proof (cases x)
      case (Inr a)
      then show ?thesis using keepsD [OF assms(2) _ s1] r Pair by (simp add: bind_call_def)
    qed (use r Pair s1 in \<open>simp add: bind_call_def\<close>)
  qed
  then show ?thesis by (auto simp: keeps_def)
qed

lemma keeps_not_cancelled [keeps_rules]: "keeps (consumer_at p f) (not_cancelled sdk)"
  by (auto simp: keeps_def not_cancelled_def)

lemma keeps_sdk_call [keeps_rules]: "keeps (consumer_at p f) (sdk_call g)"
  by (auto simp: keeps_def sdk_call_def split: sum.splits)

lemma keeps_if [keeps_rules]: "keeps P m \<Longrightarrow> keeps P n \<Longrightarrow> keeps P (if c then m else n)"
  by simp

lemma keeps_retry [keeps_rules]:
  assumes "keeps (consumer_at p f) operation"
  shows "keeps (consumer_at p f) (retry sdk attempts operation name)"
proof -
  have "retry sdk attempts operation name s = (r, s') \<Longrightarrow> consumer_at p f s \<Longrightarrow> consumer_at p f s'" for s r s'
  proof (induction attempts arbitrary: s)
    case (Suc n)
    obtain c s1 where c: "not_cancelled sdk s = (c, s1)" by fastforce
    have s1: "consumer_at p f s1" using keepsD [OF keeps_not_cancelled c] Suc.prems(2) by simp
    obtain a s2 where a: "operation s1 = (a, s2)" by fastforce
    have "consumer_at p f s2" using keepsD [OF assms a s1] .
    then show ?case using Suc c a s1
      by (auto split: sum.splits attempt_error.splits sdk_error.splits if_splits)
  qed simp
  then show ?thesis by (auto simp: keeps_def)
qed

lemma keeps_verify_range [keeps_rules]: "keeps (consumer_at p f) (verify_range sdk attempts tp stop position)"
  unfolding verify_range_def by (intro keeps_rules)

lemma keeps_open_consumer: "keeps (consumer_at p f) (open_consumer sdk attempts isolation_level)"
  unfolding open_consumer_def by (intro keeps_rules)

section \<open>Polls\<close>

text \<open>
  A poll starts at the safe position unless an earlier attempt failed, in which case it seeks there
  first; so a poll that succeeds after retries delivers the records that follow the safe position.
\<close>

definition polled_from :: "topic_log \<Rightarrow> TopicPartition \<Rightarrow> int \<Rightarrow> ConsumerRecord list \<Rightarrow> consumer_state \<Rightarrow> bool" where
  "polled_from lg tp position records s \<longleftrightarrow> \<not> cs_poll_failed s \<and> position \<le> cs_position s \<and>
     map_result message_from_sdk records = Inr (segment lg tp position (cs_position s))"

lemma poll_delivers:
  assumes "sdk_delivers lg sdk" "poll sdk tp n s = (Inr records, s')"
  shows "polled_from lg tp (cs_position s) records s'"
  using assms by (auto simp: sdk_delivers_def poll_def polled_from_def tick_def split: prod.splits sum.splits)

lemma poll_fails: "poll sdk tp n s = (Inl e, s') \<Longrightarrow> cs_poll_failed s'"
  by (auto simp: poll_def tick_def split: prod.splits sum.splits)

lemma poll_from_safe_position_delivers:
  assumes "sdk_delivers lg sdk" "\<not> cs_poll_failed s \<longrightarrow> cs_position s = position"
    and "poll_from_safe_position sdk attempts tp stop position n s = (Inr records, s')"
  shows "polled_from lg tp position records s'"
  using assms(2,3) poll_delivers [OF assms(1)]
  by (force simp: poll_from_safe_position_def split: if_splits prod.splits sum.splits)

lemma poll_from_safe_position_fails:
  assumes "poll_from_safe_position sdk attempts tp stop position n s = (Inl (Sdk e), s')"
  shows "cs_poll_failed s'"
  using assms poll_fails by (force simp: poll_from_safe_position_def split: if_splits prod.splits sum.splits)

lemma retried_poll_delivers:
  assumes "sdk_delivers lg sdk" "\<not> cs_poll_failed s \<longrightarrow> cs_position s = position"
    and "retry sdk m (poll_from_safe_position sdk attempts tp stop position n) name s = (Inr records, s')"
  shows "polled_from lg tp position records s'"
  using assms(2,3)
proof (induction m arbitrary: s)
  case (Suc m)
  let ?poll = "poll_from_safe_position sdk attempts tp stop position n"
  obtain s1 where s1: "not_cancelled sdk s = (Inr (), s1)"
    using Suc.prems(2) by (auto split: prod.splits sum.splits)
  have at: "\<not> cs_poll_failed s1 \<longrightarrow> cs_position s1 = position"
    using s1 Suc.prems(1) by (auto simp: not_cancelled_def tick_def)
  obtain x s2 where x: "?poll s1 = (x, s2)" by fastforce
  show ?case
  proof (cases x)
    case (Inr a)
    then show ?thesis
      using Suc.prems(2) s1 x poll_from_safe_position_delivers [OF assms(1) at] by simp
  next
    case (Inl e)
    then obtain k where e: "e = Sdk (OtherKafkaError k)"
      and again: "retry sdk m ?poll name (tick s2) = (Inr records, s')"
      using Suc.prems(2) s1 x by (auto split: attempt_error.splits sdk_error.splits if_splits)
    have "cs_poll_failed (tick s2)"
      using poll_from_safe_position_fails x Inl e by (fastforce simp: tick_def)
    then show ?thesis using Suc.IH [OF _ again] by simp
  qed
qed simp

section \<open>The poll loop reads the log\<close>

text \<open>The variables of the loop, between two records.\<close>

definition acc_ok :: "topic_log \<Rightarrow> read_request \<Rightarrow> read_acc \<Rightarrow> bool" where
  "acc_ok lg rq acc \<longleftrightarrow>
     ra_messages acc = segment lg (rg_topic_partition (rq_range rq)) (rg_start (rq_range rq)) (ra_position acc) \<and>
     rg_start (rq_range rq) \<le> ra_position acc \<and> ra_position acc \<le> rg_end (rq_range rq) \<and>
     ra_payload acc = total_bytes (ra_messages acc) \<and> int (length (ra_messages acc)) < rq_max_records rq \<and>
     sizes_ok rq (ra_messages acc)"

lemma acc_ok_move:
  assumes "log_ok lg" "acc_ok lg rq acc" "ra_position acc \<le> p" "p \<le> rg_end (rq_range rq)"
    and "segment lg (rg_topic_partition (rq_range rq)) (ra_position acc) p = []"
  shows "acc_ok lg rq (acc\<lparr>ra_position := p\<rparr>)"
  using assms segment_split [OF assms(1), of "rg_start (rq_range rq)" "ra_position acc" p "rg_topic_partition (rq_range rq)"]
  by (auto simp: acc_ok_def)

lemma acc_ok_batch:
  assumes "acc_ok lg rq acc" "e \<longleftrightarrow> ra_position acc = rg_end (rq_range rq)"
    and "ra_position acc = rg_end (rq_range rq)"
  shows "batch_ok lg rq (batch_of (ra_messages acc) (ra_position acc) e False)"
  using assms by (auto simp: acc_ok_def batch_ok_def batch_of_def Let_def)

lemma acc_ok_full:
  assumes "acc_ok lg rq acc" "rm_offset m = o'" "segment lg tp (ra_position acc) (o' + 1) = [m]"
    and "ra_position acc \<le> o'" "o' < rg_end (rq_range rq)" "log_ok lg" "tp = rg_topic_partition (rq_range rq)"
    and "payload_bytes m \<le> rq_max_message_bytes rq" "within_limit (rq_max_bytes rq) (ra_payload acc + payload_bytes m)"
  shows "ra_messages acc @ [m] = segment lg tp (rg_start (rq_range rq)) (o' + 1)"
    and "rg_start (rq_range rq) \<le> o' + 1" "o' + 1 \<le> rg_end (rq_range rq)"
    and "int (length (ra_messages acc @ [m])) \<le> rq_max_records rq"
    and "ra_payload acc + payload_bytes m = total_bytes (ra_messages acc @ [m])"
    and "sizes_ok rq (ra_messages acc @ [m])"
  using assms segment_split [of lg "rg_start (rq_range rq)" "ra_position acc" "o' + 1" tp]
  by (auto simp: acc_ok_def sizes_ok_def)

lemma read_records_ok:
  assumes "log_ok lg" "read_records sdk attempts rq rs acc s = (Inr out, s')"
    and "map_result message_from_sdk rs = Inr (segment lg (rg_topic_partition (rq_range rq)) (ra_position acc) q)"
    and "acc_ok lg rq acc" "ra_position acc \<le> q"
  shows "case out of Inl b \<Rightarrow> batch_ok lg rq b
    | Inr acc' \<Rightarrow> acc_ok lg rq acc' \<and> ra_position acc' \<le> q \<and>
        segment lg (rg_topic_partition (rq_range rq)) (ra_position acc') q = []"
  using assms(2-)
proof (induction rs arbitrary: acc s)
  case Nil
  then show ?case by (auto simp: return_def)
next
  case (Cons r rs)
  let ?tp = "rg_topic_partition (rq_range rq)" and ?stop = "rg_end (rq_range rq)"
  obtain m ms where m: "message_from_sdk r = Inr m" and rs: "map_result message_from_sdk rs = Inr ms"
    and seg: "segment lg ?tp (ra_position acc) q = m # ms"
    using Cons.prems(2) by (auto simp: bind_result_eq_Inr_iff)
  have off: "rm_offset m = sr_offset r"
    using m by (auto simp: message_from_sdk_def bind_result_eq_Inr_iff)
  note cut = segment_ConsD [OF assms(1) seg, unfolded off]
  let ?acc = "\<lparr>ra_messages = ra_messages acc @ [m], ra_payload = ra_payload acc + payload_bytes m,
      ra_position = sr_offset r + 1\<rparr>"
  consider (beyond) "?stop \<le> sr_offset r" "out = Inl (batch_of (ra_messages acc) ?stop True False)"
    | (limited) "sr_offset r < ?stop" "\<not> within_limit (rq_max_bytes rq) (ra_payload acc + payload_bytes m)"
        "out = Inl (batch_of (ra_messages acc) (sr_offset r) False True)"
    | (full) "sr_offset r < ?stop" "payload_bytes m \<le> rq_max_message_bytes rq"
        "within_limit (rq_max_bytes rq) (ra_payload acc + payload_bytes m)"
        "rq_max_records rq \<le> int (length (ra_messages ?acc)) \<or> rq_target_bytes rq \<le> ra_payload ?acc"
        "out = Inl (batch_of (ra_messages ?acc) (sr_offset r + 1) (sr_offset r + 1 \<ge> ?stop) False)"
    | (more) "sr_offset r < ?stop" "payload_bytes m \<le> rq_max_message_bytes rq"
        "within_limit (rq_max_bytes rq) (ra_payload acc + payload_bytes m)"
        "int (length (ra_messages ?acc)) < rq_max_records rq"
        "read_records sdk attempts rq rs ?acc s = (Inr out, s')"
    using Cons.prems(1) m by (auto simp: Let_def call_iffs within_limit_def split: if_splits option.splits)
  then show ?case
  proof cases
    case beyond
    have "segment lg ?tp (ra_position acc) ?stop = []" using segment_shorter_empty [OF cut(4) beyond(1)] .
    moreover have "ra_position acc \<le> ?stop" using Cons.prems(3) by (simp add: acc_ok_def)
    ultimately have "acc_ok lg rq (acc\<lparr>ra_position := ?stop\<rparr>)"
      using acc_ok_move [OF assms(1) Cons.prems(3)] by simp
    then show ?thesis using acc_ok_batch [of lg rq "acc\<lparr>ra_position := ?stop\<rparr>"] beyond(2) by simp
  next
    case limited
    have "acc_ok lg rq (acc\<lparr>ra_position := sr_offset r\<rparr>)"
      using acc_ok_move [OF assms(1) Cons.prems(3) cut(1) _ cut(4)] limited(1) by simp
    then show ?thesis using limited cut(3) off
      by (auto simp: acc_ok_def batch_ok_def batch_of_def Let_def)
  next
    case full
    note new = acc_ok_full [OF Cons.prems(3) off cut(5,1) full(1) assms(1) refl full(2,3)]
    show ?thesis using full(4,5) new by (auto simp: batch_ok_def batch_of_def Let_def)
  next
    case more
    note new = acc_ok_full [OF Cons.prems(3) off cut(5,1) more(1) assms(1) refl more(2,3)]
    have "acc_ok lg rq ?acc" using new more(4) by (simp add: acc_ok_def)
    then show ?thesis using Cons.IH [OF more(5)] rs cut(2,6) by simp
  qed
qed

lemma keeps_read_records [keeps_rules]: "keeps (consumer_at p f) (read_records sdk attempts rq rs acc)"
  by (induction rs arbitrary: acc) (auto simp: Let_def intro!: keeps_rules)

lemma keeps_scan_position [keeps_rules]: "keeps (consumer_at p f) (scan_position sdk attempts stop progress acc)"
  unfolding scan_position_def Let_def
  by (rule keeps_bind, intro keeps_rules) (simp add: keeps_def return_def)

text \<open>Between two passes the consumer is at the position of the loop.\<close>

definition loop_ok :: "topic_log \<Rightarrow> read_request \<Rightarrow> read_acc \<Rightarrow> consumer_state \<Rightarrow> bool" where
  "loop_ok lg rq acc s \<longleftrightarrow> acc_ok lg rq acc \<and> \<not> cs_poll_failed s \<and>
     (ra_position acc < rg_end (rq_range rq) \<longrightarrow> cs_position s = ra_position acc)"

lemma read_pass_ok:
  assumes "log_ok lg" "sdk_delivers lg sdk" "loop_ok lg rq acc s" "ra_position acc < rg_end (rq_range rq)"
    and "read_pass sdk attempts rq acc s = (Inr out, s')"
  shows "case out of Inl b \<Rightarrow> batch_ok lg rq b | Inr (acc', progress) \<Rightarrow> loop_ok lg rq acc' s'"
  using assms(5)
proof (rule read_passE)
  fix s1 polled s2 s3 and res :: "ReadBatch + read_acc"
  let ?tp = "rg_topic_partition (rq_range rq)" and ?stop = "rg_end (rq_range rq)"
  assume cancel: "not_cancelled sdk s = (Inr (), s1)"
    and poll: "retry sdk attempts (poll_from_safe_position sdk attempts ?tp ?stop
       (ra_position acc) (rq_max_records rq - int (length (ra_messages acc)))) ''poll'' s1 = (Inr polled, s2)"
    and records: "read_records sdk attempts rq polled acc s2 = (Inr res, s3)"
    and out: "case res of Inl b \<Rightarrow> out = Inl b \<and> s' = s3
     | Inr acc1 \<Rightarrow> \<exists>acc' progress. out = Inr (acc', progress) \<and>
         scan_position sdk attempts ?stop (length (ra_messages acc1) > length (ra_messages acc)) acc1 s3 =
           (Inr (acc', progress), s')"
  have "consumer_at (ra_position acc) False s" using assms(3,4) by (simp add: loop_ok_def consumer_at_def)
  then have "consumer_at (ra_position acc) False s1" by (rule keepsD [OF keeps_not_cancelled cancel])
  then have "cs_position s1 = ra_position acc" by (simp add: consumer_at_def)
  then have s2: "polled_from lg ?tp (ra_position acc) polled s2"
    using retried_poll_delivers [OF assms(2) _ poll] by simp
  then have at2: "consumer_at (cs_position s2) False s2" by (simp add: polled_from_def consumer_at_def)
  have acc: "acc_ok lg rq acc" using assms(3) by (simp add: loop_ok_def)
  note ok = read_records_ok [OF assms(1) records _ acc, of "cs_position s2"]
  show ?thesis
  proof (cases res)
    case (Inl b)
    then show ?thesis using ok s2 out by (simp add: polled_from_def)
  next
    case (Inr acc1)
    obtain acc' progress where o: "out = Inr (acc', progress)"
      and scan: "scan_position sdk attempts ?stop (length (ra_messages acc1) > length (ra_messages acc)) acc1 s3 =
           (Inr (acc', progress), s')"
      using out Inr by auto
    have "consumer_at (cs_position s2) False s'"
      using keepsD [OF keeps_scan_position scan keepsD [OF keeps_read_records records at2]] .
    then have s': "cs_position s' = cs_position s2" "\<not> cs_poll_failed s'" by (auto simp: consumer_at_def)
    have acc1: "acc_ok lg rq acc1" "ra_position acc1 \<le> cs_position s2" "segment lg ?tp (ra_position acc1) (cs_position s2) = []"
      using ok s2 Inr by (auto simp: polled_from_def)
    have "loop_ok lg rq acc' s'" using scan
    proof (rule scan_positionE)
      assume "min (cs_position s') ?stop > ra_position acc1" "acc' = acc1\<lparr>ra_position := min (cs_position s') ?stop\<rparr>"
      then show ?thesis
        using acc_ok_move [OF assms(1) acc1(1), of "min (cs_position s2) ?stop"] segment_shorter_empty [OF acc1(3)] s'
        by (auto simp: loop_ok_def)
    next
      assume "min (cs_position s') ?stop \<le> ra_position acc1" "acc' = acc1"
      then show ?thesis using acc1 s' by (auto simp: loop_ok_def)
    qed
    then show ?thesis by (simp add: o)
  qed
qed

lemma read_loop_ok:
  assumes "log_ok lg" "sdk_delivers lg sdk" "loop_ok lg rq acc s"
    and "read_loop sdk attempts rq idle acc s = (Inr b, s')"
  shows "batch_ok lg rq b"
  using assms
proof (induction sdk attempts rq idle acc s rule: read_loop.induct)
  case (1 sdk attempts rq idle acc s)
  show ?case
  proof (cases "ra_position acc < rg_end (rq_range rq)")
    case False
    then have "b = batch_of (ra_messages acc) (ra_position acc) True False"
      using 1(5) by (subst (asm) read_loop.simps) (auto simp: call_iffs)
    moreover have "ra_position acc = rg_end (rq_range rq)" using False 1(4) by (simp add: loop_ok_def acc_ok_def)
    ultimately show ?thesis using acc_ok_batch [of lg rq acc True] 1(4) by (simp add: loop_ok_def)
  next
    case True
    obtain out s1 where out: "read_pass sdk attempts rq acc s = (Inr out, s1)"
      using True 1(5) by (subst (asm) read_loop.simps) (auto split: prod.splits sum.splits)
    note pass = read_pass_ok [OF 1(2-4) True out]
    show ?thesis
    proof (cases out)
      case (Inl b')
      then show ?thesis using pass True 1(5) out by (subst (asm) read_loop.simps) simp
    next
      case (Inr p)
      obtain acc' progress where p: "p = (acc', progress)" by fastforce
      let ?idle = "if progress then 0 else Suc idle"
      have idle: "\<not> ?idle \<ge> Suc (sk_patience sdk)" and loop: "read_loop sdk attempts rq ?idle acc' s1 = (Inr b, s')"
        using True 1(5) out Inr p by (subst (asm) read_loop.simps, simp add: Let_def call_iffs split: if_splits)+
      show ?thesis
        using 1(1) [OF refl refl True out [symmetric] refl Inr p [symmetric] refl idle 1(2,3) _ loop] pass Inr p by simp
    qed
  qed
qed

lemma fst_call_iff: "fst r = Inr b \<longleftrightarrow> (\<exists>s. r = (Inr b, s))"
  by (cases r) auto

text \<open>The contract of the gateway's \<^verbatim>\<open>read\<close>.\<close>

lemma gateway_read_ok:
  assumes "log_ok lg" "sdk_delivers lg sdk" "rg_start (rq_range rq) \<le> rg_end (rq_range rq)"
    and "gateway_read sdk attempts rq = Inr b"
  shows "batch_ok lg rq b"
proof -
  let ?start = "rg_start (rq_range rq)" and ?acc = "\<lparr>ra_messages = [], ra_payload = 0, ra_position = rg_start (rq_range rq)\<rparr>"
  have sizes: "0 < rq_max_records rq" "sizes_ok rq []"
    using assms(4) by (auto simp: gateway_read_def bind_result_eq_Inr_iff positive_def optional_nonnegative_def nonnegative_def
        sizes_ok_def within_limit_def Let_def split: if_splits option.splits)
  then have acc: "acc_ok lg rq ?acc" using assms(3) by (simp add: acc_ok_def)
  show ?thesis
  proof (cases "?start = rg_end (rq_range rq)")
    case True
    then have "b = batch_of [] ?start True False"
      using assms(4) by (auto simp: gateway_read_def bind_result_eq_Inr_iff Let_def)
    then show ?thesis using acc_ok_batch [OF acc, of True] True by simp
  next
    case False
    obtain s1 s2 s3 where opened: "open_consumer sdk attempts (rq_isolation_level rq) new_consumer = (Inr (), s1)"
      and verify: "verify_range sdk attempts (rg_topic_partition (rq_range rq)) (rg_end (rq_range rq)) ?start s1 = (Inr (), s2)"
      and loop: "read_loop sdk attempts rq 0 ?acc (s2\<lparr>cs_position := ?start\<rparr>) = (Inr b, s3)"
      using assms(4) False by (auto simp: gateway_read_def bind_result_eq_Inr_iff Let_def fst_call_iff call_iffs)
    have "consumer_at 0 False new_consumer" by (simp add: consumer_at_def new_consumer_def)
    then have "consumer_at 0 False s2"
      by (rule keepsD [OF keeps_verify_range verify keepsD [OF keeps_open_consumer opened]])
    then have "loop_ok lg rq ?acc (s2\<lparr>cs_position := ?start\<rparr>)"
      using acc by (simp add: loop_ok_def consumer_at_def)
    then show ?thesis using read_loop_ok [OF assms(1,2) _ loop] by simp
  qed
qed

end
