(* ===== verification/Kafka_Chunks.thy ===== *)
theory Kafka_Chunks
  imports Kafka_Log
begin

text \<open>
  Reading and replaying one chunk of a planned read, \<^verbatim>\<open>flow/use_cases/read_chunk.py\<close>. A chunk goes
  round the partitions of the plan until the snapshot or a limit of the read is exhausted or the
  chunk is full. The gateway's \<^verbatim>\<open>read\<close> and \<^verbatim>\<open>check_cancelled\<close> are functions of the time within the
  chunk; the SHA-256 of the messages is the parameter \<open>fingerprint\<close>.
\<close>

section \<open>Definitions\<close>

type_synonym gateway_reads = "nat \<Rightarrow> read_request \<Rightarrow> ReadBatch kafka_result"

text \<open>The local variables of \<^verbatim>\<open>execute\<close>, with the time.\<close>

record chunk_state =
  ch_now :: nat
  ch_positions :: "PartitionPosition list"
  ch_remaining_messages :: "int option"
  ch_remaining_bytes :: "int option"
  ch_index :: nat
  ch_reason :: "StopReason option"
  ch_messages :: "RawMessage list"
  ch_offsets :: "PartitionOffsets list"
  ch_payload :: int

text \<open>\<^verbatim>\<open>all(p.next_offset >= r.end for p, r in zip(positions, plan.ranges, strict=True))\<close>\<close>

fun all_read :: "PartitionPosition list \<Rightarrow> OffsetRange list \<Rightarrow> bool kafka_result" where
  "all_read [] [] = Inr True"
| "all_read (p # ps) (r # rs) = (if pp_next_offset p \<ge> rg_end r then all_read ps rs else Inr False)"
| "all_read _ _ = Inl (PyError ''ValueError'')"

definition list_index :: "'a list \<Rightarrow> nat \<Rightarrow> 'a kafka_result" where
  "list_index xs i = (if i < length xs then Inr (xs ! i) else Inl (PyError ''IndexError''))"

definition chunk_request :: "ReadPlan \<Rightarrow> chunk_state \<Rightarrow> OffsetRange \<Rightarrow> read_request" where
  "chunk_request plan st rng =
     (let limits = rp_limits plan; rows = lm_rows_per_partition limits - int (length (ch_messages st))
      in \<lparr>rq_range = rng, rq_isolation_level = rp_isolation_level plan,
          rq_max_records = (case ch_remaining_messages st of None \<Rightarrow> rows | Some n \<Rightarrow> min rows n),
          rq_max_bytes = ch_remaining_bytes st, rq_total_max_bytes = lm_max_bytes limits,
          rq_target_bytes = lm_target_partition_bytes limits - ch_payload st,
          rq_max_message_bytes = lm_max_message_bytes limits\<rparr>)"

definition batch_offsets :: "PartitionPosition \<Rightarrow> ReadBatch \<Rightarrow> PartitionOffsets list kafka_result" where
  "batch_offsets position batch =
     (if rb_messages batch = [] then Inr []
      else let final = rm_offset (last (rb_messages batch))
           in bind_result (make_PartitionOffsets (tp_partition (pp_topic_partition position)) (final + 1)
                  (Some (pp_next_offset position)) (Some final) (Some (int (length (rb_messages batch))))
                  (Some (total_bytes (rb_messages batch)))) (\<lambda>o'. Inr [o']))"

definition accept_batch :: "chunk_state \<Rightarrow> PartitionPosition \<Rightarrow> ReadBatch \<Rightarrow> chunk_state kafka_result" where
  "accept_batch st position batch =
     bind_result (make_PartitionPosition (pp_topic_partition position) (rb_next_position batch)) (\<lambda>moved.
     bind_result (batch_offsets position batch) (\<lambda>new.
       let n = length (ch_positions st); received = int (length (rb_messages batch)); nbytes = total_bytes (rb_messages batch)
       in Inr (st\<lparr>ch_now := Suc (ch_now st),
                  ch_positions := (ch_positions st)[(ch_index st + n - 1) mod n := moved],
                  ch_remaining_messages := map_option (\<lambda>x. x - received) (ch_remaining_messages st),
                  ch_remaining_bytes := map_option (\<lambda>x. x - nbytes) (ch_remaining_bytes st),
                  ch_reason := (if rb_byte_limit_reached batch then Some Max_bytes else ch_reason st),
                  ch_messages := ch_messages st @ rb_messages batch,
                  ch_offsets := ch_offsets st @ new,
                  ch_payload := ch_payload st + nbytes\<rparr>)))"

text \<open>One pass of the loop; \<open>Break\<close> leaves it.\<close>

datatype chunk_step = Break chunk_state | Continue chunk_state

definition chunk_pass :: "gateway_reads \<Rightarrow> (nat \<Rightarrow> bool) \<Rightarrow> ReadPlan \<Rightarrow> chunk_state \<Rightarrow> chunk_step kafka_result" where
  "chunk_pass rd cancelled plan st =
     bind_result (all_read (ch_positions st) (rp_ranges plan)) (\<lambda>finished.
     if finished then Inr (Break (st\<lparr>ch_reason := Some Snapshot_exhausted\<rparr>))
     else if ch_remaining_messages st = Some 0 then Inr (Break (st\<lparr>ch_reason := Some Max_messages\<rparr>))
     else if ch_remaining_bytes st = Some 0 then Inr (Break (st\<lparr>ch_reason := Some Max_bytes\<rparr>))
     else if int (length (ch_messages st)) \<ge> lm_rows_per_partition (rp_limits plan) \<or>
             ch_payload st \<ge> lm_target_partition_bytes (rp_limits plan)
     then Inr (Break st)
     else bind_result (list_index (ch_positions st) (ch_index st)) (\<lambda>position.
     bind_result (list_index (rp_ranges plan) (ch_index st)) (\<lambda>original.
     let st1 = st\<lparr>ch_index := (ch_index st + 1) mod length (ch_positions st)\<rparr>
     in if pp_next_offset position \<ge> rg_end original then Inr (Continue st1)
        else bind_result (check_cancelled cancelled (ch_now st1)) (\<lambda>_.
             bind_result (make_OffsetRange (pp_topic_partition position) (pp_next_offset position) (rg_end original)) (\<lambda>rng.
             bind_result (rd (ch_now st1) (chunk_request plan st1 rng)) (\<lambda>batch.
             if rb_next_position batch \<le> pp_next_offset position \<and> \<not> rb_byte_limit_reached batch
             then Inl (KafkaConsumptionFlowError ''Kafka chunk made no progress'')
             else bind_result (accept_batch st1 position batch) (\<lambda>st2. Inr (Continue st2))))))))"

section \<open>Termination\<close>

text \<open>
  The loop ends whatever the gateway returns: a pass that reads moves a position towards its end or
  sets the stop reason, and a pass that skips a finished partition brings the index nearer to an
  unfinished one.
\<close>

definition unread :: "ReadPlan \<Rightarrow> chunk_state \<Rightarrow> nat" where
  "unread plan st = sum_list (map2 (\<lambda>p r. nat (rg_end r - pp_next_offset p)) (ch_positions st) (rp_ranges plan))"

definition unfinished :: "ReadPlan \<Rightarrow> chunk_state \<Rightarrow> nat \<Rightarrow> bool" where
  "unfinished plan st i \<longleftrightarrow> i < length (ch_positions st) \<and> i < length (rp_ranges plan) \<and>
     pp_next_offset (ch_positions st ! i) < rg_end (rp_ranges plan ! i)"

definition skips :: "ReadPlan \<Rightarrow> chunk_state \<Rightarrow> nat" where
  "skips plan st = (LEAST k. unfinished plan st ((ch_index st + k) mod length (ch_positions st)))"

lemma all_read_False: "all_read ps rs = Inr False \<Longrightarrow>
    \<exists>i. i < length ps \<and> i < length rs \<and> pp_next_offset (ps ! i) < rg_end (rs ! i)"
proof (induction ps rs rule: all_read.induct)
  case (2 p ps r rs)
  then show ?case by (cases "rg_end r \<le> pp_next_offset p") (force split: if_splits)+
qed auto

lemma rotation_hits:
  assumes "j < n" "i < n"
  shows "\<exists>k. (i + k) mod n = (j :: nat)"
proof -
  have "(i + (j + n - i)) mod n = j" using assms by simp
  then show ?thesis by blast
qed

lemma skips_decreases:
  assumes "all_read (ch_positions st) (rp_ranges plan) = Inr False" "ch_index st < length (ch_positions st)"
    and "\<not> unfinished plan st (ch_index st)"
  shows "skips plan (st\<lparr>ch_index := (ch_index st + 1) mod length (ch_positions st)\<rparr>) < skips plan st"
proof -
  let ?n = "length (ch_positions st)" and ?P = "\<lambda>k. unfinished plan st ((ch_index st + k) mod length (ch_positions st))"
  obtain j where j: "unfinished plan st j" "j < ?n"
    using all_read_False [OF assms(1)] by (auto simp: unfinished_def)
  then obtain k where "?P k" using rotation_hits [OF j(2) assms(2)] by auto
  then have P: "?P (skips plan st)" unfolding skips_def by (rule LeastI)
  have "skips plan st \<noteq> 0"
  proof
    assume "skips plan st = 0"
    then show False using P assms(2,3) by simp
  qed
  then obtain d where d: "skips plan st = Suc d" by (cases "skips plan st") auto
  let ?st = "st\<lparr>ch_index := (ch_index st + 1) mod ?n\<rparr>"
  have "unfinished plan ?st ((ch_index ?st + d) mod length (ch_positions ?st))"
    using P d by (simp add: unfinished_def mod_simps)
  then have "skips plan ?st \<le> d" unfolding skips_def by (rule Least_le)
  then show ?thesis by (simp add: d)
qed

lemma unread_decreases:
  assumes "i < length ps" "i < length rs" "pp_next_offset (ps ! i) < rg_end (rs ! i)"
    and "pp_next_offset (ps ! i) < pp_next_offset p"
  shows "sum_list (map2 (\<lambda>p r. nat (rg_end r - pp_next_offset p)) (ps[i := p]) rs) <
    sum_list (map2 (\<lambda>p r. nat (rg_end r - pp_next_offset p)) ps rs)"
  using assms
proof (induction ps rs arbitrary: i rule: list_induct2')
  case (4 x xs y ys)
  then show ?case by (cases i) auto
qed auto

text \<open>What one pass that goes on does.\<close>

lemma chunk_pass_ContinueE:
  assumes "chunk_pass rd cancelled plan st = Inr (Continue st')"
  obtains (skip) "all_read (ch_positions st) (rp_ranges plan) = Inr False" "ch_index st < length (ch_positions st)"
      "\<not> unfinished plan st (ch_index st)" "st' = st\<lparr>ch_index := (ch_index st + 1) mod length (ch_positions st)\<rparr>"
  | (read) rng batch where "unfinished plan st (ch_index st)"
      "ch_remaining_messages st \<noteq> Some 0" "ch_remaining_bytes st \<noteq> Some 0"
      "int (length (ch_messages st)) < lm_rows_per_partition (rp_limits plan)"
      "ch_payload st < lm_target_partition_bytes (rp_limits plan)"
      "make_OffsetRange (pp_topic_partition (ch_positions st ! ch_index st)) (pp_next_offset (ch_positions st ! ch_index st))
         (rg_end (rp_ranges plan ! ch_index st)) = Inr rng"
      "rd (ch_now st) (chunk_request plan st rng) = Inr batch"
      "pp_next_offset (ch_positions st ! ch_index st) < rb_next_position batch \<or> rb_byte_limit_reached batch"
      "accept_batch (st\<lparr>ch_index := (ch_index st + 1) mod length (ch_positions st)\<rparr>) (ch_positions st ! ch_index st) batch = Inr st'"
proof -
  have rq: "chunk_request plan (st\<lparr>ch_index := k\<rparr>) rng = chunk_request plan st rng" for k rng
    by (simp add: chunk_request_def)
  show ?thesis
  proof (cases "unfinished plan st (ch_index st)")
    case True
    then show ?thesis using assms that(2)
      by (fastforce simp: chunk_pass_def bind_result_eq_Inr_iff list_index_def unfinished_def Let_def rq not_le
          split: if_splits)
  next
    case False
    then show ?thesis using assms that(1)
      by (auto simp: chunk_pass_def bind_result_eq_Inr_iff list_index_def unfinished_def Let_def split: if_splits)
  qed
qed

lemma accept_batchE:
  assumes "accept_batch (st\<lparr>ch_index := (ch_index st + 1) mod length (ch_positions st)\<rparr>) position batch = Inr st'"
    and "ch_index st < length (ch_positions st)"
  obtains new where "batch_offsets position batch = Inr new" "0 \<le> rb_next_position batch"
    "st' = st\<lparr>ch_index := (ch_index st + 1) mod length (ch_positions st), ch_now := Suc (ch_now st),
       ch_positions := (ch_positions st)[ch_index st :=
         \<lparr>pp_topic_partition = pp_topic_partition position, pp_next_offset = rb_next_position batch\<rparr>],
       ch_remaining_messages := map_option (\<lambda>x. x - int (length (rb_messages batch))) (ch_remaining_messages st),
       ch_remaining_bytes := map_option (\<lambda>x. x - total_bytes (rb_messages batch)) (ch_remaining_bytes st),
       ch_reason := (if rb_byte_limit_reached batch then Some Max_bytes else ch_reason st),
       ch_messages := ch_messages st @ rb_messages batch, ch_offsets := ch_offsets st @ new,
       ch_payload := ch_payload st + total_bytes (rb_messages batch)\<rparr>"
proof -
  let ?n = "length (ch_positions st)"
  have "((ch_index st + 1) mod ?n + ?n - 1) mod ?n = ch_index st"
    using assms(2) by (cases "ch_index st + 1 = ?n") auto
  then show ?thesis using assms(1) that
    by (auto simp: accept_batch_def bind_result_eq_Inr_iff make_PartitionPosition_def nonnegative_def Let_def split: if_splits)
qed

function chunk_loop :: "gateway_reads \<Rightarrow> (nat \<Rightarrow> bool) \<Rightarrow> ReadPlan \<Rightarrow> chunk_state \<Rightarrow> chunk_state kafka_result" where
  "chunk_loop rd cancelled plan st =
     (if ch_reason st \<noteq> None then Inr st
      else case chunk_pass rd cancelled plan st of
             Inl e \<Rightarrow> Inl e
           | Inr (Break st') \<Rightarrow> Inr st'
           | Inr (Continue st') \<Rightarrow> chunk_loop rd cancelled plan st')"
  by pat_completeness auto
termination
proof (relation "measures [\<lambda>(rd, cancelled, plan, st). if ch_reason st = None then 1 else 0,
    \<lambda>(rd, cancelled, plan, st). unread plan st, \<lambda>(rd, cancelled, plan, st). skips plan st]", goal_cases)
  case (2 rd cancelled plan st step st')
  then have pass: "chunk_pass rd cancelled plan st = Inr (Continue st')" by simp
  show ?case using pass
  proof (cases rule: chunk_pass_ContinueE)
    case skip
    then show ?thesis using 2(1) skips_decreases [OF skip(1-3)] by (simp add: unread_def)
  next
    case (read rng batch)
    have i: "ch_index st < length (ch_positions st)" using read(1) by (simp add: unfinished_def)
    from read(9) i show ?thesis
    proof (rule accept_batchE, goal_cases)
      case (1 new)
      let ?p = "\<lparr>pp_topic_partition = pp_topic_partition (ch_positions st ! ch_index st), pp_next_offset = rb_next_position batch\<rparr>"
      have "unread plan st' < unread plan st" if "\<not> rb_byte_limit_reached batch"
        using unread_decreases [OF i, of "rp_ranges plan" ?p] read(1,8) that 1(3)
        by (simp add: unread_def unfinished_def)
      moreover have "ch_reason st' = Some Max_bytes" if "rb_byte_limit_reached batch"
        using that 1(3) by simp
      ultimately show ?case using 2(1) by (cases "rb_byte_limit_reached batch") auto
    qed
  qed
qed simp

declare chunk_loop.simps [simp del]

section \<open>The use case\<close>

definition start_chunk :: "ReadCursor \<Rightarrow> chunk_state" where
  "start_chunk cursor =
     \<lparr>ch_now = 1, ch_positions = cu_positions cursor, ch_remaining_messages = cu_remaining_messages cursor,
      ch_remaining_bytes = cu_remaining_bytes cursor, ch_index = cu_next_partition_index cursor,
      ch_reason = cu_stop_reason cursor, ch_messages = [], ch_offsets = [], ch_payload = 0\<rparr>"

definition read_chunk ::
  "gateway_reads \<Rightarrow> (nat \<Rightarrow> bool) \<Rightarrow> (RawMessage list \<Rightarrow> string) \<Rightarrow> ReadPlan \<Rightarrow> ReadCursor \<Rightarrow> nat \<Rightarrow>
   (RawMessage list \<times> ChunkReceipt) kafka_result" where
  "read_chunk rd cancelled fingerprint plan cursor part_number =
     bind_result (check_cancelled cancelled 0) (\<lambda>_.
     bind_result (chunk_loop rd cancelled plan (start_chunk cursor)) (\<lambda>st.
     bind_result (check_cancelled cancelled (ch_now st)) (\<lambda>_.
     bind_result (make_ReadCursor (ch_positions st) (ch_remaining_messages st) (ch_remaining_bytes st)
         (ch_index st) (ch_reason st)) (\<lambda>next_cursor.
       Inr (ch_messages st,
         \<lparr>cr_read_id = rp_read_id plan, cr_part_number = part_number, cr_offsets = ch_offsets st,
          cr_message_count = int (length (ch_messages st)), cr_payload_bytes = ch_payload st,
          cr_fingerprint = fingerprint (ch_messages st), cr_cursor = next_cursor\<rparr>)))))"

text \<open>The partition of a stored range; \<^verbatim>\<open>next\<close> raises where the plan has none.\<close>

definition range_partition :: "ReadPlan \<Rightarrow> int \<Rightarrow> TopicPartition kafka_result" where
  "range_partition plan part =
     (case find (\<lambda>r. tp_partition (rg_topic_partition r) = part) (rp_ranges plan) of
        None \<Rightarrow> Inl (PyError ''StopIteration'') | Some r \<Rightarrow> Inr (rg_topic_partition r))"

definition replay_request :: "ReadPlan \<Rightarrow> PartitionOffsets \<Rightarrow> read_request kafka_result" where
  "replay_request plan o' =
     bind_result (range_partition plan (po_partition o')) (\<lambda>tp.
     case po_start_offset o' of None \<Rightarrow> Inl (KafkaInputError ''start must be a nonnegative integer'')
     | Some start \<Rightarrow> bind_result (make_OffsetRange tp start (po_next_offset o')) (\<lambda>rng.
     case po_payload_bytes o' of None \<Rightarrow> Inl (PyError ''TypeError'')
     | Some nbytes \<Rightarrow> (case po_message_count o' of None \<Rightarrow> Inl (KafkaInputError ''max_records must be a nonnegative integer'')
     | Some n \<Rightarrow> Inr \<lparr>rq_range = rng, rq_isolation_level = rp_isolation_level plan, rq_max_records = n,
                     rq_max_bytes = Some nbytes, rq_total_max_bytes = lm_max_bytes (rp_limits plan),
                     rq_target_bytes = nbytes + 1, rq_max_message_bytes = lm_max_message_bytes (rp_limits plan)\<rparr>)))"

fun replay_offsets ::
  "gateway_reads \<Rightarrow> (nat \<Rightarrow> bool) \<Rightarrow> ReadPlan \<Rightarrow> nat \<Rightarrow> PartitionOffsets list \<Rightarrow> (RawMessage list \<times> nat) kafka_result" where
  "replay_offsets rd cancelled plan now [] = Inr ([], now)"
| "replay_offsets rd cancelled plan now (o' # os) =
     bind_result (check_cancelled cancelled now) (\<lambda>_.
     bind_result (replay_request plan o') (\<lambda>rq.
     bind_result (rd now rq) (\<lambda>batch.
     bind_result (replay_offsets rd cancelled plan (Suc now) os) (\<lambda>(messages, final).
       Inr (rb_messages batch @ messages, final)))))"

definition replay_chunk ::
  "gateway_reads \<Rightarrow> (nat \<Rightarrow> bool) \<Rightarrow> (RawMessage list \<Rightarrow> string) \<Rightarrow> ReadPlan \<Rightarrow> ChunkReceipt \<Rightarrow>
   (RawMessage list \<times> ChunkReceipt) kafka_result" where
  "replay_chunk rd cancelled fingerprint plan receipt =
     bind_result (replay_offsets rd cancelled plan 0 (cr_offsets receipt)) (\<lambda>(messages, now).
     bind_result (check_cancelled cancelled now) (\<lambda>_.
     if fingerprint messages \<noteq> cr_fingerprint receipt then Inl (KafkaConsumptionFlowError ''Kafka chunk changed'')
     else Inr (messages, receipt)))"

end
