(* ===== verification/Kafka_Reading.thy ===== *)
theory Kafka_Reading
  imports Kafka_Chunks
begin

text \<open>
  What a chunk reads: the messages of every partition continue the part of the log that the earlier
  chunks have read, and the budgets of the cursor count what is left. The laws of the gateway that
  this needs are the locale \<open>log_reader\<close>; the gateway over the Kafka client provides them.
\<close>

section \<open>Plans\<close>

definition limits_ok :: "ReadLimits \<Rightarrow> bool" where
  "limits_ok l \<longleftrightarrow> (case lm_max_messages l of None \<Rightarrow> True | Some n \<Rightarrow> 0 < n) \<and>
     (case lm_max_bytes l of None \<Rightarrow> True | Some n \<Rightarrow> 0 < n) \<and> 0 < lm_rows_per_partition l \<and>
     0 < lm_target_partition_bytes l \<and> 0 < lm_max_message_bytes l"

lemma make_ReadLimits_ok: "make_ReadLimits m b r t x = Inr l \<Longrightarrow> limits_ok l"
  by (auto simp: make_ReadLimits_def bind_result_eq_Inr_iff positive_limit_def nonnegative_def limits_ok_def
      split: option.splits if_splits)

definition range_tps :: "ReadPlan \<Rightarrow> TopicPartition list" where
  "range_tps plan = map rg_topic_partition (rp_ranges plan)"

definition plan_ok :: "ReadPlan \<Rightarrow> bool" where
  "plan_ok plan \<longleftrightarrow> rp_ranges plan \<noteq> [] \<and> distinct (map tp_partition (range_tps plan)) \<and>
     list_all (\<lambda>r. 0 \<le> rg_start r \<and> rg_start r \<le> rg_end r \<and> tp_topic (rg_topic_partition r) = rp_topic plan \<and>
       0 \<le> tp_partition (rg_topic_partition r)) (rp_ranges plan) \<and>
     limits_ok (rp_limits plan)"

lemma plan_ok_nth:
  assumes "plan_ok plan" "i < length (rp_ranges plan)"
  shows "0 \<le> rg_start (rp_ranges plan ! i)" "rg_start (rp_ranges plan ! i) \<le> rg_end (rp_ranges plan ! i)"
    "0 \<le> tp_partition (rg_topic_partition (rp_ranges plan ! i))"
  using assms by (auto simp: plan_ok_def list_all_length)

lemma plan_ok_distinct:
  assumes "plan_ok plan" "i < length (rp_ranges plan)" "j < length (rp_ranges plan)" "i \<noteq> j"
  shows "tp_partition (rg_topic_partition (rp_ranges plan ! i)) \<noteq> tp_partition (rg_topic_partition (rp_ranges plan ! j))"
  using assms by (auto simp: plan_ok_def range_tps_def distinct_conv_nth)

text \<open>Planning yields a plan whose ranges are disjoint, ordered and inside the bounds of their partitions.\<close>

lemma validate_position_Inr: "validate_position p b e = Inr q \<Longrightarrow> q = p \<and> 0 \<le> b \<and> b \<le> p \<and> p \<le> e"
  by (auto simp: validate_position_def bind_result_eq_Inr_iff nonnegative_def split: if_splits)

lemma select_start_position_Inr:
  "select_start_position mode b e c m t x = Inr q \<Longrightarrow> 0 \<le> b \<and> b \<le> q \<and> q \<le> e"
  by (auto simp: select_start_position_def start_at_def dest!: validate_position_Inr split: if_splits option.splits bool.splits)

lemma plan_range_Inr:
  assumes "plan_range a bounds current timestamps tp = Inr r"
  obtains b where "map_of bounds tp = Some (b, rg_end r)" "0 \<le> b" "b \<le> rg_start r" "rg_start r \<le> rg_end r"
    "rg_topic_partition r = tp"
  using assms
  by (auto simp: plan_range_def bind_result_eq_Inr_iff dict_index_def make_OffsetRange_def nonnegative_def
      dest!: select_start_position_Inr split: option.splits if_splits)

lemma plan_readE:
  assumes "plan_read gw cancelled uuid a = Inr plan"
  obtains available tps bounds current timestamps where "select_partitions a available = Inr tps"
    "kg_bounds gw tps (pa_isolation_level a) = Inr bounds"
    "list_all2 (\<lambda>tp r. plan_range a bounds current timestamps tp = Inr r) tps (rp_ranges plan)"
    "rp_limits plan = pa_limits a" "rp_topic plan = pa_topic a"
  using assms by (auto simp: plan_read_def bind_result_eq_Inr_iff map_result_Inr_iff)

lemma make_TopicPartition_Inr: "make_TopicPartition t p = Inr tp \<longleftrightarrow>
    \<not> is_blank t \<and> 0 \<le> p \<and> tp = \<lparr>tp_topic = t, tp_partition = p\<rparr>"
  by (auto simp: make_TopicPartition_def bind_result_eq_Inr_iff nonnegative_def)

lemma select_partitions_Inr:
  assumes "select_partitions a available = Inr tps"
  shows "tps \<noteq> []" "distinct (map tp_partition tps)" "list_all (\<lambda>tp. tp_topic tp = pa_topic a \<and> 0 \<le> tp_partition tp) tps"
proof -
  obtain selected where "selected \<noteq> []" "distinct selected"
    and tps: "list_all2 (\<lambda>p tp. make_TopicPartition (pa_topic a) p = Inr tp) (sort selected) tps"
    using assms by (auto simp: select_partitions_def Let_def bind_result_eq_Inr_iff map_result_Inr_iff
        split: if_splits option.splits)
  have "map tp_partition tps = sort selected" and topics: "list_all (\<lambda>tp. tp_topic tp = pa_topic a \<and> 0 \<le> tp_partition tp) tps"
    using tps by (induction rule: list_all2_induct) (auto simp: make_TopicPartition_Inr)
  then show "tps \<noteq> []" "distinct (map tp_partition tps)"
    using \<open>selected \<noteq> []\<close> \<open>distinct selected\<close> by (auto simp: eq_commute [of "[]"])
  show "list_all (\<lambda>tp. tp_topic tp = pa_topic a \<and> 0 \<le> tp_partition tp) tps" by fact
qed

lemma plan_read_ok:
  assumes "plan_read gw cancelled uuid a = Inr plan" "limits_ok (pa_limits a)"
  shows "plan_ok plan"
  using assms(1)
proof (rule plan_readE)
  fix available tps bounds current timestamps
  assume tps: "select_partitions a available = Inr tps" and limits: "rp_limits plan = pa_limits a" "rp_topic plan = pa_topic a"
    and ranges: "list_all2 (\<lambda>tp r. plan_range a bounds current timestamps tp = Inr r) tps (rp_ranges plan)"
  have "range_tps plan = tps"
    using ranges unfolding range_tps_def by (induction rule: list_all2_induct) (auto elim: plan_range_Inr)
  moreover have "list_all (\<lambda>r. 0 \<le> rg_start r \<and> rg_start r \<le> rg_end r) (rp_ranges plan)"
    using ranges by (induction rule: list_all2_induct) (auto elim!: plan_range_Inr)
  ultimately show ?thesis
    using select_partitions_Inr [OF tps] limits assms(2)
    by (auto simp: plan_ok_def range_tps_def list_all_iff)
qed

section \<open>Progress of a read\<close>

text \<open>
  A cursor after the messages \<open>ms\<close>: the position of every partition lies in its range, the messages
  of the partition are those of the log up to the position, and the budgets are what is left.
\<close>

definition read_ok :: "topic_log \<Rightarrow> ReadPlan \<Rightarrow> RawMessage list \<Rightarrow> PartitionPosition list \<Rightarrow> int option \<Rightarrow> int option \<Rightarrow> nat \<Rightarrow> bool" where
  "read_ok lg plan ms ps rm rb index \<longleftrightarrow>
     length ps = length (rp_ranges plan) \<and> index < length ps \<and>
     (\<forall>i < length ps. let r = rp_ranges plan ! i; p = pp_next_offset (ps ! i); tp = rg_topic_partition r
        in pp_topic_partition (ps ! i) = tp \<and> rg_start r \<le> p \<and> p \<le> rg_end r \<and>
           filter (\<lambda>m. rm_topic_partition m = tp) ms = segment lg tp (rg_start r) p) \<and>
     list_all (\<lambda>m. rm_topic_partition m \<in> set (range_tps plan) \<and> payload_bytes m \<le> lm_max_message_bytes (rp_limits plan)) ms \<and>
     rm = map_option (\<lambda>n. n - int (length ms)) (lm_max_messages (rp_limits plan)) \<and>
     rb = map_option (\<lambda>n. n - total_bytes ms) (lm_max_bytes (rp_limits plan)) \<and>
     within_limit (lm_max_messages (rp_limits plan)) (int (length ms)) \<and>
     within_limit (lm_max_bytes (rp_limits plan)) (total_bytes ms)"

lemma read_ok_nth:
  assumes "read_ok lg plan ms ps rm rb index" "i < length ps"
  shows "pp_topic_partition (ps ! i) = rg_topic_partition (rp_ranges plan ! i)"
    "rg_start (rp_ranges plan ! i) \<le> pp_next_offset (ps ! i)" "pp_next_offset (ps ! i) \<le> rg_end (rp_ranges plan ! i)"
    "filter (\<lambda>m. rm_topic_partition m = rg_topic_partition (rp_ranges plan ! i)) ms =
       segment lg (rg_topic_partition (rp_ranges plan ! i)) (rg_start (rp_ranges plan ! i)) (pp_next_offset (ps ! i))"
  using assms by (auto simp: read_ok_def Let_def)

lemma read_ok_index: "read_ok lg plan ms ps rm rb index \<Longrightarrow> index < length ps \<and> length ps = length (rp_ranges plan)"
  by (simp add: read_ok_def)

lemma within_limit_rest:
  "within_limit (map_option (\<lambda>n. n - a) l) b \<longleftrightarrow> within_limit l (a + b)"
  by (auto simp: within_limit_def split: option.splits)

lemma read_ok_rotate: "read_ok lg plan ms ps rm rb index \<Longrightarrow> read_ok lg plan ms ps rm rb (Suc index mod length ps)"
  using mod_less_divisor [of "length ps" "Suc index"] by (fastforce simp: read_ok_def)

lemma read_okI:
  assumes "length ps = length (rp_ranges plan)" "index < length ps"
    and "\<And>i. i < length ps \<Longrightarrow> pp_topic_partition (ps ! i) = rg_topic_partition (rp_ranges plan ! i) \<and>
      rg_start (rp_ranges plan ! i) \<le> pp_next_offset (ps ! i) \<and> pp_next_offset (ps ! i) \<le> rg_end (rp_ranges plan ! i) \<and>
      filter (\<lambda>m. rm_topic_partition m = rg_topic_partition (rp_ranges plan ! i)) ms =
        segment lg (rg_topic_partition (rp_ranges plan ! i)) (rg_start (rp_ranges plan ! i)) (pp_next_offset (ps ! i))"
    and "list_all (\<lambda>m. rm_topic_partition m \<in> set (range_tps plan) \<and> payload_bytes m \<le> lm_max_message_bytes (rp_limits plan)) ms"
    and "rm = map_option (\<lambda>n. n - int (length ms)) (lm_max_messages (rp_limits plan))"
    and "rb = map_option (\<lambda>n. n - total_bytes ms) (lm_max_bytes (rp_limits plan))"
    and "within_limit (lm_max_messages (rp_limits plan)) (int (length ms))"
    and "within_limit (lm_max_bytes (rp_limits plan)) (total_bytes ms)"
  shows "read_ok lg plan ms ps rm rb index"
  using assms by (simp add: read_ok_def Let_def)

lemma read_okD:
  assumes "read_ok lg plan ms ps rm rb index"
  shows "list_all (\<lambda>m. rm_topic_partition m \<in> set (range_tps plan) \<and> payload_bytes m \<le> lm_max_message_bytes (rp_limits plan)) ms"
    "rm = map_option (\<lambda>n. n - int (length ms)) (lm_max_messages (rp_limits plan))"
    "rb = map_option (\<lambda>n. n - total_bytes ms) (lm_max_bytes (rp_limits plan))"
    "within_limit (lm_max_messages (rp_limits plan)) (int (length ms))"
    "within_limit (lm_max_bytes (rp_limits plan)) (total_bytes ms)"
  using assms by (simp_all add: read_ok_def)

text \<open>Accepting a batch of one partition.\<close>

lemma read_ok_step:
  assumes lg: "log_ok lg" and plan: "plan_ok plan" and ok: "read_ok lg plan ms ps rm rb i"
    and b: "b = segment lg (pp_topic_partition (ps ! i)) (pp_next_offset (ps ! i)) q"
      "pp_next_offset (ps ! i) \<le> q" "q \<le> rg_end (rp_ranges plan ! i)"
      "list_all (\<lambda>m. payload_bytes m \<le> lm_max_message_bytes (rp_limits plan)) b"
      "within_limit rm (int (length b))" "within_limit rb (total_bytes b)"
  shows "read_ok lg plan (ms @ b) (ps[i := \<lparr>pp_topic_partition = pp_topic_partition (ps ! i), pp_next_offset = q\<rparr>])
    (map_option (\<lambda>n. n - int (length b)) rm) (map_option (\<lambda>n. n - total_bytes b) rb) (Suc i mod length ps)"
proof -
  let ?ps = "ps[i := \<lparr>pp_topic_partition = pp_topic_partition (ps ! i), pp_next_offset = q\<rparr>]"
  let ?tp = "\<lambda>j. rg_topic_partition (rp_ranges plan ! j)" and ?start = "\<lambda>j. rg_start (rp_ranges plan ! j)"
  have i: "i < length ps" "length ps = length (rp_ranges plan)" using read_ok_index [OF ok] by auto
  have mine: "list_all (\<lambda>m. rm_topic_partition m = ?tp i) b"
    using segment_partition [OF lg] b(1) read_ok_nth(1) [OF ok i(1)] by (auto simp: list_all_iff)
  have nth: "pp_topic_partition (?ps ! j) = ?tp j \<and> ?start j \<le> pp_next_offset (?ps ! j) \<and>
      pp_next_offset (?ps ! j) \<le> rg_end (rp_ranges plan ! j) \<and>
      filter (\<lambda>m. rm_topic_partition m = ?tp j) (ms @ b) = segment lg (?tp j) (?start j) (pp_next_offset (?ps ! j))"
    if j: "j < length ps" for j
  proof (cases "j = i")
    case True
    have "filter (\<lambda>m. rm_topic_partition m = ?tp i) b = b" using mine by (simp add: list_all_iff)
    then show ?thesis
      using True read_ok_nth [OF ok i(1)] b(1-3) i segment_split [OF lg, of "?start i" "pp_next_offset (ps ! i)" q "?tp i"]
      by simp
  next
    case False
    have "?tp j \<noteq> ?tp i" using plan_ok_distinct [OF plan, of j i] False i j by auto
    then have "filter (\<lambda>m. rm_topic_partition m = ?tp j) b = []"
      using mine by (auto simp: list_all_iff filter_empty_conv)
    then show ?thesis using False read_ok_nth [OF ok j] by simp
  qed
  have tp: "?tp i \<in> set (range_tps plan)" using i by (simp add: range_tps_def)
  note budgets = read_okD [OF ok]
  show ?thesis
  proof (rule read_okI)
    show "Suc i mod length ps < length ?ps" using mod_less_divisor [of "length ps" "Suc i"] i(1) by fastforce
    show "list_all (\<lambda>m. rm_topic_partition m \<in> set (range_tps plan) \<and> payload_bytes m \<le> lm_max_message_bytes (rp_limits plan)) (ms @ b)"
      using budgets(1) mine b(4) tp by (auto simp: list_all_iff)
  qed (use nth i b(5,6) budgets(2-5) in \<open>auto simp: within_limit_rest option.map_comp comp_def algebra_simps\<close>)
qed

text \<open>What the stored offsets of a chunk say about the batch they stand for.\<close>

definition describes :: "topic_log \<Rightarrow> ReadPlan \<Rightarrow> PartitionOffsets \<Rightarrow> RawMessage list \<Rightarrow> bool" where
  "describes lg plan o' b \<longleftrightarrow> b \<noteq> [] \<and>
     list_ex (\<lambda>r. tp_partition (rg_topic_partition r) = po_partition o' \<and>
       (case po_start_offset o' of None \<Rightarrow> False | Some s \<Rightarrow> 0 \<le> s \<and> rg_start r \<le> s \<and>
          b = segment lg (rg_topic_partition r) s (po_next_offset o'))) (rp_ranges plan) \<and>
     po_next_offset o' = rm_offset (last b) + 1 \<and> po_last_message_offset o' = Some (rm_offset (last b)) \<and>
     po_message_count o' = Some (int (length b)) \<and> po_payload_bytes o' = Some (total_bytes b) \<and>
     list_all (\<lambda>m. payload_bytes m \<le> lm_max_message_bytes (rp_limits plan)) b"

definition reason_ok :: "topic_log \<Rightarrow> ReadPlan \<Rightarrow> PartitionPosition list \<Rightarrow> int option \<Rightarrow> int option \<Rightarrow> StopReason option \<Rightarrow> bool" where
  "reason_ok lg plan ps rm rb reason = (case reason of
       None \<Rightarrow> True
     | Some Snapshot_exhausted \<Rightarrow> all_read ps (rp_ranges plan) = Inr True
     | Some Max_messages \<Rightarrow> rm = Some 0
     | Some Max_bytes \<Rightarrow> rb = Some 0 \<or> list_ex (\<lambda>(p, r). pp_next_offset p < rg_end r \<and>
         list_ex (\<lambda>m. rm_offset m = pp_next_offset p \<and> \<not> within_limit rb (payload_bytes m)) (lg (rg_topic_partition r)))
           (zip ps (rp_ranges plan)))"

text \<open>The last message cuts a segment.\<close>

lemma segment_last:
  assumes "log_ok lg" "xs = segment lg tp a c" "xs \<noteq> []"
  shows "segment lg tp a (rm_offset (last xs) + 1) = xs" "rm_offset (last xs) < c" "a \<le> rm_offset (last xs)"
proof -
  have mem: "last xs \<in> set (segment lg tp a c)" using assms(2,3) last_in_set by metis
  then show bounds: "rm_offset (last xs) < c" "a \<le> rm_offset (last xs)" by (auto simp: segment_mem)
  have sorted: "sorted_wrt (<) (map rm_offset (butlast xs @ [last xs]))"
    using sorted_segment [OF assms(1), of tp a c] assms(2,3) by simp
  have "rm_offset m \<le> rm_offset (last xs)" if "m \<in> set xs" for m
  proof -
    have "m \<in> set (butlast xs @ [last xs])" using that assms(3) by simp
    then show ?thesis using sorted by (auto simp: sorted_wrt_append)
  qed
  then have "filter (\<lambda>m. a \<le> rm_offset m \<and> rm_offset m < rm_offset (last xs) + 1) (lg tp) =
      filter (\<lambda>m. a \<le> rm_offset m \<and> rm_offset m < c) (lg tp)"
    using bounds assms(2) by (intro filter_cong) (auto simp: segment_def)
  then show "segment lg tp a (rm_offset (last xs) + 1) = xs" by (simp add: assms(2) segment_def)
qed

section \<open>Chunks read the log\<close>

definition chunk_ok :: "topic_log \<Rightarrow> ReadPlan \<Rightarrow> RawMessage list \<Rightarrow> chunk_state \<Rightarrow> bool" where
  "chunk_ok lg plan before st \<longleftrightarrow>
     read_ok lg plan (before @ ch_messages st) (ch_positions st) (ch_remaining_messages st) (ch_remaining_bytes st) (ch_index st) \<and>
     ch_payload st = total_bytes (ch_messages st) \<and>
     (\<exists>bs. ch_messages st = concat bs \<and> list_all2 (describes lg plan) (ch_offsets st) bs) \<and>
     reason_ok lg plan (ch_positions st) (ch_remaining_messages st) (ch_remaining_bytes st) (ch_reason st)"

text \<open>A chunk that stops without a stop reason is full.\<close>

definition chunk_full :: "ReadPlan \<Rightarrow> PartitionPosition list \<Rightarrow> int option \<Rightarrow> RawMessage list \<Rightarrow> bool" where
  "chunk_full plan ps rm ms \<longleftrightarrow> all_read ps (rp_ranges plan) = Inr False \<and> rm \<noteq> Some 0 \<and>
     (lm_rows_per_partition (rp_limits plan) \<le> int (length ms) \<or> lm_target_partition_bytes (rp_limits plan) \<le> total_bytes ms)"

lemma all_read_Inr: "length ps = length rs \<Longrightarrow> \<exists>b. all_read ps rs = Inr b"
  by (induction ps rs rule: list_induct2) auto

lemma all_read_True_nth:
  "all_read ps rs = Inr True \<Longrightarrow> length ps = length rs \<and> (\<forall>i < length ps. rg_end (rs ! i) \<le> pp_next_offset (ps ! i))"
  by (induction ps rs rule: all_read.induct) (auto simp: less_Suc_eq_0_disj split: if_splits)

lemma batch_offsets_describe:
  assumes "log_ok lg" "plan_ok plan" "batch_offsets position batch = Inr new" "i < length (rp_ranges plan)"
    and "pp_topic_partition position = rg_topic_partition (rp_ranges plan ! i)"
    and "rg_start (rp_ranges plan ! i) \<le> pp_next_offset position"
    and "rb_messages batch = segment lg (pp_topic_partition position) (pp_next_offset position) q"
    and "list_all (\<lambda>m. payload_bytes m \<le> lm_max_message_bytes (rp_limits plan)) (rb_messages batch)"
  shows "\<exists>bs. rb_messages batch = concat bs \<and> list_all2 (describes lg plan) new bs"
proof (cases "rb_messages batch = []")
  case True
  then have "new = []" using assms(3) by (simp add: batch_offsets_def)
  then show ?thesis using True by (intro exI [of _ "[]"]) simp
next
  case False
  let ?ms = "rb_messages batch"
  note cut = segment_last [OF assms(1,7) False]
  have r: "rp_ranges plan ! i \<in> set (rp_ranges plan)" using assms(4) by simp
  obtain o' where new: "new = [o']" and o': "make_PartitionOffsets (tp_partition (pp_topic_partition position))
      (rm_offset (last ?ms) + 1) (Some (pp_next_offset position)) (Some (rm_offset (last ?ms)))
      (Some (int (length ?ms))) (Some (total_bytes ?ms)) = Inr o'"
    using assms(3) False by (auto simp: batch_offsets_def Let_def bind_result_eq_Inr_iff)
  have "describes lg plan o' ?ms"
    using o' False r cut assms(5,6,8)
    by (auto simp: describes_def make_PartitionOffsets_def bind_result_eq_Inr_iff optional_nonnegative_def nonnegative_def
        list_ex_iff split: if_splits)
  then show ?thesis by (intro exI [of _ "[?ms]"]) (simp add: new)
qed

lemma chunk_request_simps [simp]:
  "rq_range (chunk_request plan st rng) = rng" "rq_max_bytes (chunk_request plan st rng) = ch_remaining_bytes st"
  "rq_max_message_bytes (chunk_request plan st rng) = lm_max_message_bytes (rp_limits plan)"
  by (simp_all add: chunk_request_def Let_def)

lemma chunk_request_max_records:
  "n \<le> rq_max_records (chunk_request plan st rng) \<Longrightarrow> within_limit (ch_remaining_messages st) n"
  by (auto simp: chunk_request_def Let_def within_limit_def split: option.splits)

definition cursor_ok :: "topic_log \<Rightarrow> ReadPlan \<Rightarrow> RawMessage list \<Rightarrow> ReadCursor \<Rightarrow> bool" where
  "cursor_ok lg plan ms cu \<longleftrightarrow>
     read_ok lg plan ms (cu_positions cu) (cu_remaining_messages cu) (cu_remaining_bytes cu) (cu_next_partition_index cu) \<and>
     reason_ok lg plan (cu_positions cu) (cu_remaining_messages cu) (cu_remaining_bytes cu) (cu_stop_reason cu)"

text \<open>The receipt \<open>r\<close> of a chunk that reads \<open>ms\<close> from the cursor \<open>cu\<close>, after the messages \<open>before\<close>.\<close>

definition receipt_ok ::
  "(RawMessage list \<Rightarrow> string) \<Rightarrow> topic_log \<Rightarrow> ReadPlan \<Rightarrow> RawMessage list \<Rightarrow> ReadCursor \<Rightarrow> RawMessage list \<Rightarrow> ChunkReceipt \<Rightarrow> bool" where
  "receipt_ok fingerprint lg plan before cu ms r \<longleftrightarrow>
     cursor_ok lg plan (before @ ms) (cr_cursor r) \<and>
     cr_message_count r = int (length ms) \<and> cr_payload_bytes r = total_bytes ms \<and> cr_fingerprint r = fingerprint ms \<and>
     (\<exists>bs. ms = concat bs \<and> list_all2 (describes lg plan) (cr_offsets r) bs) \<and>
     (cu_stop_reason (cr_cursor r) = None \<longrightarrow>
        chunk_full plan (cu_positions (cr_cursor r)) (cu_remaining_messages (cr_cursor r)) ms) \<and>
     (cu_stop_reason cu \<noteq> None \<longrightarrow> ms = [] \<and> cu_stop_reason (cr_cursor r) = cu_stop_reason cu)"

lemma make_ReadCursor_Inr:
  "make_ReadCursor ps rm rb i reason = Inr cu \<Longrightarrow> cu = \<lparr>cu_positions = ps, cu_remaining_messages = rm, cu_remaining_bytes = rb,
     cu_next_partition_index = i, cu_stop_reason = reason\<rparr>"
  by (auto simp: make_ReadCursor_def bind_result_eq_Inr_iff)

lemma total_bytes_member: "m \<in> set ms \<Longrightarrow> payload_bytes m \<le> total_bytes ms"
proof (induction ms)
  case (Cons a ms)
  then show ?case using payload_bytes_nonneg [of a] total_bytes_nonneg [of ms] by auto
qed simp

lemma range_partition_Inr:
  assumes "plan_ok plan" "r \<in> set (rp_ranges plan)" "range_partition plan (tp_partition (rg_topic_partition r)) = Inr tp"
  shows "tp = rg_topic_partition r"
proof -
  obtain r' where r': "find (\<lambda>r'. tp_partition (rg_topic_partition r') = tp_partition (rg_topic_partition r)) (rp_ranges plan) = Some r'"
    and tp: "tp = rg_topic_partition r'"
    using assms(3) by (auto simp: range_partition_def split: option.splits)
  have "r' \<in> set (rp_ranges plan)" "tp_partition (rg_topic_partition r') = tp_partition (rg_topic_partition r)"
    using r' by (auto simp: find_Some_iff)
  moreover have "inj_on (\<lambda>r. tp_partition (rg_topic_partition r)) (set (rp_ranges plan))"
    using assms(1) by (simp add: plan_ok_def range_tps_def distinct_map comp_def)
  ultimately show ?thesis using assms(2) tp by (auto dest: inj_onD)
qed

lemma replay_request_Inr:
  assumes "plan_ok plan" "describes lg plan o' b" "replay_request plan o' = Inr rq"
  obtains r s where "r \<in> set (rp_ranges plan)" "rg_topic_partition (rq_range rq) = rg_topic_partition r"
    "rg_start (rq_range rq) = s" "rg_end (rq_range rq) = po_next_offset o'" "s \<le> po_next_offset o'"
    "b = segment lg (rg_topic_partition r) s (po_next_offset o')" "rq_max_records rq = int (length b)"
    "rq_max_bytes rq = Some (total_bytes b)" "rq_target_bytes rq = total_bytes b + 1"
proof -
  obtain r s where r: "r \<in> set (rp_ranges plan)" "tp_partition (rg_topic_partition r) = po_partition o'"
    "po_start_offset o' = Some s" "b = segment lg (rg_topic_partition r) s (po_next_offset o')"
    "po_message_count o' = Some (int (length b))" "po_payload_bytes o' = Some (total_bytes b)"
    using assms(2) by (auto simp: describes_def list_ex_iff split: option.splits)
  obtain tp rng where tp: "range_partition plan (po_partition o') = Inr tp"
    and rng: "make_OffsetRange tp s (po_next_offset o') = Inr rng" and rq: "rq_range rq = rng"
      "rq_max_records rq = int (length b)" "rq_max_bytes rq = Some (total_bytes b)" "rq_target_bytes rq = total_bytes b + 1"
    using assms(3) r(3,5,6) by (auto simp: replay_request_def bind_result_eq_Inr_iff)
  have "tp = rg_topic_partition r" using range_partition_Inr [OF assms(1) r(1)] tp r(2) by simp
  then have "rq_range rq = \<lparr>rg_topic_partition = rg_topic_partition r, rg_start = s, rg_end = po_next_offset o'\<rparr>"
    "s \<le> po_next_offset o'"
    using rng rq(1) by (auto simp: make_OffsetRange_def bind_result_eq_Inr_iff split: if_splits)
  then show ?thesis using that [OF r(1), of s] rq(2-4) r(4) by simp
qed

text \<open>
  The laws of a gateway: a successful read of an ordered range satisfies the contract of the log.
\<close>

locale log_reader =
  fixes rd :: gateway_reads and lg :: topic_log
  assumes lg: "log_ok lg"
    and rd: "rd now rq = Inr b \<Longrightarrow> rg_start (rq_range rq) \<le> rg_end (rq_range rq) \<Longrightarrow> batch_ok lg rq b"
begin

lemma pass_reads:
  assumes "plan_ok plan" "chunk_ok lg plan before st" "ch_reason st = None"
    and "chunk_pass rd cancelled plan st = Inr (Continue st')"
  shows "chunk_ok lg plan before st'"
  using assms(4)
proof (cases rule: chunk_pass_ContinueE)
  case skip
  then show ?thesis using assms(2,3) read_ok_rotate by (auto simp: chunk_ok_def)
next
  case (read rng batch)
  let ?i = "ch_index st" and ?p = "ch_positions st ! ch_index st" and ?r = "rp_ranges plan ! ch_index st"
  have ok: "read_ok lg plan (before @ ch_messages st) (ch_positions st) (ch_remaining_messages st) (ch_remaining_bytes st) ?i"
    using assms(2) by (simp add: chunk_ok_def)
  have i: "?i < length (ch_positions st)" "?i < length (rp_ranges plan)" using read_ok_index [OF ok] by auto
  note at = read_ok_nth [OF ok i(1)]
  have rng: "rng = \<lparr>rg_topic_partition = pp_topic_partition ?p, rg_start = pp_next_offset ?p, rg_end = rg_end ?r\<rparr>"
    using read(6) by (auto simp: make_OffsetRange_def bind_result_eq_Inr_iff split: if_splits)
  have b: "batch_ok lg (chunk_request plan st rng) batch"
    using rd [OF read(7)] read(1) rng by (simp add: unfinished_def)
  have batch: "rb_messages batch = segment lg (pp_topic_partition ?p) (pp_next_offset ?p) (rb_next_position batch)"
    "pp_next_offset ?p \<le> rb_next_position batch" "rb_next_position batch \<le> rg_end ?r"
    "list_all (\<lambda>m. payload_bytes m \<le> lm_max_message_bytes (rp_limits plan)) (rb_messages batch)"
    "within_limit (ch_remaining_messages st) (int (length (rb_messages batch)))"
    "within_limit (ch_remaining_bytes st) (total_bytes (rb_messages batch))"
    using batch_okD [OF b] chunk_request_max_records by (auto simp: rng)
  note ok' = read_ok_step [OF lg assms(1) ok batch]
  from read(9) i(1) show ?thesis
  proof (rule accept_batchE, goal_cases)
    case (1 new)
    obtain bs where "rb_messages batch = concat bs" "list_all2 (describes lg plan) new bs"
      using batch_offsets_describe [OF lg assms(1) 1(1) i(2) at(1,2) batch(1,4)] by blast
    moreover obtain cs where "ch_messages st = concat cs" "list_all2 (describes lg plan) (ch_offsets st) cs"
      using assms(2) by (auto simp: chunk_ok_def)
    ultimately have "\<exists>bs. ch_messages st @ rb_messages batch = concat bs \<and> list_all2 (describes lg plan) (ch_offsets st @ new) bs"
      by (intro exI [of _ "cs @ bs"]) (simp add: list_all2_appendI)
    moreover have "reason_ok lg plan (ch_positions st') (ch_remaining_messages st') (ch_remaining_bytes st') (ch_reason st')"
      if limited: "rb_byte_limit_reached batch"
    proof -
      obtain m where m: "m \<in> set (lg (rg_topic_partition ?r))" "rm_offset m = rb_next_position batch"
        "\<not> within_limit (ch_remaining_bytes st) (total_bytes (rb_messages batch) + payload_bytes m)"
        "rb_next_position batch < rg_end ?r"
        by (rule batch_ok_limitedE [OF b limited]) (use at(1) in \<open>auto simp: rng\<close>)
      have "(ch_positions st' ! ?i, ?r) \<in> set (zip (ch_positions st') (rp_ranges plan))"
        using i 1(3) by (auto simp: in_set_zip intro!: exI [of _ ?i])
      then show ?thesis using m 1(3) i limited
        by (auto simp: reason_ok_def list_ex_iff within_limit_rest intro!: bexI)
    qed
    ultimately show ?case
      using ok' assms(2,3) 1(3) by (cases "rb_byte_limit_reached batch") (auto simp: chunk_ok_def reason_ok_def)
  qed
qed

lemma pass_breaks:
  assumes "plan_ok plan" "chunk_ok lg plan before st" "ch_reason st = None"
    and "chunk_pass rd cancelled plan st = Inr (Break st')"
  shows "chunk_ok lg plan before st' \<and>
    (ch_reason st' = None \<longrightarrow> chunk_full plan (ch_positions st') (ch_remaining_messages st') (ch_messages st'))"
proof -
  have payload: "ch_payload st = total_bytes (ch_messages st)" using assms(2) by (simp add: chunk_ok_def)
  consider (finished) "all_read (ch_positions st) (rp_ranges plan) = Inr True" "st' = st\<lparr>ch_reason := Some Snapshot_exhausted\<rparr>"
    | (messages) "ch_remaining_messages st = Some 0" "st' = st\<lparr>ch_reason := Some Max_messages\<rparr>"
    | (bytes) "ch_remaining_bytes st = Some 0" "st' = st\<lparr>ch_reason := Some Max_bytes\<rparr>"
    | (full) "st' = st" "chunk_full plan (ch_positions st) (ch_remaining_messages st) (ch_messages st)"
    using assms(4) payload
    by (auto simp: chunk_pass_def bind_result_eq_Inr_iff chunk_full_def Let_def split: if_splits)
  then show ?thesis using assms(2) by cases (auto simp: chunk_ok_def reason_ok_def)
qed

lemma loop_reads:
  assumes "plan_ok plan" "chunk_ok lg plan before st" "chunk_loop rd cancelled plan st = Inr st'"
  shows "chunk_ok lg plan before st' \<and> (ch_reason st \<noteq> None \<longrightarrow> st' = st) \<and>
    (ch_reason st' = None \<longrightarrow>
      chunk_full plan (ch_positions st') (ch_remaining_messages st') (ch_messages st'))"
  using assms
proof (induction r \<equiv> rd cancelled plan st rule: chunk_loop.induct)
  case (1 cancelled plan st)
  show ?case
  proof (cases "ch_reason st = None")
    case False
    then show ?thesis using 1(3,4) by (auto simp: chunk_loop.simps [of rd])
  next
    case True
    obtain step where step: "chunk_pass rd cancelled plan st = Inr step"
      using 1(4) True by (auto simp: chunk_loop.simps [of rd] split: sum.splits)
    show ?thesis
    proof (cases step)
      case (Break s')
      then have "st' = s'" using 1(4) True step by (simp add: chunk_loop.simps [of rd])
      then show ?thesis using pass_breaks [OF 1(2,3) True] step Break True by simp
    next
      case (Continue s')
      have loop: "chunk_loop rd cancelled plan s' = Inr st'"
        using 1(4) True step Continue by (simp add: chunk_loop.simps [of rd])
      have s': "chunk_ok lg plan before s'" using pass_reads [OF 1(2,3) True] step Continue by simp
      show ?thesis using 1(1) [OF _ step [unfolded Continue] refl 1(2) s' loop] True by simp
    qed
  qed
qed

lemma chunk_reads:
  assumes "plan_ok plan" "cursor_ok lg plan before cu"
    and "read_chunk rd cancelled fingerprint plan cu k = Inr (ms, r)"
  shows "receipt_ok fingerprint lg plan before cu ms r"
proof -
  obtain st where loop: "chunk_loop rd cancelled plan (start_chunk cu) = Inr st"
    and ms: "ms = ch_messages st" and r: "cr_offsets r = ch_offsets st" "cr_message_count r = int (length (ch_messages st))"
      "cr_payload_bytes r = ch_payload st" "cr_fingerprint r = fingerprint (ch_messages st)"
      "cr_cursor r = \<lparr>cu_positions = ch_positions st, cu_remaining_messages = ch_remaining_messages st,
         cu_remaining_bytes = ch_remaining_bytes st, cu_next_partition_index = ch_index st, cu_stop_reason = ch_reason st\<rparr>"
    using assms(3) by (auto simp: read_chunk_def bind_result_eq_Inr_iff dest!: make_ReadCursor_Inr)
  have start: "chunk_ok lg plan before (start_chunk cu)"
    using assms(2) by (auto simp: chunk_ok_def cursor_ok_def start_chunk_def intro!: exI [of _ "[]"])
  have reason: "ch_reason (start_chunk cu) = cu_stop_reason cu" "ch_messages (start_chunk cu) = []"
    by (simp_all add: start_chunk_def)
  from loop_reads [OF assms(1) start loop] show ?thesis
    using reason by (auto simp: receipt_ok_def cursor_ok_def chunk_ok_def ms r)
qed

text \<open>Replaying the stored offsets of a batch reads the batch again.\<close>

lemma replay_batch:
  assumes "plan_ok plan" "describes lg plan o' b" "replay_request plan o' = Inr rq" "rd now rq = Inr batch"
  shows "rb_messages batch = b"
proof -
  obtain r s where "r \<in> set (rp_ranges plan)"
    and r: "rg_topic_partition (rq_range rq) = rg_topic_partition r" "rg_start (rq_range rq) = s"
    "rg_end (rq_range rq) = po_next_offset o'" "s \<le> po_next_offset o'"
    and b: "b = segment lg (rg_topic_partition r) s (po_next_offset o')"
    and rq: "rq_max_records rq = int (length b)" "rq_max_bytes rq = Some (total_bytes b)" "rq_target_bytes rq = total_bytes b + 1"
    by (rule replay_request_Inr [OF assms(1-3)])
  let ?tp = "rg_topic_partition r" and ?q = "rb_next_position batch" and ?e = "po_next_offset o'"
  have ok: "batch_ok lg rq batch" using rd [OF assms(4)] r by simp
  have ms: "rb_messages batch = segment lg ?tp s ?q" and q: "s \<le> ?q" "?q \<le> ?e" using batch_okD [OF ok] r by auto
  have split: "b = rb_messages batch @ segment lg ?tp ?q ?e"
    using segment_split [OF lg q, of ?tp] b ms by simp
  show ?thesis
  proof (cases "rb_byte_limit_reached batch")
    case True
    obtain m where m: "m \<in> set (lg ?tp)" "rm_offset m = ?q" "?q < ?e"
      "\<not> within_limit (rq_max_bytes rq) (total_bytes (rb_messages batch) + payload_bytes m)"
      by (rule batch_ok_limitedE [OF ok True]) (use r in auto)
    then have "payload_bytes m \<le> total_bytes (segment lg ?tp ?q ?e)"
      by (intro total_bytes_member) (simp add: segment_mem)
    then have "total_bytes (rb_messages batch) + payload_bytes m \<le> total_bytes b"
      by (subst split) simp
    then show ?thesis using m(4) rq(2) by (simp add: within_limit_def)
  next
    case False
    have "total_bytes (rb_messages batch) \<le> total_bytes b"
      using total_bytes_nonneg [of "segment lg ?tp ?q ?e"] by (subst split) simp
    then have "?q = ?e \<or> length b \<le> length (rb_messages batch)"
      using batch_ok_stopped [OF ok False] rq r by auto
    then have "segment lg ?tp ?q ?e = []"
    proof
      assume "length b \<le> length (rb_messages batch)"
      then show ?thesis using arg_cong [OF split, of length] by simp
    qed simp
    then show ?thesis using split by simp
  qed
qed

lemma replay_offsets_reads:
  assumes "plan_ok plan" "list_all2 (describes lg plan) os bs" "replay_offsets rd cancelled plan now os = Inr (ms, final)"
  shows "ms = concat bs"
  using assms(2,3)
proof (induction arbitrary: now ms rule: list_all2_induct)
  case (Cons o' os b bs)
  then show ?case by (auto simp: bind_result_eq_Inr_iff dest: replay_batch [OF assms(1)])
qed simp

lemma replay_repeats:
  assumes "plan_ok plan" "receipt_ok fingerprint lg plan before cu ms r"
  shows "case replay_chunk rd cancelled fingerprint plan r of
      Inl e \<Rightarrow> replay_offsets rd cancelled plan 0 (cr_offsets r) = Inl e \<or> e = CancelledError
    | Inr out \<Rightarrow> out = (ms, r)"
proof -
  obtain bs where bs: "ms = concat bs" "list_all2 (describes lg plan) (cr_offsets r) bs" "cr_fingerprint r = fingerprint ms"
    using assms(2) by (auto simp: receipt_ok_def)
  show ?thesis
  proof (cases "replay_offsets rd cancelled plan 0 (cr_offsets r)")
    case (Inl e)
    then show ?thesis by (simp add: replay_chunk_def)
  next
    case (Inr p)
    obtain ms' now where p: "p = (ms', now)" by fastforce
    have "ms' = ms" using replay_offsets_reads [OF assms(1) bs(2)] Inr p bs(1) by simp
    then show ?thesis using Inr p bs(3) by (auto simp: replay_chunk_def check_cancelled_def)
  qed
qed

end

end
