(* ===== verification/Kafka_Reader.thy ===== *)
theory Kafka_Reader
  imports Kafka_Reading
begin

text \<open>
  The lazy reader (\<^verbatim>\<open>infra/dask_reader.py\<close>) with the conversion of messages to rows
  (\<^verbatim>\<open>infra/dataframe.py\<close>), and the commit of read offsets (\<^verbatim>\<open>flow/use_cases/commit_offsets.py\<close>).

  The reader's lock makes each of its methods atomic. Dask is third-party: the graph that
  \<^verbatim>\<open>dataframe()\<close> builds is run by the step relation \<open>graph_step\<close>, in any order that the data
  dependencies allow, with recomputation of released results. Pandas and Arrow keep the rows they
  are given; the text codecs are the parameter \<open>codec\<close>.
\<close>

section \<open>Rows\<close>

record kafka_formats =
  kf_key_format :: string
  kf_value_format :: string
  kf_key_encoding :: string
  kf_value_encoding :: string
  kf_timestamp_unit :: string

record codec =
  cd_known :: "string \<Rightarrow> bool"
  cd_decode :: "string \<Rightarrow> bytes \<Rightarrow> string option"

datatype cell = Null | Text string | Binary bytes

record frame_row =
  fr_topic :: string
  fr_partition :: int
  fr_offset :: int
  fr_timestamp :: "int option"
  fr_timestamp_type :: "string option"
  fr_key :: cell
  fr_value :: cell
  fr_headers :: "(nat list \<times> bytes option) list"

definition kafka_arrow_schema :: "kafka_formats \<Rightarrow> unit kafka_result" where
  "kafka_arrow_schema f =
     (if kf_key_format f \<notin> {''text'', ''binary''} \<or> kf_value_format f \<notin> {''text'', ''binary''}
      then Inl (KafkaInputError ''Kafka format must be text or binary'')
      else if kf_timestamp_unit f \<notin> {''s'', ''ms'', ''us'', ''ns''}
      then Inl (KafkaInputError ''Unsupported timestamp precision'')
      else Inr ())"

definition known_encoding :: "codec \<Rightarrow> string \<times> string \<Rightarrow> unit kafka_result" where
  "known_encoding c p = (case p of (fmt, encoding) \<Rightarrow>
     if fmt = ''text'' \<and> \<not> cd_known c encoding then Inl (KafkaInputError ''Unknown Kafka text encoding'') else Inr ())"

definition decode_cell :: "codec \<Rightarrow> bytes option \<Rightarrow> string \<Rightarrow> string \<Rightarrow> cell kafka_result" where
  "decode_cell c v fmt encoding = (case v of
       None \<Rightarrow> Inr Null
     | Some bs \<Rightarrow> if fmt = ''binary'' then Inr (Binary bs)
         else case cd_decode c encoding bs of None \<Rightarrow> Inl KafkaDecodeError | Some t \<Rightarrow> Inr (Text t))"

definition message_row :: "codec \<Rightarrow> kafka_formats \<Rightarrow> RawMessage \<Rightarrow> frame_row kafka_result" where
  "message_row c f m =
     bind_result (decode_cell c (rm_key m) (kf_key_format f) (kf_key_encoding f)) (\<lambda>key.
     bind_result (decode_cell c (rm_value m) (kf_value_format f) (kf_value_encoding f)) (\<lambda>val.
       Inr \<lparr>fr_topic = tp_topic (rm_topic_partition m), fr_partition = tp_partition (rm_topic_partition m),
            fr_offset = rm_offset m, fr_timestamp = rm_timestamp_ms m, fr_timestamp_type = rm_timestamp_type m,
            fr_key = key, fr_value = val, fr_headers = rm_headers m\<rparr>))"

definition messages_to_dataframe :: "codec \<Rightarrow> kafka_formats \<Rightarrow> RawMessage list \<Rightarrow> frame_row list kafka_result" where
  "messages_to_dataframe c f messages =
     bind_result (kafka_arrow_schema f) (\<lambda>_.
     bind_result (map_result (known_encoding c)
       [(kf_key_format f, kf_key_encoding f), (kf_value_format f, kf_value_encoding f)]) (\<lambda>_.
       map_result (message_row c f) messages))"

section \<open>The reader\<close>

definition ceil_div :: "int \<Rightarrow> int \<Rightarrow> int" where
  "ceil_div a b = (a + b - 1) div b"

definition planned_count :: "ReadPlan \<Rightarrow> int" where
  "planned_count plan =
     (let n = sum_list (map (\<lambda>r. rg_end r - rg_start r) (rp_ranges plan))
      in case lm_max_messages (rp_limits plan) of None \<Rightarrow> n | Some m \<Rightarrow> min n m)"

definition planned_size :: "ReadPlan \<Rightarrow> int" where
  "planned_size plan =
     (let n = planned_count plan * lm_max_message_bytes (rp_limits plan)
      in case lm_max_bytes (rp_limits plan) of None \<Rightarrow> n | Some b \<Rightarrow> min n b)"

definition read_slot_count :: "ReadPlan \<Rightarrow> int \<Rightarrow> int kafka_result" where
  "read_slot_count plan max_plan_tasks =
     (let slots = (if planned_count plan \<noteq> 0
        then min (planned_count plan)
               (ceil_div (planned_count plan) (lm_rows_per_partition (rp_limits plan)) +
                ceil_div (planned_size plan) (lm_target_partition_bytes (rp_limits plan)) + 1)
        else 1)
      in if slots > max_plan_tasks then Inl (KafkaInputError ''Kafka read needs more tasks than the planning limit'')
         else Inr slots)"

text \<open>
  The attributes of the reader. \<open>dr_variables\<close> is what \<^verbatim>\<open>publish\<close> and \<^verbatim>\<open>invalidate\<close> leave in the output
  variables of the node: the summary, or unresolved values.
\<close>

record dask_reader =
  dr_plan :: ReadPlan
  dr_slots :: nat
  dr_receipts :: "(nat, ChunkReceipt) dict"
  dr_delivered :: "nat list"
  dr_failed :: bool
  dr_published :: bool
  dr_variables :: "ReadSummary option"

definition make_reader :: "ReadPlan \<Rightarrow> int \<Rightarrow> dask_reader kafka_result" where
  "make_reader plan max_plan_tasks =
     bind_result (read_slot_count plan max_plan_tasks) (\<lambda>slots.
       Inr \<lparr>dr_plan = plan, dr_slots = nat slots, dr_receipts = [], dr_delivered = [],
            dr_failed = False, dr_published = False, dr_variables = None\<rparr>)"

definition invalidate :: "dask_reader \<Rightarrow> dask_reader" where
  "invalidate d = d\<lparr>dr_failed := True, dr_published := False, dr_variables := None\<rparr>"

text \<open>The conditions a method of the reader meets: cancellation, the gateway, and the callback \<^verbatim>\<open>publish\<close>.\<close>

record reader_env =
  en_cancelled :: bool
  en_reads :: gateway_reads
  en_chunk_cancelled :: "nat \<Rightarrow> bool"
  en_publish :: "unit kafka_result"

record reader_config =
  rf_fingerprint :: "RawMessage list \<Rightarrow> string"
  rf_codec :: codec
  rf_formats :: kafka_formats

definition still_valid :: "reader_env \<Rightarrow> dask_reader \<Rightarrow> unit kafka_result" where
  "still_valid env d =
     (if en_cancelled env then Inl CancelledError
      else if dr_failed d then Inl (KafkaSnapshotLostError ''Kafka read was invalidated; start a new run'')
      else Inr ())"

definition read_or_replay ::
  "reader_config \<Rightarrow> reader_env \<Rightarrow> dask_reader \<Rightarrow> ReadCursor \<Rightarrow> nat \<Rightarrow> (RawMessage list \<times> ChunkReceipt) kafka_result" where
  "read_or_replay cf env d cursor number = (case map_of (dr_receipts d) number of
       None \<Rightarrow> read_chunk (en_reads env) (en_chunk_cancelled env) (rf_fingerprint cf) (dr_plan d) cursor number
     | Some previous \<Rightarrow> replay_chunk (en_reads env) (en_chunk_cancelled env) (rf_fingerprint cf) (dr_plan d) previous)"

definition reader_read ::
  "reader_config \<Rightarrow> reader_env \<Rightarrow> ReadCursor \<Rightarrow> nat \<Rightarrow> dask_reader \<Rightarrow> (frame_row list \<times> ChunkReceipt) kafka_result \<times> dask_reader" where
  "reader_read cf env cursor number d =
     (case bind_result (still_valid env d) (\<lambda>_.
           bind_result (read_or_replay cf env d cursor number) (\<lambda>(messages, receipt).
           bind_result (messages_to_dataframe (rf_codec cf) (rf_formats cf) messages) (\<lambda>frame.
           if int number = int (dr_slots d) - 1 \<and> cu_stop_reason (cr_cursor receipt) = None
           then Inl (KafkaSnapshotLostError ''Kafka graph exhausted before terminal cursor'')
           else Inr (frame, receipt)))) of
        Inl e \<Rightarrow> (Inl e, invalidate d)
      | Inr (frame, receipt) \<Rightarrow> (Inr (frame, receipt), d\<lparr>dr_receipts := dict_put number receipt (dr_receipts d)\<rparr>))"

definition plus_option :: "int option \<Rightarrow> int option \<Rightarrow> int option kafka_result" where
  "plus_option a b = (case (a, b) of (Some x, Some y) \<Rightarrow> Inr (Some (x + y)) | _ \<Rightarrow> Inl (PyError ''TypeError''))"

text \<open>The fold of the stored offsets into one entry per partition; \<^verbatim>\<open>replace\<close> validates the new entry.\<close>

definition add_offsets ::
  "PartitionOffsets \<Rightarrow> (int, PartitionOffsets) dict \<Rightarrow> (int, PartitionOffsets) dict kafka_result" where
  "add_offsets o' totals = (case map_of totals (po_partition o') of
       None \<Rightarrow> Inr (dict_put (po_partition o') o' totals)
     | Some old \<Rightarrow>
         bind_result (plus_option (po_message_count old) (po_message_count o')) (\<lambda>n.
         bind_result (plus_option (po_payload_bytes old) (po_payload_bytes o')) (\<lambda>b.
         bind_result (make_PartitionOffsets (po_partition o') (po_next_offset o') (po_start_offset old)
             (po_last_message_offset o') n b) (\<lambda>new.
           Inr (dict_put (po_partition o') new totals)))))"

fun fold_offsets ::
  "PartitionOffsets list \<Rightarrow> (int, PartitionOffsets) dict \<Rightarrow> (int, PartitionOffsets) dict kafka_result" where
  "fold_offsets [] totals = Inr totals"
| "fold_offsets (o' # os) totals = bind_result (add_offsets o' totals) (fold_offsets os)"

definition read_summary :: "dask_reader \<Rightarrow> StopReason option \<Rightarrow> ReadSummary kafka_result" where
  "read_summary d stop_reason =
     bind_result (map_result (dict_index (dr_receipts d)) [0..<dr_slots d]) (\<lambda>receipts.
     bind_result (fold_offsets (concat (map cr_offsets receipts)) []) (\<lambda>totals.
     bind_result (map_result (dict_index totals) (sort (dict_keys totals))) (\<lambda>parts.
       Inr \<lparr>rs_topic = rp_topic (dr_plan d), rs_group_id = rp_group_id (dr_plan d), rs_partitions = parts,
            rs_read_id = Some (rp_read_id (dr_plan d)), rs_cluster_id = rp_cluster_id (dr_plan d),
            rs_connection_id = rp_connection_id (dr_plan d), rs_isolation_level = rp_isolation_level (dr_plan d),
            rs_messages_read = Some (sum_list (map cr_message_count (dict_values (dr_receipts d)))),
            rs_bytes_read = Some (sum_list (map cr_payload_bytes (dict_values (dr_receipts d)))),
            rs_stop_reason = stop_reason\<rparr>)))"

text \<open>The body of \<^verbatim>\<open>finish\<close>: nothing to do, or the summary that was published.\<close>

definition finish_outcome :: "reader_env \<Rightarrow> dask_reader \<Rightarrow> ReadSummary option kafka_result" where
  "finish_outcome env d =
     bind_result (still_valid env d) (\<lambda>_.
     if length (dr_receipts d) \<noteq> dr_slots d \<or> length (dr_delivered d) \<noteq> dr_slots d then Inr None
     else bind_result (dict_index (dr_receipts d) (dr_slots d - 1)) (\<lambda>terminal.
     if cu_stop_reason (cr_cursor terminal) = None then Inl (KafkaSnapshotLostError ''Kafka read has no terminal cursor'')
     else if dr_published d then Inr None
     else bind_result (read_summary d (cu_stop_reason (cr_cursor terminal))) (\<lambda>summary. bind_result (en_publish env) (\<lambda>_. Inr (Some summary)))))"

definition reader_finish :: "reader_env \<Rightarrow> dask_reader \<Rightarrow> unit kafka_result \<times> dask_reader" where
  "reader_finish env d = (case finish_outcome env d of
       Inl e \<Rightarrow> (Inl e, invalidate d)
     | Inr None \<Rightarrow> (Inr (), d)
     | Inr (Some summary) \<Rightarrow> (Inr (), d\<lparr>dr_published := True, dr_variables := Some summary\<rparr>))"

text \<open>\<^verbatim>\<open>_frame\<close>: the consumer of a part receives its rows, unless \<^verbatim>\<open>finish\<close> raises.\<close>

definition deliver_frame ::
  "reader_env \<Rightarrow> frame_row list \<times> ChunkReceipt \<Rightarrow> nat \<Rightarrow> dask_reader \<Rightarrow> frame_row list kafka_result \<times> dask_reader" where
  "deliver_frame env res number d =
     (case reader_finish env (d\<lparr>dr_delivered := List.insert number (dr_delivered d)\<rparr>) of
        (Inl e, d') \<Rightarrow> (Inl e, d')
      | (Inr _, d') \<Rightarrow> (Inr (fst res), d'))"

section \<open>The task graph\<close>

definition initial_cursor :: "ReadPlan \<Rightarrow> ReadCursor" where
  "initial_cursor plan =
     \<lparr>cu_positions = map (\<lambda>r. \<lparr>pp_topic_partition = rg_topic_partition r, pp_next_offset = rg_start r\<rparr>) (rp_ranges plan),
      cu_remaining_messages = lm_max_messages (rp_limits plan), cu_remaining_bytes = lm_max_bytes (rp_limits plan),
      cu_next_partition_index = 0, cu_stop_reason = None\<rparr>"

text \<open>The reader, the results of the read tasks that Dask holds, and the frames handed to consumers.\<close>

record dask_graph =
  dg_reader :: dask_reader
  dg_results :: "(nat, frame_row list \<times> ChunkReceipt) dict"
  dg_frames :: "(nat, frame_row list) dict"

definition new_graph :: "dask_reader \<Rightarrow> dask_graph" where
  "new_graph d = \<lparr>dg_reader = d, dg_results = [], dg_frames = []\<rparr>"

text \<open>The cursor argument of a read task: the cursor in the result of the task before it.\<close>

definition task_cursor :: "dask_graph \<Rightarrow> nat \<Rightarrow> ReadCursor option" where
  "task_cursor g number = (case number of
       0 \<Rightarrow> Some (initial_cursor (dr_plan (dg_reader g)))
     | Suc k \<Rightarrow> map_option (\<lambda>res. cr_cursor (snd res)) (map_of (dg_results g) k))"

definition run_read :: "reader_config \<Rightarrow> reader_env \<Rightarrow> ReadCursor \<Rightarrow> nat \<Rightarrow> dask_graph \<Rightarrow> dask_graph" where
  "run_read cf env cursor number g = (case reader_read cf env cursor number (dg_reader g) of
       (Inl e, d) \<Rightarrow> g\<lparr>dg_reader := d\<rparr>
     | (Inr res, d) \<Rightarrow> g\<lparr>dg_reader := d, dg_results := dict_put number res (dg_results g)\<rparr>)"

definition run_deliver :: "reader_env \<Rightarrow> frame_row list \<times> ChunkReceipt \<Rightarrow> nat \<Rightarrow> dask_graph \<Rightarrow> dask_graph" where
  "run_deliver env res number g = (case deliver_frame env res number (dg_reader g) of
       (Inl e, d) \<Rightarrow> g\<lparr>dg_reader := d\<rparr>
     | (Inr frame, d) \<Rightarrow> g\<lparr>dg_reader := d, dg_frames := dict_put number frame (dg_frames g)\<rparr>)"

datatype graph_event = Read_Task nat | Release_Result nat | Frame_Task nat | On_End | On_Error

inductive graph_step ::
  "(reader_env \<Rightarrow> bool) \<Rightarrow> reader_config \<Rightarrow> dask_graph \<Rightarrow> graph_event \<Rightarrow> dask_graph \<Rightarrow> bool"
  for env_ok :: "reader_env \<Rightarrow> bool" and cf :: reader_config where
  read_task: "env_ok env \<Longrightarrow> number < dr_slots (dg_reader g) \<Longrightarrow> task_cursor g number = Some cursor \<Longrightarrow>
    graph_step env_ok cf g (Read_Task number) (run_read cf env cursor number g)"
| release_result: "graph_step env_ok cf g (Release_Result number) (g\<lparr>dg_results := dict_del number (dg_results g)\<rparr>)"
| frame_task: "map_of (dg_results g) number = Some res \<Longrightarrow>
    graph_step env_ok cf g (Frame_Task number) (run_deliver env res number g)"
| on_end: "graph_step env_ok cf g On_End (g\<lparr>dg_reader := snd (reader_finish env (dg_reader g))\<rparr>)"
| on_error: "graph_step env_ok cf g On_Error (g\<lparr>dg_reader := invalidate (dg_reader g)\<rparr>)"

section \<open>Committing offsets\<close>

definition check_summary :: "ReadSummary \<Rightarrow> TopicPartition list kafka_result" where
  "check_summary offsets =
     (if is_blank (rs_group_id offsets) then Inl (KafkaInputError ''group_id must be nonempty'')
      else bind_result (make_TopicPartition (rs_topic offsets) 0) (\<lambda>_.
      if rs_isolation_level offsets \<notin> {''read_committed'', ''read_uncommitted''}
      then Inl (KafkaInputError ''Invalid isolation level'')
      else if (case rs_cluster_id offsets of None \<Rightarrow> False | Some c \<Rightarrow> is_blank c)
      then Inl (KafkaInputError ''cluster_id must be nonempty when provided'')
      else bind_result (map_result (\<lambda>p. make_TopicPartition (rs_topic offsets) (po_partition p)) (rs_partitions offsets)) (\<lambda>tps.
      if \<not> distinct tps then Inl (KafkaInputError ''Duplicate partitions'')
      else bind_result (map_result (\<lambda>p. nonnegative (po_next_offset p) ''next_offset'') (rs_partitions offsets))
             (\<lambda>_. Inr tps))))"

definition check_cluster :: "kafka_gateway \<Rightarrow> (nat \<Rightarrow> bool) \<Rightarrow> ReadSummary \<Rightarrow> unit kafka_result" where
  "check_cluster gw cancelled offsets = (case rs_cluster_id offsets of
       None \<Rightarrow> Inr ()
     | Some expected \<Rightarrow>
         bind_result (check_cancelled cancelled 2) (\<lambda>_.
         bind_result (kg_cluster_id gw) (\<lambda>actual.
         if actual \<noteq> Some expected then Inl (KafkaInputError ''Kafka cluster context mismatch or unavailable'')
         else Inr ())))"

definition commit_decision ::
  "(TopicPartition, int \<times> int) dict \<Rightarrow> (TopicPartition, int option) dict \<Rightarrow> PartitionOffsets \<times> TopicPartition \<Rightarrow>
   PartitionCommitResult kafka_result" where
  "commit_decision bounds current p = (case p of (part, tp) \<Rightarrow>
     bind_result (dict_index current tp) (\<lambda>c.
     bind_result (dict_index bounds tp) (\<lambda>(_, stop).
       monotonic_commit (po_partition part) (po_next_offset part) c stop)))"

definition commit_decisions ::
  "kafka_gateway \<Rightarrow> (nat \<Rightarrow> bool) \<Rightarrow> ReadSummary \<Rightarrow> (TopicPartition \<times> PartitionCommitResult) list kafka_result" where
  "commit_decisions gw cancelled offsets =
     bind_result (check_cancelled cancelled 0) (\<lambda>_.
     bind_result (check_summary offsets) (\<lambda>tps.
     bind_result (check_cancelled cancelled 1) (\<lambda>_.
     bind_result (kg_partitions gw (rs_topic offsets)) (\<lambda>available.
     if \<not> list_all (\<lambda>tp. tp_partition tp \<in> set available) tps then Inl (KafkaInputError ''Unknown Kafka partition'')
     else bind_result (check_cluster gw cancelled offsets) (\<lambda>_.
     bind_result (check_cancelled cancelled 3) (\<lambda>_.
     if tps = [] then Inr []
     else bind_result (kg_bounds gw tps (rs_isolation_level offsets)) (\<lambda>bounds.
     bind_result (check_cancelled cancelled 4) (\<lambda>_.
     bind_result (kg_committed gw (rs_group_id offsets) tps) (\<lambda>current.
     bind_result (map_result (commit_decision bounds current) (zip (rs_partitions offsets) tps)) (\<lambda>decisions.
       Inr (zip tps decisions)))))))))))"

definition commit_positions :: "(TopicPartition \<times> PartitionCommitResult) list \<Rightarrow> (TopicPartition, int) dict" where
  "commit_positions decisions =
     map (\<lambda>(tp, r). (tp, pc_requested r)) (filter (\<lambda>(tp, r). pc_status r = Committed) decisions)"

text \<open>The result, and the positions submitted to the gateway if any.\<close>

definition commit_offsets ::
  "kafka_gateway \<Rightarrow> (nat \<Rightarrow> bool) \<Rightarrow> ReadSummary \<Rightarrow> CommitResult kafka_result \<times> (TopicPartition, int) dict" where
  "commit_offsets gw cancelled offsets = (case commit_decisions gw cancelled offsets of
       Inl e \<Rightarrow> (Inl e, [])
     | Inr [] \<Rightarrow> (Inr [], [])
     | Inr decisions \<Rightarrow>
         if cancelled 5 then (Inl CancelledError, [])
         else let positions = commit_positions decisions
              in (bind_result (if positions \<noteq> [] then kg_commit gw (rs_group_id offsets) positions else Inr ()) (\<lambda>_.
                  bind_result (check_cancelled cancelled 6) (\<lambda>_. Inr (map snd decisions))), positions))"

end
