(* ===== verification/Kafka_Slots.thy ===== *)
theory Kafka_Slots
  imports Kafka_Reader
begin

text \<open>
  Sequences of chunks: what the receipts of consecutive chunks add up to, and why the number of read
  tasks that \<^verbatim>\<open>read_slot_count\<close> plans is enough for the last one to end with a stop reason.
\<close>

section \<open>Sequences of chunks\<close>

type_synonym part = "RawMessage list \<times> ChunkReceipt"

fun chunk_chain ::
  "(RawMessage list \<Rightarrow> string) \<Rightarrow> topic_log \<Rightarrow> ReadPlan \<Rightarrow> RawMessage list \<Rightarrow> ReadCursor \<Rightarrow> part list \<Rightarrow> bool" where
  "chunk_chain fp lg plan before cu [] = True"
| "chunk_chain fp lg plan before cu (p # ps) =
     (receipt_ok fp lg plan before cu (fst p) (snd p) \<and>
      chunk_chain fp lg plan (before @ fst p) (cr_cursor (snd p)) ps)"

definition chain_messages :: "part list \<Rightarrow> RawMessage list" where
  "chain_messages ps = concat (map fst ps)"

definition chain_cursor :: "ReadCursor \<Rightarrow> part list \<Rightarrow> ReadCursor" where
  "chain_cursor cu ps = (if ps = [] then cu else cr_cursor (snd (last ps)))"

lemma chain_messages_simps [simp]:
  "chain_messages [] = []" "chain_messages (p # ps) = fst p @ chain_messages ps"
  "chain_messages (ps @ qs) = chain_messages ps @ chain_messages qs"
  by (simp_all add: chain_messages_def)

lemma chain_cursor_simps [simp]:
  "chain_cursor cu [] = cu" "chain_cursor cu (p # ps) = chain_cursor (cr_cursor (snd p)) ps"
  "chain_cursor cu (ps @ [p]) = cr_cursor (snd p)"
  by (simp_all add: chain_cursor_def)

lemma chunk_chain_append:
  "chunk_chain fp lg plan before cu (ps @ qs) \<longleftrightarrow> chunk_chain fp lg plan before cu ps \<and>
     chunk_chain fp lg plan (before @ chain_messages ps) (chain_cursor cu ps) qs"
  by (induction ps arbitrary: before cu) auto

lemma receipt_okD:
  assumes "receipt_ok fp lg plan before cu ms r"
  shows "cursor_ok lg plan (before @ ms) (cr_cursor r)"
    "cu_stop_reason (cr_cursor r) = None \<Longrightarrow> chunk_full plan (cu_positions (cr_cursor r)) (cu_remaining_messages (cr_cursor r)) ms"
    "cu_stop_reason cu \<noteq> None \<Longrightarrow> cu_stop_reason (cr_cursor r) = cu_stop_reason cu"
  using assms unfolding receipt_ok_def by blast+

lemma chain_cursor_ok:
  "chunk_chain fp lg plan before cu ps \<Longrightarrow> cursor_ok lg plan before cu \<Longrightarrow>
   cursor_ok lg plan (before @ chain_messages ps) (chain_cursor cu ps)"
proof (induction ps arbitrary: before cu)
  case (Cons p ps)
  then show ?case using Cons.IH [of "before @ fst p" "cr_cursor (snd p)"] by (auto dest: receipt_okD(1))
qed simp

lemma initial_cursor_ok:
  assumes "plan_ok plan"
  shows "cursor_ok lg plan [] (initial_cursor plan)"
proof -
  have l: "limits_ok (rp_limits plan)" and r: "0 < length (rp_ranges plan)" using assms by (auto simp: plan_ok_def)
  have "within_limit (lm_max_messages (rp_limits plan)) 0" "within_limit (lm_max_bytes (rp_limits plan)) 0"
    using l by (auto simp: limits_ok_def within_limit_def split: option.splits)
  then show ?thesis
    using plan_ok_nth [OF assms] r
    by (auto simp: cursor_ok_def reason_ok_def initial_cursor_def option.map_ident intro!: read_okI)
qed

text \<open>A stop reason stays, so before an open end every chunk was full.\<close>

lemma chain_stopped: "chunk_chain fp lg plan before cu ps \<Longrightarrow> cu_stop_reason cu \<noteq> None \<Longrightarrow>
    cu_stop_reason (chain_cursor cu ps) = cu_stop_reason cu"
proof (induction ps arbitrary: before cu)
  case (Cons p ps)
  have "cu_stop_reason (cr_cursor (snd p)) = cu_stop_reason cu"
    using Cons.prems receipt_okD(3) [of fp lg plan before cu "fst p" "snd p"] by simp
  then show ?case using Cons.IH [of "before @ fst p" "cr_cursor (snd p)"] Cons.prems by simp
qed simp

definition full_part :: "ReadPlan \<Rightarrow> RawMessage list \<Rightarrow> bool" where
  "full_part plan ms \<longleftrightarrow> lm_rows_per_partition (rp_limits plan) \<le> int (length ms) \<or>
     lm_target_partition_bytes (rp_limits plan) \<le> total_bytes ms"

lemma chain_full:
  "chunk_chain fp lg plan before cu ps \<Longrightarrow> cu_stop_reason (chain_cursor cu ps) = None \<Longrightarrow>
   list_all (\<lambda>p. full_part plan (fst p)) ps"
proof (induction ps arbitrary: before cu)
  case (Cons p ps)
  have "cu_stop_reason (cr_cursor (snd p)) = None"
    using Cons.prems chain_stopped [of fp lg plan "before @ fst p" "cr_cursor (snd p)" ps] by force
  then have "full_part plan (fst p)"
    using Cons.prems(1) receipt_okD(2) [of fp lg plan before cu "fst p" "snd p"] by (simp add: chunk_full_def full_part_def)
  then show ?case using Cons.IH [of "before @ fst p" "cr_cursor (snd p)"] Cons.prems by simp
qed simp

lemma full_parts_count:
  assumes "0 < rows" "0 < target" "list_all (\<lambda>ms. rows \<le> int (length ms) \<or> target \<le> total_bytes ms) mss"
  shows "\<exists>a b. length mss = a + b \<and> int a * rows \<le> int (length (concat mss)) \<and> int b * target \<le> total_bytes (concat mss)"
    and "length mss \<le> length (concat mss)"
  using assms(3)
proof (induction mss)
  case (Cons ms mss)
  {
    case 1
    obtain a b where ab: "length mss = a + b" "int a * rows \<le> int (length (concat mss))" "int b * target \<le> total_bytes (concat mss)"
      using Cons.IH(1) 1 by auto
    consider "rows \<le> int (length ms)" | "target \<le> total_bytes ms" using 1 by auto
    then show ?case
    proof cases
      case 1
      then show ?thesis using ab total_bytes_nonneg [of ms]
        by (intro exI [of _ "Suc a"] exI [of _ b]) (simp add: algebra_simps)
    next
      case 2
      then show ?thesis using ab by (intro exI [of _ a] exI [of _ "Suc b"]) (simp add: algebra_simps)
    qed
  }
  {
    case 2
    have "ms \<noteq> []" using 2 assms(1,2) by auto
    then show ?case using Cons.IH(2) 2 by (cases ms) auto
  }
qed auto

section \<open>Counting messages by offsets\<close>

lemma segment_length:
  assumes "log_ok lg" "a \<le> b"
  shows "int (length (segment lg tp a b)) \<le> b - a"
proof -
  let ?xs = "map rm_offset (segment lg tp a b)"
  have "distinct ?xs" using sorted_segment [OF assms(1)] by (simp add: strict_sorted_iff)
  then have "length ?xs = card (set ?xs)" by (rule distinct_card [symmetric])
  also have "\<dots> \<le> card {a..<b}" by (intro card_mono) (auto simp: segment_mem)
  finally show ?thesis using assms(2) by simp
qed

lemma length_by_class:
  assumes "distinct ks" "list_all (\<lambda>x. f x \<in> set ks) xs"
  shows "length xs = sum_list (map (\<lambda>k. length (filter (\<lambda>x. f x = k) xs)) ks)"
  using assms(2)
proof (induction xs)
  case (Cons x xs)
  have "(\<Sum>k\<leftarrow>ks. length (filter (\<lambda>y. f y = k) (x # xs))) =
      (\<Sum>k\<leftarrow>ks. (if f x = k then 1 else 0) + length (filter (\<lambda>y. f y = k) xs))"
    by (intro arg_cong [of _ _ sum_list] map_cong) auto
  also have "\<dots> = (\<Sum>k\<leftarrow>ks. if f x = k then 1 else 0) + (\<Sum>k\<leftarrow>ks. length (filter (\<lambda>y. f y = k) xs))"
    by (rule sum_list_addf)
  also have "(\<Sum>k\<leftarrow>ks. if f x = k then 1 else (0::nat)) = 1"
    using assms(1) Cons.prems by (simp add: sum_list_distinct_conv_sum_set)
  finally show ?case using Cons by simp
qed simp

lemma read_ok_length:
  assumes "log_ok lg" "plan_ok plan" "read_ok lg plan ms ps rm rb index"
  shows "int (length ms) \<le> (\<Sum>i<length ps. pp_next_offset (ps ! i) - rg_start (rp_ranges plan ! i))"
proof -
  have len: "length ps = length (rp_ranges plan)" using read_ok_index [OF assms(3)] by simp
  have "distinct (range_tps plan)" using assms(2) by (auto simp: plan_ok_def distinct_map)
  moreover have "list_all (\<lambda>m. rm_topic_partition m \<in> set (range_tps plan)) ms"
    using read_okD(1) [OF assms(3)] by (simp add: list_all_iff)
  ultimately have "length ms = (\<Sum>tp\<leftarrow>range_tps plan. length (filter (\<lambda>m. rm_topic_partition m = tp) ms))"
    by (rule length_by_class)
  also have "\<dots> = (\<Sum>i<length ps. length (filter (\<lambda>m. rm_topic_partition m = rg_topic_partition (rp_ranges plan ! i)) ms))"
    by (simp add: range_tps_def sum_list_sum_nth len comp_def atLeast0LessThan)
  finally have "int (length ms) =
      (\<Sum>i<length ps. int (length (filter (\<lambda>m. rm_topic_partition m = rg_topic_partition (rp_ranges plan ! i)) ms)))"
    by simp
  also have "\<dots> \<le> (\<Sum>i<length ps. pp_next_offset (ps ! i) - rg_start (rp_ranges plan ! i))"
    using read_ok_nth [OF assms(3)] segment_length [OF assms(1)] by (intro sum_mono) simp
  finally show ?thesis .
qed

text \<open>A read that may go on has read fewer messages than the plan counts.\<close>

lemma open_read_count:
  assumes "log_ok lg" "plan_ok plan" "read_ok lg plan ms ps rm rb index" "all_read ps (rp_ranges plan) = Inr False" "rm \<noteq> Some 0"
  shows "int (length ms) < planned_count plan"
proof -
  let ?p = "\<lambda>i. pp_next_offset (ps ! i) - rg_start (rp_ranges plan ! i)" and ?r = "\<lambda>i. rg_end (rp_ranges plan ! i) - rg_start (rp_ranges plan ! i)"
  have len: "length ps = length (rp_ranges plan)" using read_ok_index [OF assms(3)] by simp
  obtain i where i: "i < length ps" "?p i < ?r i" using all_read_False [OF assms(4)] by auto
  have "int (length ms) \<le> (\<Sum>i<length ps. ?p i)" by (rule read_ok_length [OF assms(1-3)])
  also have "\<dots> < (\<Sum>i<length ps. ?r i)"
    using i read_ok_nth(3) [OF assms(3)] by (intro sum_strict_mono_ex1) auto
  also have "\<dots> = (\<Sum>r\<leftarrow>rp_ranges plan. rg_end r - rg_start r)"
    by (simp add: sum_list_sum_nth len atLeast0LessThan)
  finally show ?thesis
    using read_okD(2,4) [OF assms(3)] assms(5)
    by (auto simp: planned_count_def Let_def within_limit_def split: option.splits)
qed

lemma read_bytes_le:
  assumes "read_ok lg plan ms ps rm rb index" "int (length ms) \<le> planned_count plan" "plan_ok plan"
  shows "total_bytes ms \<le> planned_size plan"
proof -
  let ?x = "lm_max_message_bytes (rp_limits plan)"
  have x: "0 \<le> ?x" using assms(3) by (auto simp: plan_ok_def limits_ok_def)
  have "list_all (\<lambda>m. payload_bytes m \<le> ?x) ms" using read_okD(1) [OF assms(1)] by (simp add: list_all_iff)
  then have "total_bytes ms \<le> int (length ms) * ?x" by (induction ms) (auto simp: algebra_simps)
  also have "\<dots> \<le> planned_count plan * ?x" using assms(2) x by (rule mult_right_mono)
  finally show ?thesis
    using read_okD(5) [OF assms(1)] by (auto simp: planned_size_def Let_def within_limit_def split: option.splits)
qed

section \<open>The slots suffice\<close>

lemma le_ceil_div:
  assumes "0 < b" "int a * b \<le> n"
  shows "int a \<le> ceil_div n b"
proof -
  have "int a * b \<le> n + b - 1" using assms by simp
  then have "int a * b div b \<le> (n + b - 1) div b" using assms(1) by (rule zdiv_mono1)
  then show ?thesis using assms(1) by (simp add: ceil_div_def)
qed

lemma open_chain_shorter:
  assumes "log_ok lg" "plan_ok plan" "chunk_chain fp lg plan [] (initial_cursor plan) ps" "ps \<noteq> []"
    and "cu_stop_reason (chain_cursor (initial_cursor plan) ps) = None"
    and "read_slot_count plan max_plan_tasks = Inr slots"
  shows "int (length ps) < slots"
proof -
  let ?l = "rp_limits plan" and ?ms = "chain_messages ps" and ?cu = "chain_cursor (initial_cursor plan) ps"
  have pos: "0 < lm_rows_per_partition ?l" "0 < lm_target_partition_bytes ?l"
    using assms(2) by (auto simp: plan_ok_def limits_ok_def)
  have "cursor_ok lg plan ?ms ?cu"
    using chain_cursor_ok [OF assms(3) initial_cursor_ok [OF assms(2)]] by simp
  then have ok: "read_ok lg plan ?ms (cu_positions ?cu) (cu_remaining_messages ?cu) (cu_remaining_bytes ?cu) (cu_next_partition_index ?cu)"
    by (simp add: cursor_ok_def)
  obtain qs q where ps: "ps = qs @ [q]" using assms(4) by (cases ps rule: rev_cases) auto
  have "chunk_full plan (cu_positions ?cu) (cu_remaining_messages ?cu) (fst q)"
    using assms(3,5) by (simp add: ps chunk_chain_append receipt_ok_def)
  then have count: "int (length ?ms) < planned_count plan"
    using open_read_count [OF assms(1,2) ok] by (simp add: chunk_full_def)
  then have size: "total_bytes ?ms \<le> planned_size plan" using read_bytes_le [OF ok _ assms(2)] by simp
  have full: "list_all (\<lambda>ms. lm_rows_per_partition ?l \<le> int (length ms) \<or> lm_target_partition_bytes ?l \<le> total_bytes ms) (map fst ps)"
    using chain_full [OF assms(3,5)] by (simp add: full_part_def list_all_iff)
  note parts = full_parts_count [OF pos full, folded chain_messages_def]
  obtain a b where ab: "length ps = a + b" "int a * lm_rows_per_partition ?l \<le> int (length ?ms)"
      "int b * lm_target_partition_bytes ?l \<le> total_bytes ?ms"
    using parts(1) by auto
  have "int a \<le> ceil_div (planned_count plan) (lm_rows_per_partition ?l)"
    by (rule le_ceil_div [OF pos(1)]) (use ab(2) count in linarith)
  moreover have "int b \<le> ceil_div (planned_size plan) (lm_target_partition_bytes ?l)"
    by (rule le_ceil_div [OF pos(2)]) (use ab(3) size in linarith)
  ultimately show ?thesis
    using assms(6) ab(1) parts(2) count
    by (auto simp: read_slot_count_def Let_def min_def split: if_splits)
qed

end
