(* ===== verification/Kafka_Publication.thy ===== *)
theory Kafka_Publication
  imports Kafka_Slots
begin

text \<open>
  What the reader publishes: the entry of a partition in the summary counts exactly the messages of
  the partition that were read, and its next offset follows the last of them. The invariant of the
  task graph relates receipts, results, delivered frames and published variables.
\<close>

section \<open>The entries of a summary\<close>

definition own_messages :: "int \<Rightarrow> RawMessage list \<Rightarrow> RawMessage list" where
  "own_messages part ms = filter (\<lambda>m. tp_partition (rm_topic_partition m) = part) ms"

definition entry_ok :: "RawMessage list \<Rightarrow> PartitionOffsets \<Rightarrow> bool" where
  "entry_ok ms o' \<longleftrightarrow> (let own = own_messages (po_partition o') ms
     in own \<noteq> [] \<and> po_next_offset o' = rm_offset (last own) + 1 \<and>
        po_message_count o' = Some (int (length own)) \<and> po_payload_bytes o' = Some (total_bytes own))"

definition totals_ok :: "(int, PartitionOffsets) dict \<Rightarrow> RawMessage list \<Rightarrow> bool" where
  "totals_ok totals ms \<longleftrightarrow> dict_wf totals \<and>
     (\<forall>part. case map_of totals part of
        None \<Rightarrow> own_messages part ms = []
      | Some o' \<Rightarrow> po_partition o' = part \<and> entry_ok ms o')"

lemma own_messages_append: "own_messages p (xs @ ys) = own_messages p xs @ own_messages p ys"
  by (simp add: own_messages_def)

lemma describesE:
  assumes "describes lg plan o' b"
  obtains r :: OffsetRange and s where "b = segment lg (rg_topic_partition r) s (po_next_offset o')"
    "tp_partition (rg_topic_partition r) = po_partition o'"
proof -
  have "list_ex (\<lambda>r. tp_partition (rg_topic_partition r) = po_partition o' \<and>
       (case po_start_offset o' of None \<Rightarrow> False | Some s \<Rightarrow> 0 \<le> s \<and> rg_start r \<le> s \<and>
          b = segment lg (rg_topic_partition r) s (po_next_offset o'))) (rp_ranges plan)"
    using assms unfolding describes_def by blast
  then show ?thesis using that unfolding list_ex_iff by (cases "po_start_offset o'") (force, force)
qed

lemma describes_own:
  assumes "log_ok lg" "describes lg plan o' b"
  shows "own_messages p b = (if p = po_partition o' then b else [])"
proof -
  obtain r :: OffsetRange and s where "b = segment lg (rg_topic_partition r) s (po_next_offset o')"
    and "tp_partition (rg_topic_partition r) = po_partition o'"
    by (rule describesE [OF assms(2)])
  then have "\<forall>m \<in> set b. tp_partition (rm_topic_partition m) = po_partition o'"
    using segment_partition [OF assms(1)] by auto
  then show ?thesis by (auto simp: own_messages_def filter_empty_conv)
qed

lemma describes_entry:
  assumes "describes lg plan o' b"
  shows "b \<noteq> []" "po_next_offset o' = rm_offset (last b) + 1" "po_message_count o' = Some (int (length b))"
    "po_payload_bytes o' = Some (total_bytes b)"
  using assms by (auto simp: describes_def)

lemma add_offsets_ok:
  assumes "log_ok lg" "describes lg plan o' b" "totals_ok totals ms" "add_offsets o' totals = Inr totals'"
  shows "totals_ok totals' (ms @ b)"
proof -
  let ?p = "po_partition o'"
  note entry = describes_entry [OF assms(2)] and own = describes_own [OF assms(1,2)]
  have wf: "dict_wf totals" and others: "case map_of totals q of None \<Rightarrow> own_messages q ms = []
      | Some x \<Rightarrow> po_partition x = q \<and> entry_ok ms x" for q
    using assms(3) by (auto simp: totals_ok_def)
  obtain new where new: "totals' = dict_put ?p new totals" "po_partition new = ?p" "po_next_offset new = po_next_offset o'"
    "po_message_count new = Some (int (length (own_messages ?p ms @ b)))" "po_payload_bytes new = Some (total_bytes (own_messages ?p ms @ b))"
  proof (cases "map_of totals ?p")
    case None
    then show ?thesis using that [of o'] assms(4) others [of ?p] entry by (auto simp: add_offsets_def)
  next
    case (Some old)
    then have old: "po_message_count old = Some (int (length (own_messages ?p ms)))" "po_payload_bytes old = Some (total_bytes (own_messages ?p ms))"
      using others [of ?p] by (auto simp: entry_ok_def Let_def)
    obtain new where "make_PartitionOffsets ?p (po_next_offset o') (po_start_offset old) (po_last_message_offset o')
        (Some (int (length (own_messages ?p ms @ b)))) (Some (total_bytes (own_messages ?p ms @ b))) = Inr new"
      and "totals' = dict_put ?p new totals"
      using assms(4) Some old entry by (auto simp: add_offsets_def plus_option_def bind_result_eq_Inr_iff)
    then show ?thesis using that [of new]
      by (auto simp: make_PartitionOffsets_def bind_result_eq_Inr_iff split: if_splits)
  qed
  have "entry_ok (ms @ b) new"
    using new entry own by (simp add: entry_ok_def own_messages_append Let_def)
  moreover have "entry_ok (ms @ b) x" if "map_of totals q = Some x" "q \<noteq> ?p" for q x
    using others [of q] that own by (auto simp: entry_ok_def own_messages_append Let_def)
  ultimately have "case map_of totals' q of None \<Rightarrow> own_messages q (ms @ b) = []
      | Some x \<Rightarrow> po_partition x = q \<and> entry_ok (ms @ b) x" for q
    using others [of q] new(1,2) own
    by (cases "q = ?p"; cases "map_of totals q") (auto simp: dict_simps own_messages_append)
  then show ?thesis using wf new(1) by (auto simp: totals_ok_def)
qed

lemma fold_offsets_ok:
  assumes "log_ok lg" "list_all2 (describes lg plan) os bs" "totals_ok totals ms" "fold_offsets os totals = Inr totals'"
  shows "totals_ok totals' (ms @ concat bs)"
  using assms(2-)
proof (induction arbitrary: totals ms rule: list_all2_induct)
  case (Cons o' os b bs)
  obtain t where t: "add_offsets o' totals = Inr t" "fold_offsets os t = Inr totals'"
    using Cons.prems(2) by (auto simp: bind_result_eq_Inr_iff)
  show ?case using Cons.IH [OF add_offsets_ok [OF assms(1) Cons.hyps(1) Cons.prems(1) t(1)] t(2)] by simp
qed simp

lemma chain_offsets:
  "chunk_chain fp lg plan before cu ps \<Longrightarrow>
   \<exists>bs. chain_messages ps = concat bs \<and> list_all2 (describes lg plan) (concat (map (\<lambda>p. cr_offsets (snd p)) ps)) bs"
proof (induction ps arbitrary: before cu)
  case (Cons p ps)
  obtain bs where bs: "fst p = concat bs" "list_all2 (describes lg plan) (cr_offsets (snd p)) bs"
    using Cons.prems by (auto simp: receipt_ok_def)
  obtain cs where "chain_messages ps = concat cs" "list_all2 (describes lg plan) (concat (map (\<lambda>p. cr_offsets (snd p)) ps)) cs"
    using Cons by fastforce
  then show ?case using bs by (intro exI [of _ "bs @ cs"]) (simp add: list_all2_appendI)
qed (simp add: exI [of _ "[]"])

section \<open>The published summary\<close>

text \<open>
  The messages \<open>ms\<close> are a read of the plan that ended, and \<open>s\<close> is its summary: in every range, the
  messages are the part of the log up to a position; the limits hold; and every partition with
  messages has one entry, whose next offset ends exactly the part that was read.
\<close>

definition range_read :: "topic_log \<Rightarrow> RawMessage list \<Rightarrow> ReadSummary \<Rightarrow> OffsetRange \<Rightarrow> bool" where
  "range_read lg ms s r \<longleftrightarrow> (let tp = rg_topic_partition r; own = filter (\<lambda>m. rm_topic_partition m = tp) ms
     in (\<exists>p. rg_start r \<le> p \<and> p \<le> rg_end r \<and> own = segment lg tp (rg_start r) p) \<and>
        (rs_stop_reason s = Some Snapshot_exhausted \<longrightarrow> own = segment lg tp (rg_start r) (rg_end r)) \<and>
        (case find (\<lambda>o'. po_partition o' = tp_partition tp) (rs_partitions s) of
           None \<Rightarrow> own = []
         | Some o' \<Rightarrow> own \<noteq> [] \<and> own = segment lg tp (rg_start r) (po_next_offset o') \<and>
             po_message_count o' = Some (int (length own)) \<and> po_payload_bytes o' = Some (total_bytes own)))"

definition complete_read :: "topic_log \<Rightarrow> ReadPlan \<Rightarrow> RawMessage list \<Rightarrow> ReadSummary \<Rightarrow> bool" where
  "complete_read lg plan ms s \<longleftrightarrow>
     list_all (range_read lg ms s) (rp_ranges plan) \<and>
     list_all (\<lambda>m. rm_topic_partition m \<in> set (range_tps plan)) ms \<and>
     rs_messages_read s = Some (int (length ms)) \<and> rs_bytes_read s = Some (total_bytes ms) \<and>
     within_limit (lm_max_messages (rp_limits plan)) (int (length ms)) \<and>
     within_limit (lm_max_bytes (rp_limits plan)) (total_bytes ms) \<and>
     distinct (map po_partition (rs_partitions s)) \<and> rs_topic s = rp_topic plan \<and> rs_group_id s = rp_group_id plan \<and>
     rs_stop_reason s \<noteq> None"

definition receipts_of :: "part list \<Rightarrow> (nat, ChunkReceipt) dict" where
  "receipts_of ps = zip [0..<length ps] (map snd ps)"

lemma map_of_receipts_of: "map_of (receipts_of ps) k = (if k < length ps then Some (snd (ps ! k)) else None)"
proof (induction ps rule: rev_induct)
  case (snoc p ps)
  then show ?case by (auto simp: receipts_of_def nth_append map_add_def split: option.splits)
qed (simp add: receipts_of_def)

lemma receipts_of_snoc: "receipts_of (ps @ [p]) = receipts_of ps @ [(length ps, snd p)]"
  by (simp add: receipts_of_def)

lemma dict_put_same: "map_of d k = Some v \<Longrightarrow> dict_put k v d = d"
  by (induction k v d rule: dict_put.induct) (auto split: if_splits)

lemma dict_put_new: "map_of d k = None \<Longrightarrow> dict_put k v d = d @ [(k, v)]"
  by (induction k v d rule: dict_put.induct) (auto split: if_splits)

lemma length_receipts_of [simp]: "length (receipts_of ps) = length ps"
  by (simp add: receipts_of_def)

lemma dict_values_receipts_of: "dict_values (receipts_of ps) = map snd ps"
  by (simp add: receipts_of_def dict_values_def)

lemma chain_sums:
  "chunk_chain fp lg plan before cu ps \<Longrightarrow>
   sum_list (map cr_message_count (map snd ps)) = int (length (chain_messages ps)) \<and>
   sum_list (map cr_payload_bytes (map snd ps)) = total_bytes (chain_messages ps)"
  by (induction ps arbitrary: before cu) (auto simp: receipt_ok_def)

lemma map_result_receipts: "map_result (dict_index (receipts_of ps)) [0..<length ps] = Inr (map snd ps)"
  by (auto simp: map_result_Inr_iff list_all2_conv_all_nth dict_index_def map_of_receipts_of)

lemma own_messages_range:
  assumes "plan_ok plan" "r \<in> set (rp_ranges plan)" "list_all (\<lambda>m. rm_topic_partition m \<in> set (range_tps plan)) ms"
  shows "own_messages (tp_partition (rg_topic_partition r)) ms = filter (\<lambda>m. rm_topic_partition m = rg_topic_partition r) ms"
proof -
  have "inj_on tp_partition (set (range_tps plan))" using assms(1) by (simp add: plan_ok_def distinct_map)
  moreover have "rg_topic_partition r \<in> set (range_tps plan)" using assms(2) by (simp add: range_tps_def)
  ultimately show ?thesis using assms(3)
    unfolding own_messages_def by (intro filter_cong) (auto simp: list_all_iff dest: inj_onD)
qed

lemma totals_entries:
  assumes "totals_ok totals ms" "map_result (dict_index totals) (sort (dict_keys totals)) = Inr parts"
  shows "distinct (map po_partition parts)"
    "case find (\<lambda>o'. po_partition o' = p) parts of None \<Rightarrow> own_messages p ms = [] | Some o' \<Rightarrow> po_partition o' = p \<and> entry_ok ms o'"
proof -
  have entries: "list_all2 (\<lambda>k o'. map_of totals k = Some o') (sort (dict_keys totals)) parts"
    using assms(2) by (auto simp: map_result_Inr_iff dict_index_def elim!: list_all2_mono split: option.splits)
  have wf: "dict_wf totals" and cases: "case map_of totals q of None \<Rightarrow> own_messages q ms = []
      | Some o' \<Rightarrow> po_partition o' = q \<and> entry_ok ms o'" for q
    using assms(1) unfolding totals_ok_def by blast+
  have "k = po_partition o'" if "map_of totals k = Some o'" for k o'
    using cases [of k] that by simp
  then have "list_all2 (\<lambda>k o'. k = po_partition o') (sort (dict_keys totals)) parts"
    using entries by (auto elim!: list_all2_mono)
  then have keys: "map po_partition parts = sort (dict_keys totals)"
    by (induction rule: list_all2_induct) auto
  then show "distinct (map po_partition parts)" using wf by (simp add: dict_wf_def)
  show "case find (\<lambda>o'. po_partition o' = p) parts of None \<Rightarrow> own_messages p ms = [] | Some o' \<Rightarrow> po_partition o' = p \<and> entry_ok ms o'"
  proof (cases "find (\<lambda>o'. po_partition o' = p) parts")
    case None
    then have "p \<notin> set (map po_partition parts)" by (auto simp: find_None_iff)
    then have "map_of totals p = None" using keys by (simp add: map_of_eq_None_iff_keys)
    then show ?thesis using None cases [of p] by simp
  next
    case (Some o')
    then have o': "o' \<in> set parts" "po_partition o' = p" by (auto simp: find_Some_iff)
    then obtain k where "map_of totals k = Some o'"
      using entries by (auto simp: list_all2_conv_all_nth in_set_conv_nth)
    then show ?thesis using Some o'(2) cases [of k] by simp
  qed
qed

lemma range_readI:
  assumes "log_ok lg"
    and own: "filter (\<lambda>m. rm_topic_partition m = rg_topic_partition r) ms = segment lg (rg_topic_partition r) (rg_start r) p"
      "rg_start r \<le> p" "p \<le> rg_end r"
    and all: "rs_stop_reason s = Some Snapshot_exhausted \<Longrightarrow> p = rg_end r"
    and entry: "case find (\<lambda>o'. po_partition o' = tp_partition (rg_topic_partition r)) (rs_partitions s) of
        None \<Rightarrow> filter (\<lambda>m. rm_topic_partition m = rg_topic_partition r) ms = []
      | Some o' \<Rightarrow> (let own = filter (\<lambda>m. rm_topic_partition m = rg_topic_partition r) ms
          in own \<noteq> [] \<and> po_next_offset o' = rm_offset (last own) + 1 \<and>
             po_message_count o' = Some (int (length own)) \<and> po_payload_bytes o' = Some (total_bytes own))"
  shows "range_read lg ms s r"
proof -
  let ?tp = "rg_topic_partition r" and ?own = "filter (\<lambda>m. rm_topic_partition m = rg_topic_partition r) ms"
  have cut: "?own = segment lg ?tp (rg_start r) (rm_offset (last ?own) + 1)" if "?own \<noteq> []"
    using segment_last(1) [OF assms(1) own(1) that] by simp
  show ?thesis
    unfolding range_read_def Let_def
  proof (intro conjI)
    show "\<exists>p. rg_start r \<le> p \<and> p \<le> rg_end r \<and> ?own = segment lg ?tp (rg_start r) p" using own by blast
    show "rs_stop_reason s = Some Snapshot_exhausted \<longrightarrow> ?own = segment lg ?tp (rg_start r) (rg_end r)"
      using own(1) all by metis
    show "case find (\<lambda>o'. po_partition o' = tp_partition ?tp) (rs_partitions s) of
         None \<Rightarrow> ?own = []
       | Some o' \<Rightarrow> ?own \<noteq> [] \<and> ?own = segment lg ?tp (rg_start r) (po_next_offset o') \<and>
           po_message_count o' = Some (int (length ?own)) \<and> po_payload_bytes o' = Some (total_bytes ?own)"
    proof (cases "find (\<lambda>o'. po_partition o' = tp_partition ?tp) (rs_partitions s)")
      case None
      show ?thesis using entry unfolding None option.case .
    next
      case (Some o')
      have e: "?own \<noteq> [] \<and> po_next_offset o' = rm_offset (last ?own) + 1 \<and>
           po_message_count o' = Some (int (length ?own)) \<and> po_payload_bytes o' = Some (total_bytes ?own)"
        using entry unfolding Some option.case Let_def .
      then have "?own = segment lg ?tp (rg_start r) (po_next_offset o')" using cut by presburger
      then show ?thesis using e unfolding Some option.case by blast
    qed
  qed
qed

text \<open>The summary of a finished sequence of chunks.\<close>

lemma summary_complete:
  assumes lg: "log_ok lg" and plan: "plan_ok plan" and chain: "chunk_chain fp lg plan [] (initial_cursor plan) ps"
    and d: "dr_plan d = plan" "dr_slots d = length ps" "dr_receipts d = receipts_of ps"
    and stop: "reason = cu_stop_reason (chain_cursor (initial_cursor plan) ps)" "reason \<noteq> None"
    and s: "read_summary d reason = Inr s"
  shows "complete_read lg plan (chain_messages ps) s"
proof -
  let ?ms = "chain_messages ps" and ?cu = "chain_cursor (initial_cursor plan) ps"
  obtain totals parts where totals: "fold_offsets (concat (map (\<lambda>p. cr_offsets (snd p)) ps)) [] = Inr totals"
    and parts: "map_result (dict_index totals) (sort (dict_keys totals)) = Inr parts"
    and fields: "rs_partitions s = parts" "rs_topic s = rp_topic plan" "rs_group_id s = rp_group_id plan"
      "rs_messages_read s = Some (int (length ?ms))" "rs_bytes_read s = Some (total_bytes ?ms)" "rs_stop_reason s = reason"
    using s chain_sums [OF chain]
    by (auto simp: read_summary_def d map_result_receipts bind_result_eq_Inr_iff dict_values_receipts_of comp_def)
  obtain bs where bs: "?ms = concat bs" "list_all2 (describes lg plan) (concat (map (\<lambda>p. cr_offsets (snd p)) ps)) bs"
    using chain_offsets [OF chain] by blast
  have "totals_ok [] []" by (simp add: totals_ok_def own_messages_def)
  from fold_offsets_ok [OF lg bs(2) this totals] have "totals_ok totals ?ms" using bs(1) by simp
  note entries = totals_entries [OF this parts, folded fields(1)]
  have cu: "cursor_ok lg plan ?ms ?cu" using chain_cursor_ok [OF chain initial_cursor_ok [OF plan]] by simp
  then have ok: "read_ok lg plan ?ms (cu_positions ?cu) (cu_remaining_messages ?cu) (cu_remaining_bytes ?cu) (cu_next_partition_index ?cu)"
    by (simp add: cursor_ok_def)
  have tps: "list_all (\<lambda>m. rm_topic_partition m \<in> set (range_tps plan)) ?ms"
    using read_okD(1) [OF ok] by (simp add: list_all_iff)
  have "range_read lg ?ms s r" if r: "r \<in> set (rp_ranges plan)" for r
  proof -
    obtain i where i: "i < length (rp_ranges plan)" "r = rp_ranges plan ! i" using r by (auto simp: in_set_conv_nth)
    let ?tp = "rg_topic_partition r" and ?own = "filter (\<lambda>m. rm_topic_partition m = rg_topic_partition r) ?ms"
      and ?p = "pp_next_offset (cu_positions ?cu ! i)"
    have own: "?own = segment lg ?tp (rg_start r) ?p" "rg_start r \<le> ?p" "?p \<le> rg_end r"
      using read_ok_nth [OF ok] read_ok_index [OF ok] i by auto
    have all: "?p = rg_end r" if "rs_stop_reason s = Some Snapshot_exhausted"
      using cu that fields(6) stop(1) own(3) i all_read_True_nth read_ok_index [OF ok]
      by (fastforce simp: cursor_ok_def reason_ok_def)
    have entry: "case find (\<lambda>o'. po_partition o' = tp_partition ?tp) (rs_partitions s) of
           None \<Rightarrow> ?own = []
         | Some o' \<Rightarrow> (let own = ?own in own \<noteq> [] \<and> po_next_offset o' = rm_offset (last own) + 1 \<and>
             po_message_count o' = Some (int (length own)) \<and> po_payload_bytes o' = Some (total_bytes own))"
      using entries(2) [of "tp_partition ?tp"] own_messages_range [OF plan r tps]
      by (auto simp: entry_ok_def Let_def split: option.splits)
    show ?thesis by (rule range_readI [OF lg own all entry])
  qed
  then show ?thesis
    unfolding complete_read_def using entries(1) tps fields read_okD(4,5) [OF ok] stop(2) by (simp add: list_all_iff)
qed

end
