(* ===== verification/Kafka_Graph.thy ===== *)
theory Kafka_Graph
  imports Kafka_Publication
begin

text \<open>
  The invariant of the task graph of a read, for every order in which Dask may run, repeat and
  release its tasks and for every failure of the gateway, of decoding and of publication.
\<close>

section \<open>The gateway provides the laws of a log\<close>

text \<open>The client of every gateway call delivers the same log.\<close>

locale kafka_client =
  fixes sdk :: "nat \<Rightarrow> kafka_sdk" and attempts :: nat and lg :: topic_log
  assumes log: "log_ok lg" and delivers: "sdk_delivers lg (sdk now)"
begin

lemma python_gateway_read:
  "kg_read (kafka_python_gateway sdk attempts) now rq = Inr b \<Longrightarrow> rg_start (rq_range rq) \<le> rg_end (rq_range rq) \<Longrightarrow>
   batch_ok lg rq b"
  by (auto simp: kafka_python_gateway_def intro: gateway_read_ok [OF log delivers])

end

sublocale kafka_client \<subseteq> gateway: log_reader "kg_read (kafka_python_gateway sdk attempts)" lg
  by unfold_locales (fact log, rule python_gateway_read)

definition gateway_env :: "topic_log \<Rightarrow> reader_env \<Rightarrow> bool" where
  "gateway_env lg env \<longleftrightarrow> (\<exists>sdk attempts. (\<forall>now. sdk_delivers lg (sdk now)) \<and>
     en_reads env = kg_read (kafka_python_gateway sdk attempts))"

lemma gateway_env_log_reader:
  assumes "log_ok lg" "gateway_env lg env"
  shows "log_reader (en_reads env) lg"
proof -
  obtain sdk attempts where sdk: "\<And>now. sdk_delivers lg (sdk now)" "en_reads env = kg_read (kafka_python_gateway sdk attempts)"
    using assms(2) by (auto simp: gateway_env_def)
  have "kafka_client sdk lg" using assms(1) sdk(1) by unfold_locales
  then show ?thesis
    using kafka_client.python_gateway_read [of sdk lg attempts] assms(1) by (auto simp: log_reader_def sdk(2))
qed

section \<open>The invariant\<close>

definition part_frame :: "reader_config \<Rightarrow> part \<Rightarrow> frame_row list kafka_result" where
  "part_frame cf p = messages_to_dataframe (rf_codec cf) (rf_formats cf) (fst p)"

definition reader_ok :: "reader_config \<Rightarrow> topic_log \<Rightarrow> ReadPlan \<Rightarrow> part list \<Rightarrow> dask_reader \<Rightarrow> bool" where
  "reader_ok cf lg plan ps d \<longleftrightarrow>
     chunk_chain (rf_fingerprint cf) lg plan [] (initial_cursor plan) ps \<and> dr_plan d = plan \<and>
     length ps \<le> dr_slots d \<and> dr_receipts d = receipts_of ps \<and>
     distinct (dr_delivered d) \<and> (\<forall>k \<in> set (dr_delivered d). k < length ps) \<and>
     (\<forall>s. dr_variables d = Some s \<longrightarrow> \<not> dr_failed d \<and> length ps = dr_slots d \<and>
        (\<forall>k < dr_slots d. k \<in> set (dr_delivered d)) \<and> cu_stop_reason (chain_cursor (initial_cursor plan) ps) \<noteq> None \<and>
        read_summary d (cu_stop_reason (chain_cursor (initial_cursor plan) ps)) = Inr s)"

definition results_ok :: "reader_config \<Rightarrow> part list \<Rightarrow> dask_graph \<Rightarrow> bool" where
  "results_ok cf ps g \<longleftrightarrow> (\<forall>k res. map_of (dg_results g) k = Some res \<longrightarrow>
     k < length ps \<and> snd res = snd (ps ! k) \<and> part_frame cf (ps ! k) = Inr (fst res))"

definition frames_ok :: "reader_config \<Rightarrow> part list \<Rightarrow> dask_graph \<Rightarrow> bool" where
  "frames_ok cf ps g \<longleftrightarrow> (\<not> dr_failed (dg_reader g) \<longrightarrow>
     (\<forall>k \<in> set (dr_delivered (dg_reader g)). \<exists>frame. map_of (dg_frames g) k = Some frame \<and> part_frame cf (ps ! k) = Inr frame))"

definition graph_ok :: "reader_config \<Rightarrow> topic_log \<Rightarrow> ReadPlan \<Rightarrow> part list \<Rightarrow> dask_graph \<Rightarrow> bool" where
  "graph_ok cf lg plan ps g \<longleftrightarrow> reader_ok cf lg plan ps (dg_reader g) \<and> results_ok cf ps g \<and> frames_ok cf ps g"

lemma read_summary_frame [simp]:
  "read_summary (d\<lparr>dr_delivered := x\<rparr>) reason = read_summary d reason"
  "read_summary (d\<lparr>dr_published := y\<rparr>) reason = read_summary d reason"
  "read_summary (d\<lparr>dr_variables := z\<rparr>) reason = read_summary d reason"
  by (simp_all add: read_summary_def)

lemma reader_ok_chain:
  assumes "reader_ok cf lg plan ps d"
  shows "chunk_chain (rf_fingerprint cf) lg plan [] (initial_cursor plan) ps" "dr_plan d = plan" "length ps \<le> dr_slots d"
    "dr_receipts d = receipts_of ps" "distinct (dr_delivered d)" "k \<in> set (dr_delivered d) \<Longrightarrow> k < length ps"
  using assms by (auto simp: reader_ok_def)

lemma reader_ok_published:
  assumes "reader_ok cf lg plan ps d" "dr_variables d = Some s"
  shows "\<not> dr_failed d" "length ps = dr_slots d" "k < dr_slots d \<Longrightarrow> k \<in> set (dr_delivered d)"
    "cu_stop_reason (chain_cursor (initial_cursor plan) ps) \<noteq> None"
    "read_summary d (cu_stop_reason (chain_cursor (initial_cursor plan) ps)) = Inr s"
  using assms by (auto simp: reader_ok_def)

lemma results_okD:
  "results_ok cf ps g \<Longrightarrow> map_of (dg_results g) k = Some res \<Longrightarrow>
   k < length ps \<and> snd res = snd (ps ! k) \<and> part_frame cf (ps ! k) = Inr (fst res)"
  unfolding results_ok_def by blast

lemma results_okI:
  "(\<And>k res. map_of (dg_results g) k = Some res \<Longrightarrow>
     k < length ps \<and> snd res = snd (ps ! k) \<and> part_frame cf (ps ! k) = Inr (fst res)) \<Longrightarrow> results_ok cf ps g"
  unfolding results_ok_def by blast

lemma reader_ok_invalidate: "reader_ok cf lg plan ps d \<Longrightarrow> reader_ok cf lg plan ps (invalidate d)"
  by (simp add: reader_ok_def invalidate_def)

lemma graph_ok_invalidate:
  "graph_ok cf lg plan ps g \<Longrightarrow> graph_ok cf lg plan ps (g\<lparr>dg_reader := invalidate (dg_reader g)\<rparr>)"
  by (simp add: graph_ok_def reader_ok_invalidate results_ok_def frames_ok_def) (simp add: invalidate_def)

section \<open>Reads\<close>

lemma chain_part:
  assumes "chunk_chain fp lg plan before cu ps" "k < length ps"
  shows "\<exists>before cu. receipt_ok fp lg plan before cu (fst (ps ! k)) (snd (ps ! k))"
  using assms
proof (induction ps arbitrary: before cu k)
  case (Cons p ps)
  then show ?case by (cases k) auto
qed simp

text \<open>A read task extends the sequence of chunks, or repeats one of its chunks.\<close>

lemma read_or_replay_ok:
  assumes "log_ok lg" "plan_ok plan" "gateway_env lg env" "graph_ok cf lg plan ps g"
    and "task_cursor g number = Some cursor" "read_or_replay cf env (dg_reader g) cursor number = Inr (ms, r)"
  shows "if number < length ps then (ms, r) = ps ! number
    else number = length ps \<and> cursor = chain_cursor (initial_cursor plan) ps \<and>
      chunk_chain (rf_fingerprint cf) lg plan [] (initial_cursor plan) (ps @ [(ms, r)])"
proof -
  let ?d = "dg_reader g"
  have ok: "reader_ok cf lg plan ps ?d" "results_ok cf ps g" using assms(4) by (simp_all add: graph_ok_def)
  note chain = reader_ok_chain [OF ok(1)]
  have reader: "log_reader (en_reads env) lg" by (rule gateway_env_log_reader [OF assms(1,3)])
  show ?thesis
  proof (cases "number < length ps")
    case True
    then have "replay_chunk (en_reads env) (en_chunk_cancelled env) (rf_fingerprint cf) plan (snd (ps ! number)) = Inr (ms, r)"
      using assms(6) by (simp add: read_or_replay_def chain map_of_receipts_of)
    moreover obtain before cu where "receipt_ok (rf_fingerprint cf) lg plan before cu (fst (ps ! number)) (snd (ps ! number))"
      using chain_part [OF chain(1) True] by blast
    ultimately show ?thesis
      using log_reader.replay_repeats [OF reader assms(2), of "rf_fingerprint cf" before cu "fst (ps ! number)" "snd (ps ! number)"
          "en_chunk_cancelled env"] True
      by simp
  next
    case False
    have cursor: "number = length ps \<and> cursor = chain_cursor (initial_cursor plan) ps"
    proof (cases number)
      case 0
      then show ?thesis using False assms(5) by (simp add: task_cursor_def chain(2))
    next
      case (Suc k)
      then obtain res where res: "map_of (dg_results g) k = Some res" "cursor = cr_cursor (snd res)"
        using assms(5) by (auto simp: task_cursor_def)
      then have "k < length ps" "snd res = snd (ps ! k)" using results_okD [OF ok(2)] by auto
      moreover from this have "length ps = Suc k" using False Suc by simp
      ultimately show ?thesis using res(2) Suc by (auto simp: chain_cursor_def last_conv_nth)
    qed
    have "read_chunk (en_reads env) (en_chunk_cancelled env) (rf_fingerprint cf) plan cursor number = Inr (ms, r)"
      using assms(6) False by (simp add: read_or_replay_def chain map_of_receipts_of)
    then have "receipt_ok (rf_fingerprint cf) lg plan (chain_messages ps) cursor ms r"
      using log_reader.chunk_reads [OF reader assms(2)] chain_cursor_ok [OF chain(1) initial_cursor_ok [OF assms(2)]] cursor
      by simp
    then show ?thesis using False cursor chain(1) by (simp add: chunk_chain_append)
  qed
qed

lemma reader_readE:
  assumes "reader_read cf env cursor number d = (Inr (frame, r), d')"
  obtains ms where "read_or_replay cf env d cursor number = Inr (ms, r)"
    "messages_to_dataframe (rf_codec cf) (rf_formats cf) ms = Inr frame"
    "d' = d\<lparr>dr_receipts := dict_put number r (dr_receipts d)\<rparr>" "\<not> dr_failed d"
  using assms
  by (auto simp: reader_read_def bind_result_eq_Inr_iff still_valid_def split: sum.splits if_splits prod.splits)

lemma reader_read_fails: "reader_read cf env cursor number d = (Inl e, d') \<Longrightarrow> d' = invalidate d"
  by (auto simp: reader_read_def split: sum.splits prod.splits)

lemma reader_ok_extend:
  assumes "reader_ok cf lg plan ps d" "length ps < dr_slots d"
    and "chunk_chain (rf_fingerprint cf) lg plan [] (initial_cursor plan) (ps @ [(ms, r)])"
  shows "reader_ok cf lg plan (ps @ [(ms, r)]) (d\<lparr>dr_receipts := dict_put (length ps) r (dr_receipts d)\<rparr>)"
proof -
  have "dr_variables d = None" using reader_ok_published(2) [OF assms(1)] assms(2) by (cases "dr_variables d") auto
  moreover have "dict_put (length ps) r (receipts_of ps) = receipts_of (ps @ [(ms, r)])"
    by (simp add: dict_put_new map_of_receipts_of receipts_of_snoc)
  ultimately show ?thesis using assms reader_ok_chain [OF assms(1)]
    by (auto simp: reader_ok_def less_Suc_eq)
qed

lemma run_read_ok:
  assumes "log_ok lg" "plan_ok plan" "gateway_env lg env" "graph_ok cf lg plan ps g"
    and "number < dr_slots (dg_reader g)" "task_cursor g number = Some cursor"
  shows "\<exists>ps'. graph_ok cf lg plan ps' (run_read cf env cursor number g)"
proof (cases "reader_read cf env cursor number (dg_reader g)")
  case (Pair out d)
  show ?thesis
  proof (cases out)
    case (Inl e)
    then show ?thesis using Pair reader_read_fails [of cf env cursor number "dg_reader g"] graph_ok_invalidate [OF assms(4)]
      by (auto simp: run_read_def)
  next
    case (Inr res)
    obtain frame r where res: "res = (frame, r)" by fastforce
    have run: "run_read cf env cursor number g = g\<lparr>dg_reader := d, dg_results := dict_put number (frame, r) (dg_results g)\<rparr>"
      using Pair Inr res by (simp add: run_read_def)
    obtain ms where ms: "read_or_replay cf env (dg_reader g) cursor number = Inr (ms, r)"
      "messages_to_dataframe (rf_codec cf) (rf_formats cf) ms = Inr frame"
      "d = (dg_reader g)\<lparr>dr_receipts := dict_put number r (dr_receipts (dg_reader g))\<rparr>"
      using reader_readE Pair Inr res by metis
    note step = read_or_replay_ok [OF assms(1-4,6) ms(1)]
    have ok: "reader_ok cf lg plan ps (dg_reader g)" "results_ok cf ps g" "frames_ok cf ps g"
      using assms(4) by (simp_all add: graph_ok_def)
    note chain = reader_ok_chain [OF ok(1)]
    show ?thesis
    proof (cases "number < length ps")
      case True
      then have part: "ps ! number = (ms, r)" using step by simp
      have "d = dg_reader g" using ms(3) part True by (simp add: chain dict_put_same map_of_receipts_of)
      moreover have "results_ok cf ps (g\<lparr>dg_results := dict_put number (frame, r) (dg_results g)\<rparr>)"
        using results_okD [OF ok(2)] True part ms(2) by (auto simp: results_ok_def dict_simps part_frame_def)
      ultimately have "graph_ok cf lg plan ps (run_read cf env cursor number g)"
        using ok by (simp add: run graph_ok_def results_ok_def frames_ok_def)
      then show ?thesis by blast
    next
      case False
      then have new: "number = length ps" "chunk_chain (rf_fingerprint cf) lg plan [] (initial_cursor plan) (ps @ [(ms, r)])"
        using step by auto
      have reader: "reader_ok cf lg plan (ps @ [(ms, r)]) d"
        using reader_ok_extend [OF ok(1) _ new(2)] assms(5) ms(3) new(1) by simp
      have results: "results_ok cf (ps @ [(ms, r)]) (run_read cf env cursor number g)"
      proof (rule results_okI)
        fix k res
        assume k: "map_of (dg_results (run_read cf env cursor number g)) k = Some res"
        show "k < length (ps @ [(ms, r)]) \<and> snd res = snd ((ps @ [(ms, r)]) ! k) \<and> part_frame cf ((ps @ [(ms, r)]) ! k) = Inr (fst res)"
          using k [unfolded run] ms(2) new(1) results_okD [OF ok(2), of k res]
          by (cases "k = number") (auto simp: dict_simps part_frame_def nth_append)
      qed
      have "frames_ok cf (ps @ [(ms, r)]) (run_read cf env cursor number g)"
        unfolding run using ok(3) chain(6) ms(3) by (auto simp: frames_ok_def nth_append)
      then have "graph_ok cf lg plan (ps @ [(ms, r)]) (run_read cf env cursor number g)"
        using reader results by (simp add: graph_ok_def run)
      then show ?thesis by blast
    qed
  qed
qed

section \<open>Deliveries and publication\<close>

lemma finish_outcome_valid: "finish_outcome env d = Inr x \<Longrightarrow> \<not> dr_failed d"
  by (auto simp: finish_outcome_def bind_result_eq_Inr_iff still_valid_def split: if_splits)

lemma reader_finish_ok:
  assumes "reader_ok cf lg plan ps d" "reader_finish env d = (out, d')"
  shows "reader_ok cf lg plan ps d' \<and> dr_delivered d' = dr_delivered d \<and> (\<forall>e. out = Inl e \<longrightarrow> dr_failed d') \<and>
    (dr_failed d' \<longrightarrow> (\<exists>e. out = Inl e)) \<and> (dr_failed d \<longrightarrow> dr_failed d')"
proof -
  note chain = reader_ok_chain [OF assms(1)]
  consider (fail) e where "out = Inl e" "d' = invalidate d"
    | (idle) "out = Inr ()" "d' = d" "\<not> dr_failed d"
    | (publish) summary where "out = Inr ()" "d' = d\<lparr>dr_published := True, dr_variables := Some summary\<rparr>"
        "finish_outcome env d = Inr (Some summary)"
    using assms(2) by (auto simp: reader_finish_def dest: finish_outcome_valid split: sum.splits option.splits)
  then show ?thesis
  proof cases
    case fail
    then show ?thesis using reader_ok_invalidate [OF assms(1)] by (simp add: invalidate_def)
  next
    case idle
    then show ?thesis using assms(1) by simp
  next
    case publish
    obtain terminal where t: "\<not> dr_failed d" "length ps = dr_slots d" "length (dr_delivered d) = dr_slots d"
      "dict_index (receipts_of ps) (dr_slots d - 1) = Inr terminal" "cu_stop_reason (cr_cursor terminal) \<noteq> None"
      "read_summary d (cu_stop_reason (cr_cursor terminal)) = Inr summary"
      using publish(3) by (auto simp: finish_outcome_def bind_result_eq_Inr_iff still_valid_def chain(4) split: if_splits)
    have "set (dr_delivered d) = {..<dr_slots d}"
      using chain(5,6) t(2,3) distinct_card [OF chain(5)] by (intro card_subset_eq) auto
    moreover have ne: "ps \<noteq> []" using t(2,4) by (auto simp: dict_index_def map_of_receipts_of split: if_splits)
    moreover have "terminal = snd (last ps)"
      using t(2,4) by (auto simp: dict_index_def map_of_receipts_of last_conv_nth [OF ne] split: if_splits)
    ultimately show ?thesis
      using publish t chain by (auto simp: reader_ok_def chain_cursor_def)
  qed
qed

lemma run_deliver_ok:
  assumes "graph_ok cf lg plan ps g" "map_of (dg_results g) number = Some res"
  shows "graph_ok cf lg plan ps (run_deliver env res number g)"
proof -
  let ?d = "(dg_reader g)\<lparr>dr_delivered := List.insert number (dr_delivered (dg_reader g))\<rparr>"
  have ok: "reader_ok cf lg plan ps (dg_reader g)" "results_ok cf ps g" "frames_ok cf ps g"
    using assms(1) by (simp_all add: graph_ok_def)
  note part = results_okD [OF ok(2) assms(2)]
  have "reader_ok cf lg plan ps ?d" using ok(1) part by (auto simp: reader_ok_def)
  moreover obtain out d where fin: "reader_finish env ?d = (out, d)" by fastforce
  ultimately have "reader_ok cf lg plan ps d \<and> dr_delivered d = dr_delivered ?d \<and> (\<forall>e. out = Inl e \<longrightarrow> dr_failed d) \<and>
      (dr_failed d \<longrightarrow> (\<exists>e. out = Inl e)) \<and> (dr_failed ?d \<longrightarrow> dr_failed d)"
    by (rule reader_finish_ok)
  then have d: "reader_ok cf lg plan ps d" "dr_delivered d = List.insert number (dr_delivered (dg_reader g))"
    "\<And>e. out = Inl e \<Longrightarrow> dr_failed d" "dr_failed d \<Longrightarrow> \<exists>e. out = Inl e" "dr_failed (dg_reader g) \<Longrightarrow> dr_failed d"
    by simp_all
  show ?thesis
  proof (cases out)
    case (Inl e)
    then have run: "run_deliver env res number g = g\<lparr>dg_reader := d\<rparr>" using fin by (simp add: run_deliver_def deliver_frame_def)
    show ?thesis using d(1,3) Inl ok(2) unfolding run by (simp add: graph_ok_def results_ok_def frames_ok_def)
  next
    case (Inr u)
    then have run: "run_deliver env res number g = g\<lparr>dg_reader := d, dg_frames := dict_put number (fst res) (dg_frames g)\<rparr>"
      using fin by (simp add: run_deliver_def deliver_frame_def)
    have valid: "\<not> dr_failed (dg_reader g)" using d(4,5) Inr by auto
    have "frames_ok cf ps (run_deliver env res number g)"
      using ok(3) valid part d(2) unfolding run by (auto simp: frames_ok_def dict_simps)
    then show ?thesis using d(1) ok(2) unfolding run by (simp add: graph_ok_def results_ok_def)
  qed
qed

section \<open>All reachable graphs\<close>

definition graph_init :: "topic_log \<Rightarrow> ReadPlan \<Rightarrow> dask_graph \<Rightarrow> bool" where
  "graph_init lg plan g \<longleftrightarrow> log_ok lg \<and> plan_ok plan \<and> (\<exists>limit d. make_reader plan limit = Inr d \<and> g = new_graph d)"

definition graph_inv :: "reader_config \<Rightarrow> topic_log \<Rightarrow> ReadPlan \<Rightarrow> dask_graph \<Rightarrow> bool" where
  "graph_inv cf lg plan g \<longleftrightarrow> log_ok lg \<and> plan_ok plan \<and>
     (\<exists>limit. read_slot_count plan limit = Inr (int (dr_slots (dg_reader g)))) \<and> (\<exists>ps. graph_ok cf lg plan ps g)"

lemma dr_slots_invalidate [simp]: "dr_slots (invalidate d) = dr_slots d"
  by (simp add: invalidate_def)

lemma dr_slots_finish [simp]: "dr_slots (snd (reader_finish env d)) = dr_slots d"
  by (auto simp: reader_finish_def split: sum.splits option.splits)

lemma dr_slots_run [simp]:
  "dr_slots (dg_reader (run_read cf env cursor number g)) = dr_slots (dg_reader g)"
  "dr_slots (dg_reader (run_deliver env res number g)) = dr_slots (dg_reader g)"
proof -
  show "dr_slots (dg_reader (run_read cf env cursor number g)) = dr_slots (dg_reader g)"
    by (auto simp: run_read_def reader_read_def split: sum.splits prod.splits)
  have "dr_slots d' = dr_slots d" if "reader_finish env d = (out, d')" for d d' out
    using dr_slots_finish [of env d] that by simp
  then show "dr_slots (dg_reader (run_deliver env res number g)) = dr_slots (dg_reader g)"
    by (fastforce simp: run_deliver_def deliver_frame_def split: sum.splits prod.splits)
qed

lemma read_slot_count_pos:
  assumes "plan_ok plan" "read_slot_count plan limit = Inr slots"
  shows "1 \<le> slots"
proof -
  let ?l = "rp_limits plan"
  have l: "0 < lm_rows_per_partition ?l" "0 < lm_target_partition_bytes ?l" "0 < lm_max_message_bytes ?l"
    using assms(1) by (auto simp: plan_ok_def limits_ok_def)
  have "0 \<le> (\<Sum>r\<leftarrow>rp_ranges plan. rg_end r - rg_start r)"
    using assms(1) by (intro sum_list_nonneg) (auto simp: plan_ok_def list_all_iff)
  then have c: "0 \<le> planned_count plan"
    using assms(1) by (auto simp: planned_count_def Let_def plan_ok_def limits_ok_def split: option.splits)
  then have "0 \<le> planned_size plan"
    using assms(1) l(3) by (auto simp: planned_size_def Let_def plan_ok_def limits_ok_def split: option.splits)
  then have "0 \<le> ceil_div (planned_size plan) (lm_target_partition_bytes ?l)" "0 \<le> ceil_div (planned_count plan) (lm_rows_per_partition ?l)"
    using l c by (simp_all add: ceil_div_def pos_imp_zdiv_nonneg_iff)
  then show ?thesis using assms(2) c by (auto simp: read_slot_count_def Let_def split: if_splits)
qed

interpretation reading: inductive_invariant "graph_init lg plan" "graph_step (gateway_env lg) cf" "graph_inv cf lg plan"
  for lg plan cf
proof unfold_locales
  fix g
  assume "graph_init lg plan g"
  then obtain limit d slots where init: "log_ok lg" "plan_ok plan" "g = new_graph d" "read_slot_count plan limit = Inr slots"
    "d = \<lparr>dr_plan = plan, dr_slots = nat slots, dr_receipts = [], dr_delivered = [], dr_failed = False,
       dr_published = False, dr_variables = None\<rparr>"
    by (auto simp: graph_init_def make_reader_def bind_result_eq_Inr_iff)
  then have "graph_ok cf lg plan [] g"
    by (simp add: graph_ok_def reader_ok_def results_ok_def frames_ok_def new_graph_def receipts_of_def)
  then show "graph_inv cf lg plan g"
    using init read_slot_count_pos [OF init(2,4)] by (auto simp: graph_inv_def new_graph_def)
next
  fix g e g'
  assume inv: "graph_inv cf lg plan g" and step: "graph_step (gateway_env lg) cf g e g'"
  then obtain ps where ok: "log_ok lg" "plan_ok plan" "graph_ok cf lg plan ps g"
    by (auto simp: graph_inv_def)
  from step have "\<exists>ps'. graph_ok cf lg plan ps' g'"
  proof cases
    case (read_task env number cursor)
    then show ?thesis using run_read_ok [OF ok(1,2) _ ok(3)] by simp
  next
    case (release_result number)
    then show ?thesis using ok(3) by (intro exI [of _ ps]) (auto simp: graph_ok_def frames_ok_def dict_simps
          intro!: results_okI dest: results_okD split: if_splits)
  next
    case (frame_task number res env)
    then show ?thesis using run_deliver_ok [OF ok(3)] by blast
  next
    case (on_end env)
    obtain out d where fin: "reader_finish env (dg_reader g) = (out, d)" by fastforce
    have "reader_ok cf lg plan ps (dg_reader g)" using ok(3) by (simp add: graph_ok_def)
    from reader_finish_ok [OF this fin] have "graph_ok cf lg plan ps g'"
      using on_end fin ok(3) by (auto simp: graph_ok_def results_ok_def frames_ok_def)
    then show ?thesis by blast
  next
    case on_error
    then show ?thesis using graph_ok_invalidate [OF ok(3)] by blast
  qed
  moreover have "dr_slots (dg_reader g') = dr_slots (dg_reader g)" using step by cases auto
  ultimately show "graph_inv cf lg plan g'" using inv by (auto simp: graph_inv_def)
qed

end
