(* ===== verification/Kafka_Broker.thy ===== *)
theory Kafka_Broker
  imports Kafka_Graph
begin

text \<open>
  A broker that satisfies the laws assumed of the client: it numbers the entries of a partition from
  zero, an entry being a record or a transaction marker that readers do not see, and answers every
  poll with the visible records of the next entries. It shows that the laws are consistent for every
  content of the log, and the examples of the properties run on it.
\<close>

type_synonym entries = "TopicPartition \<Rightarrow> ConsumerRecord option list"

definition stamp :: "TopicPartition \<Rightarrow> nat \<Rightarrow> ConsumerRecord \<Rightarrow> ConsumerRecord" where
  "stamp tp i r = r\<lparr>sr_topic := tp_topic tp, sr_partition := tp_partition tp, sr_offset := int i\<rparr>"

definition broker_records :: "entries \<Rightarrow> TopicPartition \<Rightarrow> ConsumerRecord list" where
  "broker_records entries tp =
     (if is_blank (tp_topic tp) \<or> tp_partition tp < 0 then []
      else map (\<lambda>(i, e). stamp tp i (the e)) (filter (\<lambda>(i, e). e \<noteq> None) (zip [0..<length (entries tp)] (entries tp))))"

definition broker_log :: "entries \<Rightarrow> topic_log" where
  "broker_log entries tp = map (\<lambda>r. projr (message_from_sdk r)) (broker_records entries tp)"

definition broker_poll ::
  "entries \<Rightarrow> nat \<Rightarrow> TopicPartition \<Rightarrow> int \<Rightarrow> int \<Rightarrow> (sdk_error, ConsumerRecord list) result \<times> int" where
  "broker_poll entries t tp a n =
     (let b = max a (min (a + max n 0) (int (length (entries tp))))
      in (Inr (filter (\<lambda>r. a \<le> sr_offset r \<and> sr_offset r < b) (broker_records entries tp)), b))"

definition broker_sdk :: "entries \<Rightarrow> kafka_sdk" where
  "broker_sdk entries =
     \<lparr>sk_cancelled = (\<lambda>t. False), sk_wait_cancelled = (\<lambda>t. False), sk_patience = 30, sk_connect = (\<lambda>t. Inr ()),
      sk_partitions_for_topic = (\<lambda>t topic. Inr (Some [0])), sk_describe_cluster = (\<lambda>t. Inr None),
      sk_beginning_offsets = (\<lambda>t tps. Inr (map (\<lambda>tp. (tp, 0)) tps)),
      sk_end_offsets = (\<lambda>t tps. Inr (map (\<lambda>tp. (tp, int (length (entries tp)))) tps)),
      sk_offsets_for_times = (\<lambda>t times. Inr (map (\<lambda>(tp, ms). (tp, None)) times)),
      sk_committed = (\<lambda>t group_id tp. Inr None), sk_commit = (\<lambda>t group_id offsets. Inr ()),
      sk_poll = broker_poll entries, sk_position = (\<lambda>t. Inr ())\<rparr>"

lemma stamped_message:
  assumes "r \<in> set (broker_records entries tp)"
  shows "\<exists>m. message_from_sdk r = Inr m \<and> rm_offset m = sr_offset r \<and> rm_topic_partition m = tp \<and> 0 \<le> sr_offset r"
  using assms
  by (auto simp: broker_records_def stamp_def message_from_sdk_def make_TopicPartition_Inr bind_result_eq_Inr_iff split: if_splits)

lemma broker_offsets_sorted: "sorted_wrt (<) (map sr_offset (broker_records entries tp))"
proof -
  let ?xs = "zip [0..<length (entries tp)] (entries tp)"
  have "sorted_wrt (<) (map fst ?xs)" by simp
  then have "sorted_wrt (\<lambda>x y. fst x < fst y) (filter (\<lambda>(i, e). e \<noteq> None) ?xs)"
    unfolding sorted_wrt_map by (rule sorted_wrt_filter)
  then show ?thesis
    by (auto simp: broker_records_def sorted_wrt_map stamp_def case_prod_beta)
qed

lemma broker_delivers: "sdk_delivers (broker_log entries) (broker_sdk entries)"
proof -
  have "map_result message_from_sdk (filter P rs) = Inr (filter Q (map (\<lambda>r. projr (message_from_sdk r)) rs))"
    if "\<And>r. r \<in> set rs \<Longrightarrow> \<exists>m. message_from_sdk r = Inr m \<and> P r = Q m" for P Q and rs :: "ConsumerRecord list"
    using that
  proof (induction rs)
    case (Cons r rs)
    obtain m where "message_from_sdk r = Inr m" "P r = Q m" using Cons.prems [of r] by auto
    then show ?case using Cons.IH Cons.prems by simp
  qed simp
  note all = this
  show ?thesis unfolding sdk_delivers_def
  proof (intro allI impI conjI)
    fix t tp a n records b
    assume poll: "sk_poll (broker_sdk entries) t tp a n = (Inr records, b)"
    then show "a \<le> b" by (auto simp: broker_sdk_def broker_poll_def Let_def)
    show "map_result message_from_sdk records = Inr (segment (broker_log entries) tp a b)"
      using poll all [of "broker_records entries tp" "\<lambda>r. a \<le> sr_offset r \<and> sr_offset r < b" "\<lambda>m. a \<le> rm_offset m \<and> rm_offset m < b"]
        stamped_message [of _ entries tp]
      by (fastforce simp: broker_sdk_def broker_poll_def Let_def segment_def broker_log_def)
  qed
qed

lemma broker_log_ok: "log_ok (broker_log entries)"
proof -
  have "map rm_offset (broker_log entries tp) = map sr_offset (broker_records entries tp)" for tp
    using stamped_message [of _ entries tp] by (fastforce simp: broker_log_def)
  moreover have "rm_topic_partition m = tp \<and> 0 \<le> rm_offset m" if "m \<in> set (broker_log entries tp)" for m tp
    using that stamped_message [of _ entries tp] by (fastforce simp: broker_log_def)
  ultimately show ?thesis using broker_offsets_sorted by (simp add: log_ok_def list_all_iff)
qed

interpretation broker: kafka_client "\<lambda>now. broker_sdk entries" attempts "broker_log entries" for entries attempts
  by unfold_locales (rule broker_log_ok, rule broker_delivers)

end
