(* ===== verification/Kafka_Safety.thy ===== *)
theory Kafka_Safety
  imports Kafka_Broker
begin

text \<open>
  The properties of Kafka consumption: what the gateway reads, why the planned tasks suffice, that
  recomputed tasks agree, what a published summary says, and how offsets are committed.
\<close>

section \<open>Reading\<close>

lemma reachable_graph:
  assumes "reach (graph_init lg plan) (graph_step (gateway_env lg) cf) g"
  obtains ps limit where "log_ok lg" "plan_ok plan" "read_slot_count plan limit = Inr (int (dr_slots (dg_reader g)))"
    "graph_ok cf lg plan ps g"
  using reading.inv_reach [OF assms] by (auto simp: graph_inv_def)

lemma terminal_part:
  assumes "log_ok lg" "plan_ok plan" "read_slot_count plan limit = Inr (int slots)"
    and "chunk_chain fp lg plan [] (initial_cursor plan) ps" "length ps = slots" "0 < slots"
  shows "cu_stop_reason (cr_cursor (snd (ps ! (slots - 1)))) \<noteq> None"
proof
  have ne: "ps \<noteq> []" using assms(5,6) by auto
  assume "cu_stop_reason (cr_cursor (snd (ps ! (slots - 1)))) = None"
  then have "cu_stop_reason (chain_cursor (initial_cursor plan) ps) = None"
    using ne assms(5) by (simp add: chain_cursor_def last_conv_nth)
  from open_chain_shorter [OF assms(1,2,4) ne this assms(3)] show False using assms(5) by simp
qed

section \<open>Commits\<close>

lemma commit_decision_Inr:
  assumes "commit_decision bounds current (part, tp) = Inr r"
  obtains b e c where "map_of bounds tp = Some (b, e)" "map_of current tp = Some c" "0 \<le> po_next_offset part"
    "po_next_offset part \<le> e" "pc_requested r = po_next_offset part"
    "pc_status r = Committed \<longleftrightarrow> (case c of None \<Rightarrow> True | Some x \<Rightarrow> x < po_next_offset part)"
  using assms
  by (fastforce simp: commit_decision_def dict_index_def monotonic_commit_def bind_result_eq_Inr_iff Let_def
      dest!: validate_position_Inr split: option.splits if_splits)

lemma check_summary_Inr:
  assumes "check_summary s = Inr tps"
  shows "tps = map (\<lambda>o'. \<lparr>tp_topic = rs_topic s, tp_partition = po_partition o'\<rparr>) (rs_partitions s)" "distinct tps"
proof -
  have "list_all2 (\<lambda>o' tp. make_TopicPartition (rs_topic s) (po_partition o') = Inr tp) (rs_partitions s) tps" and "distinct tps"
    using assms by (auto simp: check_summary_def bind_result_eq_Inr_iff map_result_Inr_iff split: if_splits)
  then show "tps = map (\<lambda>o'. \<lparr>tp_topic = rs_topic s, tp_partition = po_partition o'\<rparr>) (rs_partitions s)"
    by (induction rule: list_all2_induct) (auto simp: make_TopicPartition_Inr)
  show "distinct tps" by fact
qed

text \<open>The decisions of a commit, partition by partition.\<close>

lemma commit_decisionsE:
  assumes "commit_decisions gw cancelled s = Inr ds" "ds \<noteq> []"
  obtains tps bounds current where "check_summary s = Inr tps" "kg_bounds gw tps (rs_isolation_level s) = Inr bounds"
    "kg_committed gw (rs_group_id s) tps = Inr current"
    "list_all2 (\<lambda>(o', tp) d. fst d = tp \<and> commit_decision bounds current (o', tp) = Inr (snd d)) (zip (rs_partitions s) tps) ds"
proof -
  obtain tps bounds current decisions where *: "check_summary s = Inr tps" "kg_bounds gw tps (rs_isolation_level s) = Inr bounds"
    "kg_committed gw (rs_group_id s) tps = Inr current" "ds = zip tps decisions"
    "list_all2 (\<lambda>p d. commit_decision bounds current p = Inr d) (zip (rs_partitions s) tps) decisions"
    using assms by (auto simp: commit_decisions_def bind_result_eq_Inr_iff map_result_Inr_iff split: if_splits)
  have len: "length (rs_partitions s) = length tps" using check_summary_Inr(1) [OF *(1)] by simp
  have "list_all2 (\<lambda>(o', tp) d. fst d = tp \<and> commit_decision bounds current (o', tp) = Inr (snd d)) (zip (rs_partitions s) tps) ds"
    using *(4,5) len by (auto simp: list_all2_conv_all_nth)
  then show ?thesis using that [OF *(1-3)] by blast
qed

lemma commit_offsets_Inr:
  assumes "commit_offsets gw cancelled s = (out, positions)" "positions \<noteq> [] \<or> (\<exists>r. out = Inr r)"
  obtains ds where "commit_decisions gw cancelled s = Inr ds" "positions = commit_positions ds"
  using assms
  by (auto simp: commit_offsets_def commit_positions_def Let_def split: sum.splits list.splits if_splits)

text \<open>The positions of a group after a request of which the broker saved the partitions \<open>saved\<close>.\<close>

definition committed_after ::
  "(TopicPartition \<Rightarrow> int option) \<Rightarrow> (TopicPartition, int) dict \<Rightarrow> TopicPartition set \<Rightarrow> TopicPartition \<Rightarrow> int option" where
  "committed_after stored positions saved tp =
     (case map_of positions tp of Some p \<Rightarrow> if tp \<in> saved then Some p else stored tp | None \<Rightarrow> stored tp)"

definition reports_group :: "kafka_gateway \<Rightarrow> (TopicPartition \<Rightarrow> int option) \<Rightarrow> bool" where
  "reports_group gw stored \<longleftrightarrow>
     (\<forall>group_id tps. kg_committed gw group_id tps = Inr (map (\<lambda>tp. (tp, stored tp)) tps))"

lemma map_of_graph: "map_of (map (\<lambda>tp. (tp, f tp)) tps) tp = (if tp \<in> set tps then Some (f tp) else None)"
  by (induction tps) auto

text \<open>One decision against the positions of the group.\<close>

lemma commit_decisions_nth:
  assumes "commit_decisions gw cancelled s = Inr ds" "reports_group gw stored" "d \<in> set ds"
  obtains o' bounds b e where "o' \<in> set (rs_partitions s)" "fst d = \<lparr>tp_topic = rs_topic s, tp_partition = po_partition o'\<rparr>"
    "kg_bounds gw (map (\<lambda>o'. \<lparr>tp_topic = rs_topic s, tp_partition = po_partition o'\<rparr>) (rs_partitions s)) (rs_isolation_level s) = Inr bounds"
    "map_of bounds (fst d) = Some (b, e)" "0 \<le> po_next_offset o'" "po_next_offset o' \<le> e" "pc_requested (snd d) = po_next_offset o'"
    "pc_status (snd d) = Committed \<longleftrightarrow> (case stored (fst d) of None \<Rightarrow> True | Some x \<Rightarrow> x < po_next_offset o')"
proof -
  have "ds \<noteq> []" using assms(3) by auto
  then obtain tps bounds current where ds: "check_summary s = Inr tps" "kg_bounds gw tps (rs_isolation_level s) = Inr bounds"
    "kg_committed gw (rs_group_id s) tps = Inr current"
    "list_all2 (\<lambda>(o', tp) d. fst d = tp \<and> commit_decision bounds current (o', tp) = Inr (snd d)) (zip (rs_partitions s) tps) ds"
    by (rule commit_decisionsE [OF assms(1)])
  note tps = check_summary_Inr [OF ds(1)]
  obtain i where i: "i < length ds" "d = ds ! i" using assms(3) by (auto simp: in_set_conv_nth)
  have len: "length tps = length (rs_partitions s)" "i < length (rs_partitions s)"
    using tps(1) i list_all2_lengthD [OF ds(4)] by auto
  let ?o = "rs_partitions s ! i"
  have tp: "fst d = tps ! i" and dec: "commit_decision bounds current (?o, tps ! i) = Inr (snd d)"
    using list_all2_nthD2 [OF ds(4) i(1)] len i(2) by auto
  have cur: "map_of current (tps ! i) = Some (stored (tps ! i))"
    using assms(2) ds(3) len by (auto simp: reports_group_def map_of_graph)
  have o': "?o \<in> set (rs_partitions s)" "tps ! i = \<lparr>tp_topic = rs_topic s, tp_partition = po_partition ?o\<rparr>"
    using tps(1) len by auto
  from dec show ?thesis
  proof (rule commit_decision_Inr)
    fix b e c
    assume *: "map_of bounds (tps ! i) = Some (b, e)" "map_of current (tps ! i) = Some c" "0 \<le> po_next_offset ?o"
      "po_next_offset ?o \<le> e" "pc_requested (snd d) = po_next_offset ?o"
      "pc_status (snd d) = Committed \<longleftrightarrow> (case c of None \<Rightarrow> True | Some x \<Rightarrow> x < po_next_offset ?o)"
    show ?thesis
      by (rule that [of ?o bounds b e]) (use * cur o' tp ds(2) tps(1) in simp_all)
  qed
qed

definition summary_tps :: "ReadSummary \<Rightarrow> TopicPartition list" where
  "summary_tps s = map (\<lambda>o'. \<lparr>tp_topic = rs_topic s, tp_partition = po_partition o'\<rparr>) (rs_partitions s)"

lemma decided_partitions:
  assumes "commit_decisions gw cancelled s = Inr ds"
  shows "map fst ds = summary_tps s" "distinct (summary_tps s)"
proof -
  obtain tps where tps: "check_summary s = Inr tps" "tps = [] \<longrightarrow> ds = []"
    using assms by (auto simp: commit_decisions_def bind_result_eq_Inr_iff split: if_splits)
  note tps' = check_summary_Inr [OF tps(1), folded summary_tps_def]
  then show "distinct (summary_tps s)" by simp
  show "map fst ds = summary_tps s"
  proof (cases "ds = []")
    case True
    then have "tps = []"
      using assms tps(1) tps'(1) by (auto simp: commit_decisions_def bind_result_eq_Inr_iff map_result_Inr_iff summary_tps_def
          dest!: list_all2_lengthD split: if_splits)
    then show ?thesis using True tps'(1) by simp
  next
    case False
    then show ?thesis
    proof (rule commit_decisionsE [OF assms])
      fix us bounds current
      assume us: "check_summary s = Inr us"
        and ds: "list_all2 (\<lambda>(o', tp) d. fst d = tp \<and> commit_decision bounds current (o', tp) = Inr (snd d)) (zip (rs_partitions s) us) ds"
      have "map fst ds = map snd (zip (rs_partitions s) us)"
        using ds by (induction rule: list_all2_induct) auto
      moreover have "us = summary_tps s" using us tps(1) tps'(1) by simp
      moreover from this have "length (rs_partitions s) = length us" by (simp add: summary_tps_def)
      ultimately show ?thesis by simp
    qed
  qed
qed

lemma commit_positions_mem: "(tp, p) \<in> set (commit_positions ds) \<longleftrightarrow> (\<exists>r. (tp, r) \<in> set ds \<and> pc_status r = Committed \<and> p = pc_requested r)"
  by (auto simp: commit_positions_def image_iff)

lemma map_of_commit_positions:
  assumes "distinct (map fst ds)" "(tp, r) \<in> set ds" "pc_status r = Committed"
  shows "map_of (commit_positions ds) tp = Some (pc_requested r)"
proof -
  have "distinct (map fst (commit_positions ds))"
    using assms(1) by (simp add: commit_positions_def comp_def case_prod_beta distinct_map_filter)
  then show ?thesis using assms(2,3) by (auto simp: commit_positions_mem)
qed

text \<open>A submitted position lies above the position of the group.\<close>

lemma submitted_position:
  assumes "reports_group gw stored" "commit_offsets gw cancelled s = (out, positions)" "(tp, p) \<in> set positions"
  shows "\<exists>o' \<in> set (rs_partitions s). tp = \<lparr>tp_topic = rs_topic s, tp_partition = po_partition o'\<rparr> \<and> p = po_next_offset o' \<and> 0 \<le> p \<and>
      (\<exists>bounds b e. kg_bounds gw (summary_tps s) (rs_isolation_level s) = Inr bounds \<and> map_of bounds tp = Some (b, e) \<and> p \<le> e) \<and>
      (\<forall>c. stored tp = Some c \<longrightarrow> c < p)"
proof -
  have "positions \<noteq> []" using assms(3) by auto
  then obtain ds where ds: "commit_decisions gw cancelled s = Inr ds" "positions = commit_positions ds"
    using commit_offsets_Inr [OF assms(2)] by blast
  obtain r where r: "(tp, r) \<in> set ds" "pc_status r = Committed" "p = pc_requested r"
    using assms(3) ds(2) by (auto simp: commit_positions_mem)
  from ds(1) assms(1) r(1) show ?thesis
  proof (rule commit_decisions_nth)
    fix o' bounds b e
    assume "o' \<in> set (rs_partitions s)" "fst (tp, r) = \<lparr>tp_topic = rs_topic s, tp_partition = po_partition o'\<rparr>"
      "kg_bounds gw (map (\<lambda>o'. \<lparr>tp_topic = rs_topic s, tp_partition = po_partition o'\<rparr>) (rs_partitions s)) (rs_isolation_level s) = Inr bounds"
      "map_of bounds (fst (tp, r)) = Some (b, e)" "0 \<le> po_next_offset o'" "po_next_offset o' \<le> e"
      "pc_requested (snd (tp, r)) = po_next_offset o'"
      "pc_status (snd (tp, r)) = Committed \<longleftrightarrow> (case stored (fst (tp, r)) of None \<Rightarrow> True | Some x \<Rightarrow> x < po_next_offset o')"
    then show ?thesis using r(2,3) by (intro bexI [of _ o']) (auto simp: summary_tps_def)
  qed
qed

lemma committed_after_mono:
  assumes "reports_group gw stored" "commit_offsets gw cancelled s = (out, positions)" "stored tp = Some c"
  shows "\<exists>c'. committed_after stored positions saved tp = Some c' \<and> c \<le> c'"
proof (cases "map_of positions tp")
  case (Some p)
  then have "c < p" using submitted_position [OF assms(1,2) map_of_SomeD [OF Some]] assms(3) by auto
  then show ?thesis using Some assms(3) by (auto simp: committed_after_def)
qed (use assms(3) in \<open>auto simp: committed_after_def\<close>)

lemma summary_tps_inj:
  assumes "distinct (summary_tps s)" "o1 \<in> set (rs_partitions s)" "o2 \<in> set (rs_partitions s)" "po_partition o1 = po_partition o2"
  shows "o1 = o2"
  using assms by (auto simp: summary_tps_def distinct_map dest: inj_onD)

lemma decision_repeated:
  assumes "reports_group gw stored" "commit_decisions gw cancelled s = Inr ds" "d \<in> set ds"
    and "reports_group gw' stored'" "commit_decisions gw' cancelled' s = Inr ds'" "d' \<in> set ds'" "fst d' = fst d"
  obtains n where "pc_requested (snd d) = n" "pc_requested (snd d') = n"
    "pc_status (snd d) = Committed \<longleftrightarrow> (case stored (fst d) of None \<Rightarrow> True | Some x \<Rightarrow> x < n)"
    "pc_status (snd d') = Committed \<longleftrightarrow> (case stored' (fst d) of None \<Rightarrow> True | Some x \<Rightarrow> x < n)"
proof -
  obtain o1 where o1: "o1 \<in> set (rs_partitions s)" "fst d = \<lparr>tp_topic = rs_topic s, tp_partition = po_partition o1\<rparr>"
    "pc_requested (snd d) = po_next_offset o1"
    "pc_status (snd d) = Committed \<longleftrightarrow> (case stored (fst d) of None \<Rightarrow> True | Some x \<Rightarrow> x < po_next_offset o1)"
    by (rule commit_decisions_nth [OF assms(2,1,3)])
  obtain o2 where o2: "o2 \<in> set (rs_partitions s)" "fst d' = \<lparr>tp_topic = rs_topic s, tp_partition = po_partition o2\<rparr>"
    "pc_requested (snd d') = po_next_offset o2"
    "pc_status (snd d') = Committed \<longleftrightarrow> (case stored' (fst d') of None \<Rightarrow> True | Some x \<Rightarrow> x < po_next_offset o2)"
    by (rule commit_decisions_nth [OF assms(5,4,6)])
  have "o1 = o2" using summary_tps_inj [OF decided_partitions(2) [OF assms(2)] o1(1) o2(1)] o1(2) o2(2) assms(7) by simp
  then show ?thesis using o1(3,4) o2(3,4) assms(7) by (intro that) auto
qed

lemma commit_again:
  assumes "reports_group gw stored" "commit_offsets gw cancelled s = (out, positions)" "positions \<noteq> [] \<or> (\<exists>r. out = Inr r)"
    and "reports_group gw' (committed_after stored positions UNIV)"
  shows "snd (commit_offsets gw' cancelled' s) = []"
proof (rule ccontr)
  obtain out' positions' where again: "commit_offsets gw' cancelled' s = (out', positions')" by fastforce
  assume "snd (commit_offsets gw' cancelled' s) \<noteq> []"
  then have ne: "positions' \<noteq> []" using again by simp
  obtain ds where ds: "commit_decisions gw cancelled s = Inr ds" "positions = commit_positions ds"
    using commit_offsets_Inr [OF assms(2,3)] by blast
  obtain ds' where ds': "commit_decisions gw' cancelled' s = Inr ds'" "positions' = commit_positions ds'"
    using commit_offsets_Inr [OF again] ne by blast
  obtain tp r' where r': "(tp, r') \<in> set ds'" "pc_status r' = Committed"
    using ne ds'(2) by (auto simp: commit_positions_def filter_empty_conv)
  have "tp \<in> fst ` set ds'" using r'(1) by (rule image_eqI [rotated]) simp
  then have "tp \<in> set (map fst ds)" using decided_partitions(1) [OF ds(1)] decided_partitions(1) [OF ds'(1)] by (metis set_map)
  then obtain r where r: "(tp, r) \<in> set ds" by auto
  obtain n where n: "pc_requested r = n" "pc_status r = Committed \<longleftrightarrow> (case stored tp of None \<Rightarrow> True | Some x \<Rightarrow> x < n)"
    "case committed_after stored positions UNIV tp of None \<Rightarrow> True | Some x \<Rightarrow> x < n"
    by (rule decision_repeated [OF assms(1) ds(1) r assms(4) ds'(1) r'(1)]) (use r'(2) in auto)
  show False
  proof (cases "pc_status r = Committed")
    case True
    have "distinct (map fst ds)" using decided_partitions [OF ds(1)] by simp
    then have "committed_after stored positions UNIV tp = Some n"
      using map_of_commit_positions [OF _ r True] n(1) ds(2) by (simp add: committed_after_def)
    then show False using n(3) by simp
  next
    case False
    then obtain x where x: "stored tp = Some x" "n \<le> x" using n(2) by (auto split: option.splits)
    then show False using committed_after_mono [OF assms(1,2) x(1), of UNIV] n(3) by auto
  qed
qed

section \<open>An example\<close>

text \<open>
  A partition with two messages and a transaction marker between them, read in parts of one row, by
  a client whose first poll fails and moves the fetch position.
\<close>

definition orders_tp :: TopicPartition where
  "orders_tp = \<lparr>tp_topic = ''orders'', tp_partition = 0\<rparr>"

definition orders_record :: "nat \<Rightarrow> ConsumerRecord" where
  "orders_record v = \<lparr>sr_topic = ''orders'', sr_partition = 0, sr_offset = 0, sr_timestamp = Some 5, sr_timestamp_type = Some 0,
     sr_key = None, sr_value = Some [v, v], sr_headers = None\<rparr>"

definition orders_entries :: entries where
  "orders_entries tp = (if tp = orders_tp then [Some (orders_record 65), None, Some (orders_record 66)] else [None, None])"

definition orders_sdk :: kafka_sdk where
  "orders_sdk = (broker_sdk orders_entries)\<lparr>sk_poll := (\<lambda>t tp a n.
     if t < 9 then (Inl (OtherKafkaError True), a + 2) else broker_poll orders_entries t tp a n)\<rparr>"

definition orders_plan :: ReadPlan where
  "orders_plan = \<lparr>rp_read_id = ''r'', rp_topic = ''orders'', rp_group_id = ''g'',
     rp_ranges = [\<lparr>rg_topic_partition = orders_tp, rg_start = 0, rg_end = 3\<rparr>],
     rp_limits = \<lparr>lm_max_messages = Some 5, lm_max_bytes = None, lm_rows_per_partition = 1,
       lm_target_partition_bytes = 100, lm_max_message_bytes = 10\<rparr>,
     rp_isolation_level = ''read_committed'', rp_cluster_id = None, rp_connection_id = None\<rparr>"

definition orders_config :: reader_config where
  "orders_config = \<lparr>rf_fingerprint = (\<lambda>ms. concat (map (\<lambda>m. digits (nat (rm_offset m))) ms)),
     rf_codec = \<lparr>cd_known = (\<lambda>e. True), cd_decode = (\<lambda>e bs. Some (map char_of bs))\<rparr>,
     rf_formats = \<lparr>kf_key_format = ''binary'', kf_value_format = ''text'', kf_key_encoding = ''utf-8'',
       kf_value_encoding = ''utf-8'', kf_timestamp_unit = ''ns''\<rparr>\<rparr>"

definition orders_env :: reader_env where
  "orders_env = \<lparr>en_cancelled = False, en_reads = kg_read (kafka_python_gateway (\<lambda>now. orders_sdk) 3),
     en_chunk_cancelled = (\<lambda>now. False), en_publish = Inr ()\<rparr>"

definition orders_start :: dask_graph where
  "orders_start = new_graph (projr (make_reader orders_plan 100))"

definition orders_task :: "nat \<Rightarrow> dask_graph \<Rightarrow> dask_graph" where
  "orders_task k g = run_read orders_config orders_env (the (task_cursor g k)) k g"

definition orders_frame :: "nat \<Rightarrow> dask_graph \<Rightarrow> dask_graph" where
  "orders_frame k g = run_deliver orders_env (the (map_of (dg_results g) k)) k g"

definition orders_graph :: "nat \<Rightarrow> dask_graph" where
  "orders_graph n = fold (\<lambda>f g. f g)
     (take n [orders_task 0, orders_task 1, orders_task 2, orders_frame 0, orders_frame 1, orders_frame 2]) orders_start"

definition orders_request :: read_request where
  "orders_request = \<lparr>rq_range = \<lparr>rg_topic_partition = orders_tp, rg_start = 0, rg_end = 3\<rparr>, rq_isolation_level = ''read_committed'',
     rq_max_records = 5, rq_max_bytes = None, rq_total_max_bytes = None, rq_target_bytes = 100, rq_max_message_bytes = 10\<rparr>"

definition orders_stored :: "TopicPartition \<Rightarrow> int option" where
  "orders_stored tp = (if tp = orders_tp then Some 1 else Some 2)"

definition orders_gateway :: "(TopicPartition \<Rightarrow> int option) \<Rightarrow> kafka_gateway" where
  "orders_gateway stored = (kafka_python_gateway (\<lambda>now. broker_sdk orders_entries) 3)\<lparr>kg_partitions := (\<lambda>topic. Inr [0, 1]),
     kg_committed := (\<lambda>group_id tps. Inr (map (\<lambda>tp. (tp, stored tp)) tps))\<rparr>"

definition orders_offsets :: "int \<Rightarrow> int \<Rightarrow> PartitionOffsets" where
  "orders_offsets part next_offset = \<lparr>po_partition = part, po_next_offset = next_offset, po_start_offset = None,
     po_last_message_offset = None, po_message_count = None, po_payload_bytes = None\<rparr>"

definition orders_summary :: ReadSummary where
  "orders_summary = \<lparr>rs_topic = ''orders'', rs_group_id = ''g'', rs_partitions = [orders_offsets 0 3, orders_offsets 1 1],
     rs_read_id = None, rs_cluster_id = None, rs_connection_id = None, rs_isolation_level = ''read_committed'',
     rs_messages_read = None, rs_bytes_read = None, rs_stop_reason = None\<rparr>"

abbreviation orders_log :: topic_log where
  "orders_log \<equiv> broker_log orders_entries"

abbreviation orders_reach :: "dask_graph \<Rightarrow> bool" where
  "orders_reach \<equiv> reach (graph_init orders_log orders_plan) (graph_step (gateway_env orders_log) orders_config)"

lemma orders_delivers: "sdk_delivers orders_log orders_sdk"
  using broker_delivers [of orders_entries] by (auto simp: sdk_delivers_def orders_sdk_def broker_sdk_def)

lemma orders_gateway_env: "gateway_env orders_log orders_env"
  using orders_delivers by (auto simp: gateway_env_def orders_env_def)

lemma orders_start_reach: "orders_reach orders_start"
proof (rule reach_init)
  have "make_reader orders_plan 100 = Inr (projr (make_reader orders_plan 100))"
    by (simp add: make_reader_def read_slot_count_def Let_def planned_count_def planned_size_def ceil_div_def orders_plan_def)
  moreover have "plan_ok orders_plan"
    by (simp add: plan_ok_def range_tps_def limits_ok_def orders_plan_def orders_tp_def)
  ultimately show "graph_init orders_log orders_plan orders_start"
    unfolding graph_init_def orders_start_def using broker_log_ok by blast
qed

lemma orders_task_reach:
  assumes "orders_reach g" "k < dr_slots (dg_reader g)" "task_cursor g k \<noteq> None"
  shows "orders_reach (orders_task k g)"
proof -
  obtain cursor where "task_cursor g k = Some cursor" using assms(3) by auto
  then show ?thesis
    using reach_step [OF assms(1) read_task [of "gateway_env orders_log", OF orders_gateway_env assms(2)]]
    by (simp add: orders_task_def)
qed

lemma orders_frame_reach:
  assumes "orders_reach g" "map_of (dg_results g) k \<noteq> None"
  shows "orders_reach (orders_frame k g)"
  using reach_step [OF assms(1) frame_task] assms(2) by (auto simp: orders_frame_def)

lemma orders_states:
  "0 < dr_slots (dg_reader orders_start)" "task_cursor orders_start 0 \<noteq> None"
  "1 < dr_slots (dg_reader (orders_task 0 orders_start))" "task_cursor (orders_task 0 orders_start) 1 \<noteq> None"
  "2 < dr_slots (dg_reader (orders_graph 2))" "task_cursor (orders_graph 2) 2 \<noteq> None"
  "map_of (dg_results (orders_graph 3)) 0 \<noteq> None" "map_of (dg_results (orders_graph 4)) 1 \<noteq> None"
  "map_of (dg_results (orders_graph 5)) 2 \<noteq> None"
  by code_simp+

lemma orders_graph_steps:
  "orders_graph 2 = orders_task 1 (orders_task 0 orders_start)" "orders_graph 3 = orders_task 2 (orders_graph 2)"
  "orders_graph 4 = orders_frame 0 (orders_graph 3)" "orders_graph 5 = orders_frame 1 (orders_graph 4)"
  "orders_graph 6 = orders_frame 2 (orders_graph 5)"
  by (simp_all add: orders_graph_def eval_nat_numeral)

lemma orders_graph_reach: "orders_reach (orders_graph 2)" "orders_reach (orders_graph 3)" "orders_reach (orders_graph 6)"
proof -
  show 2: "orders_reach (orders_graph 2)"
    unfolding orders_graph_steps by (intro orders_task_reach orders_start_reach orders_states)
  show 3: "orders_reach (orders_graph 3)"
    unfolding orders_graph_steps(2) by (intro orders_task_reach 2 orders_states)
  show "orders_reach (orders_graph 6)"
    unfolding orders_graph_steps(3-5)
    using orders_states(8,9) unfolding orders_graph_steps(3-5)
    by (intro orders_frame_reach 3 orders_states(7))
qed

section \<open>Properties\<close>

text \<open>
  C36. A successful read of the gateway returns exactly the messages of the partition between the
  start of the range and the position it reports, in order and each once, whatever polls failed and
  were retried on the way. The read respects the limits on records and bytes, and it stops only at
  the end of the range or at one of the limits of the request.
\<close>

theorem gateway_reads_the_log:
  assumes "log_ok lg" "sdk_delivers lg sdk" "rg_start (rq_range rq) \<le> rg_end (rq_range rq)"
    and "gateway_read sdk attempts rq = Inr b"
  shows "rb_messages b = segment lg (rg_topic_partition (rq_range rq)) (rg_start (rq_range rq)) (rb_next_position b) \<and>
    rg_start (rq_range rq) \<le> rb_next_position b \<and> rb_next_position b \<le> rg_end (rq_range rq) \<and>
    int (length (rb_messages b)) \<le> rq_max_records rq \<and> within_limit (rq_max_bytes rq) (total_bytes (rb_messages b)) \<and>
    (rb_byte_limit_reached b \<or> rb_next_position b = rg_end (rq_range rq) \<or>
     rq_max_records rq \<le> int (length (rb_messages b)) \<or> rq_target_bytes rq \<le> total_bytes (rb_messages b))"
proof -
  have ok: "batch_ok lg rq b" using assms by (rule gateway_read_ok)
  show ?thesis using batch_okD [OF ok] batch_ok_stopped [OF ok] by blast
qed

lemma orders_read: "gateway_read orders_sdk 3 orders_request = Inr (projr (gateway_read orders_sdk 3 orders_request))"
proof -
  have "\<not> isl (gateway_read orders_sdk 3 orders_request)" by code_simp
  then show ?thesis by (simp add: sum.collapse(2))
qed

theorem gateway_reads_the_log_witness:
  "isl (gateway_read orders_sdk 1 orders_request) \<and>
   map rm_offset (rb_messages (projr (gateway_read orders_sdk 3 orders_request))) = [0, 2] \<and>
   rb_messages (projr (gateway_read orders_sdk 3 orders_request)) = segment orders_log orders_tp 0 3"
proof -
  have "isl (gateway_read orders_sdk 1 orders_request)" by code_simp
  moreover have "map rm_offset (rb_messages (projr (gateway_read orders_sdk 3 orders_request))) = [0, 2]" by code_simp
  moreover have "rb_next_position (projr (gateway_read orders_sdk 3 orders_request)) = 3" by code_simp
  moreover note gateway_reads_the_log [OF broker_log_ok orders_delivers _ orders_read]
  ultimately show ?thesis by (simp add: orders_request_def)
qed

text \<open>
  C37. The number of read tasks that is planned suffices: in every state of a read that Dask can
  reach, a chunk that the last read task reads or replays ends with a stop reason, so that the graph
  is never exhausted before the read has ended.
\<close>

theorem planned_tasks_suffice:
  assumes "reach (graph_init lg plan) (graph_step (gateway_env lg) cf) g" "gateway_env lg env"
    and "Suc number = dr_slots (dg_reader g)" "task_cursor g number = Some cursor"
    and "read_or_replay cf env (dg_reader g) cursor number = Inr (ms, r)"
  shows "cu_stop_reason (cr_cursor r) \<noteq> None"
  using assms(1)
proof (rule reachable_graph)
  fix ps limit
  assume ok: "log_ok lg" "plan_ok plan" "read_slot_count plan limit = Inr (int (dr_slots (dg_reader g)))" "graph_ok cf lg plan ps g"
  note step = read_or_replay_ok [OF ok(1,2) assms(2) ok(4) assms(4,5)]
  have chain: "chunk_chain (rf_fingerprint cf) lg plan [] (initial_cursor plan) ps" "length ps \<le> dr_slots (dg_reader g)"
    using ok(4) reader_ok_chain [of cf lg plan ps "dg_reader g"] by (simp_all add: graph_ok_def)
  show ?thesis
  proof (cases "number < length ps")
    case True
    then have "length ps = dr_slots (dg_reader g)" using chain(2) assms(3) by simp
    moreover have "ps ! number = (ms, r)" using step True by simp
    ultimately show ?thesis using terminal_part [OF ok(1-3) chain(1)] by (simp add: assms(3) [symmetric])
  next
    case False
    then have new: "number = length ps" "chunk_chain (rf_fingerprint cf) lg plan [] (initial_cursor plan) (ps @ [(ms, r)])"
      using step by auto
    from terminal_part [OF ok(1-3) new(2)] show ?thesis using new(1) by (simp add: nth_append assms(3) [symmetric])
  qed
qed

theorem planned_tasks_suffice_witness:
  "case read_or_replay orders_config orders_env (dg_reader (orders_graph 2)) (the (task_cursor (orders_graph 2) 2)) 2 of
     Inl e \<Rightarrow> False | Inr (ms, r) \<Rightarrow> cu_stop_reason (cr_cursor r) \<noteq> None"
proof -
  let ?out = "read_or_replay orders_config orders_env (dg_reader (orders_graph 2)) (the (task_cursor (orders_graph 2) 2)) 2"
  have "\<not> isl ?out" by code_simp
  then obtain ms r where out: "?out = Inr (ms, r)" by (cases ?out) auto
  have slots: "Suc 2 = dr_slots (dg_reader (orders_graph 2))" by code_simp
  have cursor: "task_cursor (orders_graph 2) 2 = Some (the (task_cursor (orders_graph 2) 2))" using orders_states(6) by simp
  show ?thesis
    using planned_tasks_suffice [OF orders_graph_reach(1) orders_gateway_env slots cursor out] out by simp
qed

text \<open>
  C38. Recomputing a read task agrees with its first computation: as long as Dask holds the result
  of a task, running the task again through any conditions of the gateway raises an error or returns
  the same rows and the same receipt, and leaves the receipts of the reader unchanged.
\<close>

theorem recomputed_tasks_agree:
  assumes "reach (graph_init lg plan) (graph_step (gateway_env lg) cf) g" "gateway_env lg env"
    and "task_cursor g number = Some cursor" "map_of (dg_results g) number = Some res"
    and "reader_read cf env cursor number (dg_reader g) = (Inr out, d)"
  shows "out = res \<and> d = dg_reader g"
  using assms(1)
proof (rule reachable_graph)
  fix ps limit
  assume ok: "log_ok lg" "plan_ok plan" "graph_ok cf lg plan ps g"
  obtain frame r where out: "out = (frame, r)" by fastforce
  obtain ms where ms: "read_or_replay cf env (dg_reader g) cursor number = Inr (ms, r)"
    "messages_to_dataframe (rf_codec cf) (rf_formats cf) ms = Inr frame"
    "d = (dg_reader g)\<lparr>dr_receipts := dict_put number r (dr_receipts (dg_reader g))\<rparr>"
    using reader_readE assms(5) out by metis
  have rd: "reader_ok cf lg plan ps (dg_reader g)" "results_ok cf ps g" using ok(3) by (simp_all add: graph_ok_def)
  note res = results_okD [OF rd(2) assms(4)]
  have part: "ps ! number = (ms, r)" using read_or_replay_ok [OF ok(1,2) assms(2) ok(3) assms(3) ms(1)] res by simp
  have "out = res" using res part ms(2) out by (cases res) (simp add: part_frame_def)
  moreover have "d = dg_reader g"
    using ms(3) part res reader_ok_chain(4) [OF rd(1)] by (simp add: dict_put_same map_of_receipts_of)
  ultimately show ?thesis by simp
qed

theorem recomputed_tasks_agree_witness:
  "reader_read orders_config orders_env (the (task_cursor (orders_graph 3) 1)) 1 (dg_reader (orders_graph 3)) =
     (Inr (the (map_of (dg_results (orders_graph 3)) 1)), dg_reader (orders_graph 3))"
proof -
  let ?run = "reader_read orders_config orders_env (the (task_cursor (orders_graph 3) 1)) 1 (dg_reader (orders_graph 3))"
  have "\<not> isl (fst ?run)" by code_simp
  then obtain out d where run: "?run = (Inr out, d)" by (cases ?run; cases "fst ?run") auto
  have "task_cursor (orders_graph 3) 1 \<noteq> None" "map_of (dg_results (orders_graph 3)) 1 \<noteq> None" by code_simp+
  then have "task_cursor (orders_graph 3) 1 = Some (the (task_cursor (orders_graph 3) 1))"
    and "map_of (dg_results (orders_graph 3)) 1 = Some (the (map_of (dg_results (orders_graph 3)) 1))"
    by simp_all
  from recomputed_tasks_agree [OF orders_graph_reach(2) orders_gateway_env this run] show ?thesis using run by simp
qed

text \<open>
  C39. Offsets are published only for a complete read: whenever the variables of the node hold a
  summary, the rows of every part have been delivered and stem from messages whose summary it is. In
  every range these messages are the visible messages from the start up to a position, up to the end
  where the stop reason says so; the limits of the plan hold; and the next offset of a partition
  ends exactly the messages that were delivered.
\<close>

theorem published_reads_are_complete:
  assumes "reach (graph_init lg plan) (graph_step (gateway_env lg) cf) g" "dr_variables (dg_reader g) = Some s"
  shows "\<exists>mss. length mss = dr_slots (dg_reader g) \<and> complete_read lg plan (concat mss) s \<and>
    list_all2 (\<lambda>k ms. \<exists>frame. map_of (dg_frames g) k = Some frame \<and>
      messages_to_dataframe (rf_codec cf) (rf_formats cf) ms = Inr frame) [0..<dr_slots (dg_reader g)] mss"
  using assms(1)
proof (rule reachable_graph)
  fix ps limit
  let ?d = "dg_reader g"
  assume ok: "log_ok lg" "plan_ok plan" "graph_ok cf lg plan ps g"
  have rd: "reader_ok cf lg plan ps ?d" and frames: "frames_ok cf ps g" using ok(3) by (simp_all add: graph_ok_def)
  note chain = reader_ok_chain [OF rd] and pub = reader_ok_published [OF rd assms(2)]
  have "complete_read lg plan (chain_messages ps) s"
    by (rule summary_complete [OF ok(1,2) chain(1,2) _ chain(4) refl pub(4,5)]) (simp add: pub(2))
  moreover have "list_all2 (\<lambda>k ms. \<exists>frame. map_of (dg_frames g) k = Some frame \<and>
      messages_to_dataframe (rf_codec cf) (rf_formats cf) ms = Inr frame) [0..<dr_slots ?d] (map fst ps)"
    using frames pub(1-3) by (auto simp: list_all2_conv_all_nth frames_ok_def part_frame_def)
  ultimately show ?thesis using pub(2) by (intro exI [of _ "map fst ps"]) (simp add: chain_messages_def)
qed

theorem published_reads_are_complete_witness:
  "\<exists>s mss. dr_variables (dg_reader (orders_graph 6)) = Some s \<and> rs_messages_read s = Some 2 \<and>
     rs_stop_reason s = Some Snapshot_exhausted \<and> length mss = 3 \<and> complete_read orders_log orders_plan (concat mss) s"
proof -
  have "map_option (\<lambda>s. (rs_messages_read s, rs_stop_reason s)) (dr_variables (dg_reader (orders_graph 6))) =
      Some (Some 2, Some Snapshot_exhausted)" by code_simp
  then obtain s where s: "dr_variables (dg_reader (orders_graph 6)) = Some s" "rs_messages_read s = Some 2"
    "rs_stop_reason s = Some Snapshot_exhausted" by auto
  have "dr_slots (dg_reader (orders_graph 6)) = 3" by code_simp
  then show ?thesis using published_reads_are_complete [OF orders_graph_reach(3) s(1)] s by auto
qed

text \<open>
  C40. A commit never moves a group backwards: whichever of the submitted positions the broker saved,
  no position of the group is lower than before. A submitted position is the next offset of a
  partition of the summary, lies within the partition and above the position of the group; and once
  a request was saved, committing the same summary again submits nothing.
\<close>

theorem commits_never_move_backwards:
  assumes "reports_group gw stored" "commit_offsets gw cancelled s = (out, positions)"
  shows "(\<forall>tp c. stored tp = Some c \<longrightarrow> (\<exists>c'. committed_after stored positions saved tp = Some c' \<and> c \<le> c')) \<and>
    (\<forall>(tp, p) \<in> set positions. \<exists>o' \<in> set (rs_partitions s).
      tp = \<lparr>tp_topic = rs_topic s, tp_partition = po_partition o'\<rparr> \<and> p = po_next_offset o' \<and> 0 \<le> p \<and>
      (\<exists>tps bounds b e. kg_bounds gw tps (rs_isolation_level s) = Inr bounds \<and> map_of bounds tp = Some (b, e) \<and> p \<le> e)) \<and>
    (positions \<noteq> [] \<or> (\<exists>r. out = Inr r) \<longrightarrow>
      snd (commit_offsets (gw\<lparr>kg_committed := (\<lambda>group_id tps. Inr (map (\<lambda>tp. (tp, committed_after stored positions UNIV tp)) tps))\<rparr>)
        cancelled' s) = [])"
proof (intro conjI)
  show "\<forall>tp c. stored tp = Some c \<longrightarrow> (\<exists>c'. committed_after stored positions saved tp = Some c' \<and> c \<le> c')"
    using committed_after_mono [OF assms] by blast
  show "\<forall>(tp, p) \<in> set positions. \<exists>o' \<in> set (rs_partitions s).
      tp = \<lparr>tp_topic = rs_topic s, tp_partition = po_partition o'\<rparr> \<and> p = po_next_offset o' \<and> 0 \<le> p \<and>
      (\<exists>tps bounds b e. kg_bounds gw tps (rs_isolation_level s) = Inr bounds \<and> map_of bounds tp = Some (b, e) \<and> p \<le> e)"
    using submitted_position [OF assms] by fast
  show "positions \<noteq> [] \<or> (\<exists>r. out = Inr r) \<longrightarrow>
      snd (commit_offsets (gw\<lparr>kg_committed := (\<lambda>group_id tps. Inr (map (\<lambda>tp. (tp, committed_after stored positions UNIV tp)) tps))\<rparr>)
        cancelled' s) = []"
    using commit_again [OF assms] by (simp add: reports_group_def)
qed

theorem commits_never_move_backwards_witness:
  "map pc_status (projr (fst (commit_offsets (orders_gateway orders_stored) (\<lambda>now. False) orders_summary))) = [Committed, Already_ahead] \<and>
   snd (commit_offsets (orders_gateway orders_stored) (\<lambda>now. False) orders_summary) = [(orders_tp, 3)] \<and>
   snd (commit_offsets (orders_gateway (committed_after orders_stored [(orders_tp, 3)] UNIV)) (\<lambda>now. False) orders_summary) = []"
proof -
  let ?run = "commit_offsets (orders_gateway orders_stored) (\<lambda>now. False) orders_summary"
  have reports: "reports_group (orders_gateway orders_stored) orders_stored" by (simp add: reports_group_def orders_gateway_def)
  have status: "map pc_status (projr (fst ?run)) = [Committed, Already_ahead]" by code_simp
  have positions: "snd ?run = [(orders_tp, 3)]" by code_simp
  then have run: "?run = (fst ?run, [(orders_tp, 3)])" by (metis prod.collapse)
  have "snd (commit_offsets (orders_gateway (committed_after orders_stored [(orders_tp, 3)] UNIV)) (\<lambda>now. False) orders_summary) = []"
    using commits_never_move_backwards [OF reports run, where cancelled' = "\<lambda>now. False"]
    by (simp add: orders_gateway_def)
  then show ?thesis using status positions by simp
qed

end
