(* ===== verification/Spec2Isabelle.thy ===== *)
theory Spec2Isabelle
  imports Supervisor_Capacity Pipeline_Validation Processor_Dataflow Kafka_Safety
begin

text \<open>
  A verification of the pipeline execution core of the repository: how tasks are queued, claimed,
  stopped and finished, how the orchestrator watches workers, how a graph of nodes becomes an
  executable pipeline, how a worker runs that pipeline, and how a node reads and commits Kafka messages.

  \<^bold>\<open>The program.\<close> A gateway turns a project graph into a pipeline (nodes with typed input and output
  ports, joined by links), stores a task with an outbox record in the database and publishes it.
  Workers claim tasks, run the pipeline with the processor and finalise the task. The orchestrator
  keeps registries of workers and executions in Redis, reaps workers without a heartbeat, finalises
  the tasks of lost workers, applies stop requests, limits nested waits (a task that waits for a child
  task) and guards against memory pressure. Two nodes consume Kafka topics: one plans a snapshot of
  offset ranges, reads it lazily in parts and publishes the offsets it has delivered, the other commits
  published offsets for a consumer group.

  \<^bold>\<open>Theories and the code they model.\<close>

  \<^item> \<open>Dvt_Prelude\<close>: results with errors, insertion-ordered dictionaries (\<^verbatim>\<open>dict\<close>), table
    updates, and the interface \<open>keyed_store\<close>, which dictionaries implement.
  \<^item> \<open>Task_Types\<close>, \<open>Task_Repository\<close>, \<open>Task_Lifecycle\<close>: \<^verbatim>\<open>src/modules/task_execution\<close>. The database
    is a record of the task table and the outbox table; every repository method and use case is a
    function on it, with one transaction per call. Runs are sequences of operations (\<open>step\<close> in
    \<open>Task_Lifecycle\<close>). \<open>Task_Safety\<close> proves the invariants and the safety of claims, finalisations
    and stop requests over all runs (C1 to C7), \<open>Task_Outbox\<close> the agreement of outbox and tasks, root
    coalescing and publication (C8 to C10).
  \<^item> \<open>Nested_Wait\<close>: the Lua scripts and the service of nested wait reservations (C11, C12).
  \<^item> \<open>Worker_Registry\<close>, \<open>Execution_Supervisor\<close>: \<^verbatim>\<open>services/orchestrator\<close>, the registries, the
    scheduler, the supervisor passes and the OOM guard with its settings; \<open>Supervisor_Safety\<close> and
    \<open>Supervisor_Capacity\<close> prove what a pass does (C13 to C17).
  \<^item> \<open>Node_Inputs\<close>: port types, input values and their parser, node data and definitions
    (\<^verbatim>\<open>src/node_dsl\<close>, \<^verbatim>\<open>src/schemas\<close>). Python values are the datatype \<open>pyval\<close>.
  \<^item> \<open>Pipeline_Graph\<close>, \<open>Pipeline_Order\<close>: dependency closures and the topological sort of
    \<^verbatim>\<open>src/pipeline/graph_utils.py\<close> (C18 to C20).
  \<^item> \<open>Graph_Builder\<close>, \<open>Graph_Targets\<close>: \<^verbatim>\<open>src/pipeline/graph\<close>, from graph records to a pipeline with
    its targets (C21 to C23). \<open>Pipeline_Validation\<close>: \<^verbatim>\<open>src/pipeline/validation.py\<close> (C24).
  \<^item> \<open>Variable_Values\<close>, \<open>Variable_Types\<close>: \<^verbatim>\<open>src/node_dsl/variables\<close> and the resolution of input
    values (C25 to C27). \<open>Node_Kwargs\<close>: the arguments of a node, \<^verbatim>\<open>build_node_kwargs\<close> (C28).
  \<^item> \<open>Pipeline_Processor\<close>: \<^verbatim>\<open>src/pipeline/processor.py\<close>, one function per method, with the state of
    the processor as a record and its callbacks as a list of events. \<open>Processor_Steps\<close> describes the
    outcomes of one node by the relation \<open>node_outcome\<close>; \<open>Processor_Runs\<close> has the locale \<open>node_loop\<close>
    for invariants of the node loop, interpreted in \<open>Processor_Safety\<close> (bookkeeping, polls, events)
    and in \<open>Processor_Dataflow\<close> (dependencies). The properties are C29 to C35.
  \<^item> \<open>Kafka_Values\<close>: the domain of \<^verbatim>\<open>src/modules/kafka_consumption\<close> and \<^verbatim>\<open>plan_read.py\<close>, which fixes the
    offset ranges of a bounded read. \<open>Kafka_Gateway\<close>: \<^verbatim>\<open>infra/gateways/kafka_python.py\<close>, each method a
    computation on the state of its consumer, with retries and the poll loop. \<open>Kafka_Log\<close> proves that
    a read returns a contiguous part of the log.
  \<^item> \<open>Kafka_Chunks\<close>: \<^verbatim>\<open>read_chunk.py\<close>, reading and replaying a chunk. \<open>Kafka_Reading\<close> has the locale
    \<open>log_reader\<close>, the laws of a gateway, and proves in it what chunks read and replay.
  \<^item> \<open>Kafka_Reader\<close>: \<^verbatim>\<open>dask_reader.py\<close>, \<^verbatim>\<open>dataframe.py\<close> and \<^verbatim>\<open>commit_offsets.py\<close>; the Dask graph is the step
    relation \<open>graph_step\<close>. \<open>Kafka_Slots\<close> counts the chunks of a read, \<open>Kafka_Publication\<close> sums up their
    receipts, \<open>Kafka_Graph\<close> proves the invariant of the graph and makes the gateway an instance of
    \<open>log_reader\<close> (by the locale \<open>kafka_client\<close>), and \<open>Kafka_Broker\<close> interprets that locale for every
    content of a log. \<open>Kafka_Safety\<close> has the properties C36 to C40.

  \<^bold>\<open>What is assumed.\<close> Code outside the repository is a parameter: the Pydantic adapters, the JSON
  decoder, the expression evaluator and the SQL renderer (records \<open>value_env\<close> and \<open>kwargs_env\<close>), the
  behaviour of node classes, the hash function, the cache stores and the stop event (record
  \<open>run_env\<close>), the Kafka client (record \<open>kafka_sdk\<close>, with the law \<open>sdk_delivers\<close> that a poll returns the
  records between its old and new fetch position), the text codecs, and Dask, which may run, repeat and
  release the tasks of a graph in every order that their arguments allow. The order in which Python
  visits a set is a parameter \<open>ord\<close> that may be any permutation. Time is a number passed in by the caller. A database transaction and a Redis script
  are atomic; interleavings are sequences of these steps.

  \<^bold>\<open>Bounds and fuel.\<close> No definition uses fuel. Worklists, the topological sort, the search for the
  cache frontier, the loop over the partitions of a chunk and the poll loop of a read are defined by
  well-founded recursion, so every run of the model ends; the poll loop counts the passes without
  progress that fit into its timeout (\<open>sk_patience\<close>) instead of reading a clock; the batch
  limits of the code (such as 1000 executions in a supervisor pass) are the limits of the model.
  Integers are unbounded as in Python.

  \<^bold>\<open>Not modelled.\<close> The bodies of nodes and the dataframe, SQL and file libraries they call; the HTTP
  routes, schemas and generated clients, which hold no state of their own; database migrations,
  sessions and connection handling; the settings of a Kafka connection, the bounded client built from
  them, and the JSON form of published offsets; extension, file storage and connection management; logging,
  metrics and localisation. Durations do not overflow and sets are not among the values of
  variables. The texts of validation messages are represented by the branch that raises them.
\<close>

end
